(* ===== verification/Prelude.thy ===== *)
theory Prelude
  imports Main "HOL-Library.Word" "HOL-Library.State_Monad"
begin

text \<open>
  Shared vocabulary of the development.

  \<^item> Machine integers of the C sources (\<open>u8\<close> \<dots> \<open>u64\<close>) as words, Linux error
    numbers as integers: a C function that returns a negative error number returns
    \<open>- EINVAL\<close> and so on here.
  \<^item> A weakest-precondition calculus for the state monad in which the stateful
    functions of the driver are written (collections \<open>wp_eqs\<close> and \<open>wp_intros\<close>).
  \<^item> A locale for relations between the state before and after a computation that are
    closed under sequencing; every component interprets it for the relations it needs.
  \<^item> Byte-level access: bounds-checked little-endian loads from a byte list, and loads
    from memory seen as a total function from addresses to bytes.
\<close>

unbundle bit_operations_syntax

section \<open>Machine integers and error numbers\<close>

type_synonym u8 = "8 word"
type_synonym u16 = "16 word"
type_synonym u32 = "32 word"
type_synonym u64 = "64 word"

text \<open>The error numbers of the Linux user-space ABI that the driver returns.\<close>

definition ENOENT :: int where "ENOENT = 2"
definition EINTR :: int where "EINTR = 4"
definition EIO :: int where "EIO = 5"
definition ENOEXEC :: int where "ENOEXEC = 8"
definition ENOMEM :: int where "ENOMEM = 12"
definition EFAULT :: int where "EFAULT = 14"
definition EBUSY :: int where "EBUSY = 16"
definition EEXIST :: int where "EEXIST = 17"
definition ENODEV :: int where "ENODEV = 19"
definition EINVAL :: int where "EINVAL = 22"
definition ENOTTY :: int where "ENOTTY = 25"
definition ENOSPC :: int where "ENOSPC = 28"
definition ENAMETOOLONG :: int where "ENAMETOOLONG = 36"
definition EBADRQC :: int where "EBADRQC = 56"
definition ECOMM :: int where "ECOMM = 70"
definition EADDRNOTAVAIL :: int where "EADDRNOTAVAIL = 99"
definition ENOBUFS :: int where "ENOBUFS = 105"
definition ETIMEDOUT :: int where "ETIMEDOUT = 110"

lemmas errno_defs = ENOENT_def EINTR_def EIO_def ENOEXEC_def ENOMEM_def EFAULT_def EBUSY_def
  EEXIST_def ENODEV_def EINVAL_def ENOTTY_def ENOSPC_def ENAMETOOLONG_def EBADRQC_def ECOMM_def
  EADDRNOTAVAIL_def ENOBUFS_def ETIMEDOUT_def

section \<open>The state monad: weakest preconditions\<close>

abbreviation ret :: "'a \<Rightarrow> ('s, 'a) state" where
  "ret \<equiv> State_Monad.return"

abbreviation modify :: "('s \<Rightarrow> 's) \<Rightarrow> ('s, unit) state" where
  "modify \<equiv> State_Monad.update"

definition gets :: "('s \<Rightarrow> 'a) \<Rightarrow> ('s, 'a) state" where
  "gets f = State (\<lambda>s. (f s, s))"

definition wp :: "('s, 'a) state \<Rightarrow> ('a \<Rightarrow> 's \<Rightarrow> bool) \<Rightarrow> 's \<Rightarrow> bool" where
  "wp m Q s \<longleftrightarrow> (case run_state m s of (r, t) \<Rightarrow> Q r t)"

named_theorems wp_eqs "equations that compute a weakest precondition"
named_theorems wp_intros "rules that prove a weakest precondition of a called function"

lemma run_gets [simp]: "run_state (gets f) s = (f s, s)"
  by (simp add: gets_def)

lemma run_modify [simp]: "run_state (modify f) s = ((), f s)"
  by (simp add: State_Monad.update_def)

lemma wp_ret [wp_eqs]: "wp (ret x) Q s \<longleftrightarrow> Q x s"
  by (simp add: wp_def)

lemma wp_bind [wp_eqs]: "wp (State_Monad.bind m f) Q s \<longleftrightarrow> wp m (\<lambda>r. wp (f r) Q) s"
  by (simp add: wp_def split: prod.splits)

lemma wp_gets [wp_eqs]: "wp (gets f) Q s \<longleftrightarrow> Q (f s) s"
  by (simp add: wp_def)

lemma wp_modify [wp_eqs]: "wp (modify f) Q s \<longleftrightarrow> Q () (f s)"
  by (simp add: wp_def)

lemma wp_if [wp_eqs]: "wp (if b then m else n) Q s \<longleftrightarrow> (if b then wp m Q s else wp n Q s)"
  by simp

lemma wp_case_option [wp_eqs]:
  "wp (case x of None \<Rightarrow> m | Some y \<Rightarrow> f y) Q s \<longleftrightarrow>
     (case x of None \<Rightarrow> wp m Q s | Some y \<Rightarrow> wp (f y) Q s)"
  by (simp split: option.splits)

text \<open>The same equations as introduction rules, for proofs that walk through a program.\<close>

lemmas wp_steps = wp_ret [THEN iffD2] wp_bind [THEN iffD2] wp_gets [THEN iffD2] wp_modify [THEN iffD2]

lemma wp_ifI:
  "(b \<Longrightarrow> wp m Q s) \<Longrightarrow> (\<not> b \<Longrightarrow> wp n Q s) \<Longrightarrow> wp (if b then m else n) Q s"
  by simp

lemma wp_optionI:
  "(x = None \<Longrightarrow> wp m Q s) \<Longrightarrow> (\<And>y. x = Some y \<Longrightarrow> wp (f y) Q s) \<Longrightarrow>
     wp (case x of None \<Rightarrow> m | Some y \<Rightarrow> f y) Q s"
  by (cases x) simp_all

lemma wp_mono: "wp m Q s \<Longrightarrow> (\<And>r t. Q r t \<Longrightarrow> R r t) \<Longrightarrow> wp m R s"
  by (auto simp: wp_def split: prod.splits)

lemma wp_conj: "wp m Q s \<Longrightarrow> wp m R s \<Longrightarrow> wp m (\<lambda>r t. Q r t \<and> R r t) s"
  by (auto simp: wp_def split: prod.splits)

lemma wp_run: "wp m Q s \<Longrightarrow> run_state m s = (r, t) \<Longrightarrow> Q r t"
  by (simp add: wp_def)

lemma wp_snd: "wp m (\<lambda>r t. Q t) s \<longleftrightarrow> Q (snd (run_state m s))"
  by (simp add: wp_def split: prod.splits)

lemma wp_iff_run: "wp m Q s \<longleftrightarrow> Q (fst (run_state m s)) (snd (run_state m s))"
  by (simp add: wp_def split: prod.splits)

section \<open>Relations closed under sequencing\<close>

text \<open>
  A \<open>run_rel\<close> relates the state before a computation to the state after it, is
  reflexive and transitive, and therefore holds of a sequence when it holds of its
  parts. The library's \<open>state_io_rel\<close> says that a computation satisfies it from
  every state.
\<close>

locale run_rel =
  fixes R :: "'s \<Rightarrow> 's \<Rightarrow> bool"
  assumes R_refl: "R s s"
    and R_trans: "R s t \<Longrightarrow> R t u \<Longrightarrow> R s u"
begin

lemma ret_rel: "state_io_rel R (ret x)"
  by (simp add: state_io_rel_def R_refl)

lemma gets_rel: "state_io_rel R (gets f)"
  by (simp add: state_io_rel_def R_refl)

lemma modify_rel: "(\<And>s. R s (f s)) \<Longrightarrow> state_io_rel R (modify f)"
  by (simp add: state_io_rel_def)

lemma bind_rel:
  assumes "state_io_rel R m" and "\<And>x. state_io_rel R (f x)"
  shows "state_io_rel R (State_Monad.bind m f)"
  using assms unfolding state_io_rel_def
  by (auto split: prod.splits intro: R_trans dest: spec)

lemma if_rel:
  assumes "b \<Longrightarrow> state_io_rel R m" and "\<not> b \<Longrightarrow> state_io_rel R n"
  shows "state_io_rel R (if b then m else n)"
  using assms by simp

lemma option_rel:
  assumes "state_io_rel R m" and "\<And>y. state_io_rel R (f y)"
  shows "state_io_rel R (case x of None \<Rightarrow> m | Some y \<Rightarrow> f y)"
  using assms by (cases x) simp_all

lemma prod_rel: "(\<And>a b. state_io_rel R (f a b)) \<Longrightarrow> state_io_rel R (case p of (a, b) \<Rightarrow> f a b)"
  by (cases p) simp

lemmas rel_rules = ret_rel gets_rel bind_rel if_rel option_rel prod_rel

lemma rel_run: "state_io_rel R m \<Longrightarrow> R s (snd (run_state m s))"
  by (simp add: state_io_rel_def)

lemma rel_wp: "state_io_rel R m \<Longrightarrow> wp m (\<lambda>r t. R s t) s"
  by (simp add: wp_snd rel_run)

end

section \<open>Bytes\<close>

text \<open>
  \<open>le16_at\<close> and \<open>le32_at\<close> are the driver's little-endian loads through a pointer into
  a buffer of known length: \<open>None\<close> stands for an access outside the buffer.
\<close>

definition byte_at :: "u8 list \<Rightarrow> nat \<Rightarrow> u8 option" where
  "byte_at d i = (if i < length d then Some (d ! i) else None)"

definition le16 :: "u8 \<Rightarrow> u8 \<Rightarrow> u16" where
  "le16 a b = ucast a OR push_bit 8 (ucast b)"

definition le32 :: "u8 \<Rightarrow> u8 \<Rightarrow> u8 \<Rightarrow> u8 \<Rightarrow> u32" where
  "le32 a b c e = ucast a OR push_bit 8 (ucast b) OR push_bit 16 (ucast c) OR push_bit 24 (ucast e)"

definition le16_at :: "u8 list \<Rightarrow> nat \<Rightarrow> u16 option" where
  "le16_at d i = (if i + 2 \<le> length d then Some (le16 (d ! i) (d ! (i + 1))) else None)"

definition le32_at :: "u8 list \<Rightarrow> nat \<Rightarrow> u32 option" where
  "le32_at d i =
     (if i + 4 \<le> length d then Some (le32 (d ! i) (d ! (i + 1)) (d ! (i + 2)) (d ! (i + 3)))
      else None)"

lemma byte_at_Some [simp]: "i < length d \<Longrightarrow> byte_at d i = Some (d ! i)"
  by (simp add: byte_at_def)

lemma le16_at_Some [simp]:
  "i + 2 \<le> length d \<Longrightarrow> le16_at d i = Some (le16 (d ! i) (d ! (i + 1)))"
  by (simp add: le16_at_def)

lemma le32_at_Some [simp]:
  "i + 4 \<le> length d \<Longrightarrow>
     le32_at d i = Some (le32 (d ! i) (d ! (i + 1)) (d ! (i + 2)) (d ! (i + 3)))"
  by (simp add: le32_at_def)

text \<open>Memory as the hardware sees it: every address holds a byte.\<close>

type_synonym memory = "nat \<Rightarrow> u8"

definition mem16 :: "memory \<Rightarrow> nat \<Rightarrow> u16" where
  "mem16 m i = le16 (m i) (m (i + 1))"

definition mem32 :: "memory \<Rightarrow> nat \<Rightarrow> u32" where
  "mem32 m i = le32 (m i) (m (i + 1)) (m (i + 2)) (m (i + 3))"


definition mem_write :: "nat \<Rightarrow> u8 list \<Rightarrow> memory \<Rightarrow> memory" where
  "mem_write a bs m = (\<lambda>i. if a \<le> i \<and> i < a + length bs then bs ! (i - a) else m i)"

definition mem_bytes :: "memory \<Rightarrow> nat \<Rightarrow> nat \<Rightarrow> u8 list" where
  "mem_bytes m off n = map (\<lambda>i. m (off + i)) [0..<n]"

lemma length_mem_bytes [simp]: "length (mem_bytes m off n) = n"
  by (simp add: mem_bytes_def)

lemma mem_bytes_write_same: "mem_bytes (mem_write a bs m) a (length bs) = bs"
  by (rule nth_equalityI) (simp_all add: mem_bytes_def mem_write_def)

lemma mem_bytes_write_other:
  "off + n \<le> a \<or> a + length bs \<le> off \<Longrightarrow> mem_bytes (mem_write a bs m) off n = mem_bytes m off n"
  by (rule nth_equalityI) (auto simp: mem_bytes_def mem_write_def)

text \<open>A character of a C string literal as the byte that stands for it.\<close>

definition cstr :: "string \<Rightarrow> u8 list" where
  "cstr s = map (\<lambda>c. word_of_nat (of_char c)) s"

lemma length_cstr [simp]: "length (cstr s) = length s"
  by (simp add: cstr_def)

section \<open>Lists\<close>

lemma distinct_list_update_same:
  assumes "distinct (map f xs)" and "i < length xs" and "f y = f (xs ! i)"
  shows "distinct (map f (xs[i := y]))"
proof -
  have "map f (xs[i := y]) = map f xs"
    using assms(2,3) by (metis list_update_id map_update)
  with assms(1) show ?thesis by simp
qed

end
