(* ===== verification/Mmio.thy ===== *)
theory Mmio
  imports Prelude
begin

text \<open>
  The LA9310 register window behind the PCIe link and the fence that guards it
  (la9310_pci.h, the accessors at the end of la9310_vspa.h).

  The state keeps what the driver cannot see but must be prepared for: \<open>fence_at\<close> is the
  value of the fence at the n-th look at the window (another thread raises and lowers it),
  \<open>dev_read\<close> is what the device would answer at that moment. Both are arbitrary
  functions, and \<open>poll_reads\<close>, the number of reads that fit into the time of a polled
  wait, is an arbitrary number, so a theorem about every state covers every behaviour of the other thread and
  of the device. \<open>bus\<close> is the list of accesses that really went over the link, oldest
  first; \<open>fence_hits\<close> counts the accesses the fence stopped.
\<close>

text \<open>
  A location behind the link: a VSPA register by its word offset, a field or a word of the
  host interface structure, a register of the configuration space (PCIe controller, device
  configuration), a field of the boot header, the doorbell of a message unit (by index or by the
  name of the index), a word of
  the interrupt event block, a word of the radio command block of the host interface, a field or
  a word of an entry of the real-time command ring.
\<close>

datatype waddr =
    VReg nat
  | HifWord string
  | HifIdx nat
  | Ccsr string
  | BootHdr string
  | MsgUnit nat
  | MsgUnitId string
  | IrqEvt nat
  | SwCmd nat
  | Rtc string
  | RtcEntry nat nat

datatype bus_op = Rd waddr u32 | Wr waddr u32

record mmio =
  tick :: nat
  fence_at :: "nat \<Rightarrow> bool"
  dev_read :: "nat \<Rightarrow> waddr \<Rightarrow> u32"
  poll_reads :: nat
  fence_hits :: u32
  bus :: "bus_op list"

section \<open>Operations\<close>

definition rfnm_la9310_mmio_fenced :: "('a mmio_scheme, bool) state" where
  "rfnm_la9310_mmio_fenced = do {
     f \<leftarrow> gets (\<lambda>s. fence_at s (tick s));
     modify (\<lambda>s. s\<lparr>tick := tick s + 1\<rparr>);
     if \<not> f then ret False
     else do {
       modify (\<lambda>s. s\<lparr>fence_hits := fence_hits s + 1\<rparr>);
       ret True
     }
   }"

text \<open>A store and a load that reach the window (\<open>writel\<close>, \<open>iowrite32\<close>, \<open>readl\<close>,
  \<open>ioread32\<close>): no look at the fence.\<close>

definition raw_write :: "waddr \<Rightarrow> u32 \<Rightarrow> ('a mmio_scheme, unit) state" where
  "raw_write a v = modify (\<lambda>s. s\<lparr>bus := bus s @ [Wr a v]\<rparr>)"

definition raw_read :: "waddr \<Rightarrow> ('a mmio_scheme, u32) state" where
  "raw_read a = do {
     v \<leftarrow> gets (\<lambda>s. dev_read s (tick s) a);
     modify (\<lambda>s. s\<lparr>tick := tick s + 1, bus := bus s @ [Rd a v]\<rparr>);
     ret v
   }"

definition vspa_reg_write :: "nat \<Rightarrow> u32 \<Rightarrow> ('a mmio_scheme, unit) state" where
  "vspa_reg_write addr val = do {
     f \<leftarrow> rfnm_la9310_mmio_fenced;
     if f then ret () else raw_write (VReg addr) val
   }"

definition vspa_reg_read :: "nat \<Rightarrow> ('a mmio_scheme, u32) state" where
  "vspa_reg_read addr = do {
     f \<leftarrow> rfnm_la9310_mmio_fenced;
     if f then ret 0 else raw_read (VReg addr)
   }"

text \<open>
  The kernel's \<open>readl_poll_timeout\<close>: read until the condition holds; when the time is up
  read once more and judge that value. The clock decides how many reads fit, so their
  number is the environment's \<open>poll_reads\<close>.
\<close>

fun readl_poll :: "nat \<Rightarrow> (u32 \<Rightarrow> bool) \<Rightarrow> waddr \<Rightarrow> ('a mmio_scheme, int) state" where
  "readl_poll 0 c a = do { v \<leftarrow> raw_read a; ret (if c v then 0 else - ETIMEDOUT) }"
| "readl_poll (Suc n) c a = do { v \<leftarrow> raw_read a; if c v then ret 0 else readl_poll n c a }"

definition readl_poll_timeout :: "waddr \<Rightarrow> (u32 \<Rightarrow> bool) \<Rightarrow> ('a mmio_scheme, int) state" where
  "readl_poll_timeout a c = do { n \<leftarrow> gets poll_reads; readl_poll n c a }"

section \<open>Frames\<close>

text \<open>
  What an access may change: the tick, the hit counter and the bus, and the bus only by
  appending. \<open>bus_step s t b\<close> says that nothing else differs and the bus grew by \<open>b\<close>;
  \<open>bus_rel\<close> is the relation every register routine satisfies.
\<close>

definition bus_step :: "'a mmio_scheme \<Rightarrow> 'a mmio_scheme \<Rightarrow> bus_op list \<Rightarrow> bool" where
  "bus_step s t b \<longleftrightarrow> t = s\<lparr>tick := tick t, fence_hits := fence_hits t, bus := bus s @ b\<rparr>"

definition bus_rel :: "'a mmio_scheme \<Rightarrow> 'a mmio_scheme \<Rightarrow> bool" where
  "bus_rel s t \<longleftrightarrow> (\<exists>b. bus_step s t b)"

lemma bus_step_refl: "bus_step s s []"
  by (simp add: bus_step_def)

lemma bus_step_trans: "bus_step s t b \<Longrightarrow> bus_step t u c \<Longrightarrow> bus_step s u (b @ c)"
proof -
  assume "bus_step s t b" and u: "bus_step t u c"
  then obtain n h where "t = s\<lparr>tick := n, fence_hits := h, bus := bus s @ b\<rparr>"
    unfolding bus_step_def by blast
  with u show ?thesis by (simp add: bus_step_def)
qed

lemma bus_step_bus: "bus_step s t b \<Longrightarrow> bus t = bus s @ b"
  unfolding bus_step_def by (elim ssubst) simp

text \<open>With the fence up the whole time nothing reaches the bus.\<close>

definition fence_quiet :: "'a mmio_scheme \<Rightarrow> 'a mmio_scheme \<Rightarrow> bool" where
  "fence_quiet s t \<longleftrightarrow>
     fence_at t = fence_at s \<and> ((\<forall>n. fence_at s n) \<longrightarrow> bus t = bus s)"

interpretation br: run_rel bus_rel
  by unfold_locales (auto simp: bus_rel_def intro: bus_step_refl bus_step_trans)

interpretation fq: run_rel fence_quiet
  by unfold_locales (auto simp: fence_quiet_def)

named_theorems frame_rules "computations that only append to the bus"
named_theorems quiet_rules "computations that leave the bus alone under the fence"

lemma bus_relI: "(\<And>s. bus_step s (snd (run_state m s)) (f s)) \<Longrightarrow> state_io_rel bus_rel m"
  by (auto simp: state_io_rel_def bus_rel_def)

lemma fenced_frame [frame_rules]: "state_io_rel bus_rel rfnm_la9310_mmio_fenced"
  by (rule bus_relI [where f = "\<lambda>s. []"]) (simp add: rfnm_la9310_mmio_fenced_def bus_step_def)

lemma raw_write_frame [frame_rules]: "state_io_rel bus_rel (raw_write a v)"
  by (rule bus_relI [where f = "\<lambda>s. [Wr a v]"]) (simp add: raw_write_def bus_step_def)

lemma raw_read_frame [frame_rules]: "state_io_rel bus_rel (raw_read a)"
  by (rule bus_relI [where f = "\<lambda>s. [Rd a (dev_read s (tick s) a)]"])
    (simp add: raw_read_def bus_step_def)

lemma reg_write_frame [frame_rules]: "state_io_rel bus_rel (vspa_reg_write a v)"
  unfolding vspa_reg_write_def by (intro br.rel_rules frame_rules)

lemma reg_read_frame [frame_rules]: "state_io_rel bus_rel (vspa_reg_read a)"
  unfolding vspa_reg_read_def by (intro br.rel_rules frame_rules)

lemma readl_poll_frame [frame_rules]: "state_io_rel bus_rel (readl_poll n c a)"
proof (induction n)
  case 0
  show ?case by (simp only: readl_poll.simps) (intro br.rel_rules frame_rules)
next
  case (Suc n)
  then show ?case by (simp only: readl_poll.simps) (intro br.rel_rules frame_rules)
qed

lemma readl_poll_timeout_frame [frame_rules]: "state_io_rel bus_rel (readl_poll_timeout a c)"
  unfolding readl_poll_timeout_def by (intro br.rel_rules frame_rules)

lemma reg_write_quiet [quiet_rules]: "state_io_rel fence_quiet (vspa_reg_write a v)"
  unfolding vspa_reg_write_def rfnm_la9310_mmio_fenced_def raw_write_def state_io_rel_def
    fence_quiet_def by simp

lemma reg_read_quiet [quiet_rules]: "state_io_rel fence_quiet (vspa_reg_read a)"
  unfolding vspa_reg_read_def rfnm_la9310_mmio_fenced_def raw_read_def state_io_rel_def
    fence_quiet_def by simp

section \<open>Weakest preconditions of the accessors\<close>

text \<open>A register access seen from a caller that does not care what the device answers.\<close>

lemma wp_reg_write [wp_intros]:
  "(\<And>n h b. Q () (s\<lparr>tick := n, fence_hits := h, bus := b\<rparr>)) \<Longrightarrow> wp (vspa_reg_write a v) Q s"
proof -
  assume q: "\<And>n h b. Q () (s\<lparr>tick := n, fence_hits := h, bus := b\<rparr>)"
  show ?thesis
    using q [where n = "tick s + 1" and h = "fence_hits s + 1" and b = "bus s"]
      q [where n = "tick s + 1" and h = "fence_hits s" and b = "bus s @ [Wr (VReg a) v]"]
    by (simp add: vspa_reg_write_def rfnm_la9310_mmio_fenced_def raw_write_def wp_eqs)
qed

lemma wp_reg_read [wp_intros]:
  "(\<And>v n h b. Q v (s\<lparr>tick := n, fence_hits := h, bus := b\<rparr>)) \<Longrightarrow> wp (vspa_reg_read a) Q s"
proof -
  assume q: "\<And>v n h b. Q v (s\<lparr>tick := n, fence_hits := h, bus := b\<rparr>)"
  show ?thesis
    using q [where v = 0 and n = "tick s + 1" and h = "fence_hits s + 1" and b = "bus s"]
      q [where v = "dev_read s (tick s + 1) (VReg a)" and n = "tick s + 1 + 1" and h = "fence_hits s"
          and b = "bus s @ [Rd (VReg a) (dev_read s (tick s + 1) (VReg a))]"]
    by (simp add: vspa_reg_read_def rfnm_la9310_mmio_fenced_def raw_read_def wp_eqs)
qed

lemma wp_readl_poll:
  "(\<And>r n h b. r = 0 \<or> r = - ETIMEDOUT \<Longrightarrow> Q r (s\<lparr>tick := n, fence_hits := h, bus := b\<rparr>)) \<Longrightarrow>
     wp (readl_poll k c a) Q s"
proof (induction k arbitrary: s)
  case 0
  let ?v = "dev_read s (tick s) a"
  show ?case
    using 0 [where n = "tick s + 1" and h = "fence_hits s" and b = "bus s @ [Rd a ?v]"]
    by (simp add: raw_read_def wp_eqs)
next
  case (Suc k)
  let ?v = "dev_read s (tick s) a"
  let ?t = "s\<lparr>tick := tick s + 1, bus := bus s @ [Rd a ?v]\<rparr>"
  have "wp (readl_poll k c a) Q ?t"
    by (rule Suc.IH) (use Suc.prems in simp)
  then show ?case
    using Suc.prems [where r = 0 and n = "tick s + 1" and h = "fence_hits s"
        and b = "bus s @ [Rd a ?v]"]
    by (simp add: raw_read_def wp_eqs)
qed

lemma wp_readl_poll_timeout [wp_intros]:
  "(\<And>r n h b. r = 0 \<or> r = - ETIMEDOUT \<Longrightarrow> Q r (s\<lparr>tick := n, fence_hits := h, bus := b\<rparr>)) \<Longrightarrow>
     wp (readl_poll_timeout a c) Q s"
  unfolding readl_poll_timeout_def by (simp add: wp_eqs) (rule wp_readl_poll)

text \<open>The same rules with the bus as an extension of what it was.\<close>

named_theorems wp_bus "rules that follow the growth of the bus"

lemma wp_reg_write_bus [wp_bus]:
  assumes "\<And>t b. bus_step s t b \<Longrightarrow> b = [] \<or> b = [Wr (VReg a) v] \<Longrightarrow> Q () t"
  shows "wp (vspa_reg_write a v) Q s"
proof -
  let ?t = "snd (run_state (vspa_reg_write a v) s)"
  have "bus_step s ?t (if fence_at s (tick s) then [] else [Wr (VReg a) v])"
    by (simp add: bus_step_def vspa_reg_write_def rfnm_la9310_mmio_fenced_def raw_write_def)
  with assms [of ?t] show ?thesis by (simp add: wp_iff_run split: if_splits)
qed

lemma wp_reg_read_bus [wp_bus]:
  assumes "\<And>v t b. bus_step s t b \<Longrightarrow> v = 0 \<and> b = [] \<or> b = [Rd (VReg a) v] \<Longrightarrow> Q v t"
  shows "wp (vspa_reg_read a) Q s"
proof -
  let ?v = "fst (run_state (vspa_reg_read a) s)" and ?t = "snd (run_state (vspa_reg_read a) s)"
  have "bus_step s ?t (if fence_at s (tick s) then [] else [Rd (VReg a) ?v])"
    by (simp add: bus_step_def vspa_reg_read_def rfnm_la9310_mmio_fenced_def raw_read_def)
  moreover have "fence_at s (tick s) \<Longrightarrow> ?v = 0"
    by (simp add: vspa_reg_read_def rfnm_la9310_mmio_fenced_def)
  ultimately show ?thesis
    using assms [of ?t _ ?v] by (simp add: wp_iff_run split: if_splits)
qed

section \<open>Runs with the fence down\<close>

abbreviation fence_down :: "'a mmio_scheme \<Rightarrow> bool" where
  "fence_down s \<equiv> \<forall>n. \<not> fence_at s n"

lemma bus_step_fence: "bus_step s t b \<Longrightarrow> fence_at t = fence_at s"
  unfolding bus_step_def by (elim ssubst) simp

lemma run_fenced_down:
  "fence_down s \<Longrightarrow> run_state rfnm_la9310_mmio_fenced s = (False, s\<lparr>tick := tick s + 1\<rparr>)"
  by (simp add: rfnm_la9310_mmio_fenced_def)

lemma wp_fenced_down:
  assumes "fence_down s" and "\<And>t. bus_step s t [] \<Longrightarrow> fence_down t \<Longrightarrow> Q False t"
  shows "wp rfnm_la9310_mmio_fenced Q s"
  using assms by (simp add: wp_iff_run run_fenced_down bus_step_def)

lemma wp_reg_write_down:
  assumes "fence_down s"
    and "\<And>t. bus_step s t [Wr (VReg a) v] \<Longrightarrow> fence_down t \<Longrightarrow> Q () t"
  shows "wp (vspa_reg_write a v) Q s"
  using assms
  by (simp add: wp_iff_run bus_step_def vspa_reg_write_def run_fenced_down raw_write_def)

lemma wp_reg_read_down:
  assumes "fence_down s"
    and "\<And>v t. bus_step s t [Rd (VReg a) v] \<Longrightarrow> fence_down t \<Longrightarrow> Q v t"
  shows "wp (vspa_reg_read a) Q s"
  using assms
  by (simp add: wp_iff_run bus_step_def vspa_reg_read_def run_fenced_down raw_read_def)

text \<open>The reads of a polled wait: all but the last one fail the condition, the last one
  decides the result.\<close>

definition poll_trace :: "waddr \<Rightarrow> (u32 \<Rightarrow> bool) \<Rightarrow> int \<Rightarrow> bus_op list \<Rightarrow> bool" where
  "poll_trace a c rc b \<longleftrightarrow>
     (\<exists>vs v. b = map (Rd a) vs @ [Rd a v] \<and> (\<forall>x \<in> set vs. \<not> c x) \<and>
        rc = (if c v then 0 else - ETIMEDOUT))"

lemma poll_trace_one: "rc = (if c v then 0 else - ETIMEDOUT) \<Longrightarrow> poll_trace a c rc [Rd a v]"
  unfolding poll_trace_def by (intro exI [of _ "[]"]) simp

lemma poll_trace_more:
  assumes "poll_trace a c rc b" and "\<not> c v"
  shows "poll_trace a c rc (Rd a v # b)"
proof -
  from assms(1) obtain vs w where "b = map (Rd a) vs @ [Rd a w]" and "\<forall>x \<in> set vs. \<not> c x"
    and "rc = (if c w then 0 else - ETIMEDOUT)"
    by (auto simp: poll_trace_def)
  with assms(2) show ?thesis
    unfolding poll_trace_def by (intro exI [of _ "v # vs"] exI [of _ w]) simp
qed

lemma poll_trace_rc: "poll_trace a c rc b \<Longrightarrow> rc = 0 \<or> rc = - ETIMEDOUT"
  by (auto simp: poll_trace_def split: if_splits)

lemma wp_raw_read:
  assumes "\<And>v t. bus_step s t [Rd a v] \<Longrightarrow> Q v t"
  shows "wp (raw_read a) Q s"
  using assms by (simp add: wp_iff_run bus_step_def raw_read_def)

lemma wp_readl_poll_trace:
  "(\<And>r t b. bus_step s t b \<Longrightarrow> poll_trace a c r b \<Longrightarrow> Q r t) \<Longrightarrow> wp (readl_poll k c a) Q s"
proof (induction k arbitrary: s Q)
  case 0
  show ?case unfolding readl_poll.simps
    by (intro wp_steps wp_raw_read) (blast intro: 0 poll_trace_one)
next
  case (Suc k)
  show ?case unfolding readl_poll.simps
  proof (intro wp_steps wp_raw_read wp_ifI Suc.IH, goal_cases)
    case (1 v t)
    from 1(2) show ?case by (intro Suc.prems [OF 1(1)] poll_trace_one) simp
  next
    case (2 v t r u b)
    then have "bus_step s u ([Rd a v] @ b)" by (blast intro: bus_step_trans)
    moreover from 2 have "poll_trace a c r ([Rd a v] @ b)" by (simp add: poll_trace_more)
    ultimately show ?case by (rule Suc.prems)
  qed
qed

lemma wp_readl_poll_timeout_trace:
  assumes "fence_down s"
    and "\<And>r t b. bus_step s t b \<Longrightarrow> fence_down t \<Longrightarrow> poll_trace a c r b \<Longrightarrow> Q r t"
  shows "wp (readl_poll_timeout a c) Q s"
  unfolding readl_poll_timeout_def
proof (intro wp_steps wp_readl_poll_trace)
  fix r t b
  assume t: "bus_step s t b" "poll_trace a c r b"
  from t(1) assms(1) have "fence_down t" by (simp add: bus_step_fence)
  then show "Q r t" by (rule assms(2) [OF t(1) _ t(2)])
qed

lemmas wp_down = wp_fenced_down wp_reg_write_down wp_reg_read_down wp_readl_poll_timeout_trace

end
