(* ===== verification/Firmware.thy ===== *)
theory Firmware
  imports Prelude
begin

text \<open>
  Firmware images as byte lists: the word-sum checksum that la9310_vspa_registry.c and
  la9310_base.c compute over an image, and the bounds-checked ELF32 walk that finds the
  stamped \<open>.rfnm_ident\<close> section in a blob.

  Every load goes through the bounds-checked accessors of the prelude: the result
  \<open>None\<close> is an access outside the blob, and the theorems below show that no input
  produces it. Index arithmetic is on natural numbers: the sources widen every sum that
  could overflow to 64 bits, and the 32-bit loop index of the checksum only takes multiples
  of four before the tail, so \<open>ci + 3\<close> does not wrap.
\<close>

section \<open>Word sum\<close>

function wordsum_words :: "u8 list \<Rightarrow> nat \<Rightarrow> nat \<Rightarrow> u32 \<Rightarrow> (u32 \<times> nat) option" where
  "wordsum_words d len ci csum =
     (if ci + 3 < len then
        (case le32_at d ci of
           None \<Rightarrow> None
         | Some w \<Rightarrow> wordsum_words d len (ci + 4) (csum + w))
      else Some (csum, ci))"
  by pat_completeness auto
termination
  by (relation "measure (\<lambda>(d, len, ci, csum). len - ci)") auto

function wordsum_tail :: "u8 list \<Rightarrow> nat \<Rightarrow> nat \<Rightarrow> u32 \<Rightarrow> u32 option" where
  "wordsum_tail d len ci csum =
     (if ci < len then
        (case byte_at d ci of
           None \<Rightarrow> None
         | Some b \<Rightarrow> wordsum_tail d len (ci + 1) (csum + ucast b))
      else Some csum)"
  by pat_completeness auto
termination
  by (relation "measure (\<lambda>(d, len, ci, csum). len - ci)") auto

declare wordsum_words.simps [simp del] wordsum_tail.simps [simp del]

definition rfnm_vspa_wordsum :: "u8 list \<Rightarrow> nat \<Rightarrow> u32 option" where
  "rfnm_vspa_wordsum d len =
     (case wordsum_words d len 0 0 of
        None \<Rightarrow> None
      | Some (csum, ci) \<Rightarrow> wordsum_tail d len ci csum)"

text \<open>What the two loops compute, by recursion on the bytes.\<close>

fun word_sum :: "u8 list \<Rightarrow> u32" where
  "word_sum (a # b # c # e # r) = le32 a b c e + word_sum r"
| "word_sum (a # r) = ucast a + word_sum r"
| "word_sum [] = 0"

section \<open>The image identity\<close>

text \<open>\<open>struct rfnm_vspa_ident\<close> of la9310_vspa_registry.h, packed: 104 bytes.\<close>

record rfnm_vspa_ident =
  magic :: u32
  abi :: u32
  caps :: u32
  rank :: u32
  id_name :: "u8 list"
  githash :: "u8 list"
  buildtime :: "u8 list"
  payload_csum :: u32
  orig_size :: u32

definition sizeof_ident :: nat where
  "sizeof_ident = 104"

definition RFNM_VSPA_IDENT_MAGIC :: u32 where
  "RFNM_VSPA_IDENT_MAGIC = 0x52464E49"

definition RFNM_VSPA_ABI_CURRENT :: u32 where
  "RFNM_VSPA_ABI_CURRENT = 1"

definition RFNM_VSPA_IDENT_SECTION :: "u8 list" where
  "RFNM_VSPA_IDENT_SECTION = cstr ''.rfnm_ident''"

text \<open>The structure behind a pointer to byte \<open>off\<close> of the blob.\<close>

definition load_ident :: "u8 list \<Rightarrow> nat \<Rightarrow> rfnm_vspa_ident option" where
  "load_ident d off =
     (if off + sizeof_ident \<le> length d then
        do {
          m \<leftarrow> le32_at d off;
          a \<leftarrow> le32_at d (off + 4);
          c \<leftarrow> le32_at d (off + 8);
          r \<leftarrow> le32_at d (off + 12);
          p \<leftarrow> le32_at d (off + 96);
          z \<leftarrow> le32_at d (off + 100);
          Some \<lparr>magic = m, abi = a, caps = c, rank = r,
                id_name = take 32 (drop (off + 16) d),
                githash = take 24 (drop (off + 48) d),
                buildtime = take 24 (drop (off + 72) d),
                payload_csum = p, orig_size = z\<rparr>
        }
      else None)"

text \<open>\<open>strncmp\<close> of the bytes at \<open>i\<close> with a NUL-terminated literal: \<open>Some True\<close> when they
  compare equal within \<open>n\<close> characters.\<close>

fun strncmp_eq :: "u8 list \<Rightarrow> nat \<Rightarrow> u8 list \<Rightarrow> nat \<Rightarrow> bool option" where
  "strncmp_eq d i lit 0 = Some True"
| "strncmp_eq d i lit (Suc n) =
     (case byte_at d i of
        None \<Rightarrow> None
      | Some c \<Rightarrow>
          (case lit of
             [] \<Rightarrow> Some (c = 0)
           | l # ls \<Rightarrow>
               if c \<noteq> l then Some False
               else if c = 0 then Some True
               else strncmp_eq d (i + 1) ls n))"

text \<open>The loop over the section headers: the first section of that name decides.\<close>

fun ident_loop :: "u8 list \<Rightarrow> nat \<Rightarrow> nat \<Rightarrow> nat \<Rightarrow> nat \<Rightarrow> nat list \<Rightarrow> nat option option" where
  "ident_loop d shoff shentsz stroff strsz [] = Some None"
| "ident_loop d shoff shentsz stroff strsz (i # is) = do {
     nameoff \<leftarrow> le32_at d (shoff + i * shentsz);
     off \<leftarrow> le32_at d (shoff + i * shentsz + 0x10);
     sz \<leftarrow> le32_at d (shoff + i * shentsz + 0x14);
     if unat nameoff \<ge> strsz then ident_loop d shoff shentsz stroff strsz is
     else do {
       eq \<leftarrow> strncmp_eq d (stroff + unat nameoff) RFNM_VSPA_IDENT_SECTION (strsz - unat nameoff);
       if \<not> eq then ident_loop d shoff shentsz stroff strsz is
       else if unat sz < sizeof_ident \<or> unat off + unat sz > length d then Some None
       else Some (Some (unat off))
     }
   }"

text \<open>
  \<open>rfnm_vspa_find_ident\<close>: \<open>Some None\<close> is the null pointer, \<open>Some (Some off)\<close> a pointer to
  byte \<open>off\<close> of the blob.
\<close>

definition rfnm_vspa_find_ident :: "u8 list \<Rightarrow> nat option option" where
  "rfnm_vspa_find_ident d =
     (if length d < 0x34 then Some None
      else do {
        d0 \<leftarrow> byte_at d 0; d1 \<leftarrow> byte_at d 1; d2 \<leftarrow> byte_at d 2; d3 \<leftarrow> byte_at d 3;
        if d0 \<noteq> 0x7f \<or> d1 \<noteq> 0x45 \<or> d2 \<noteq> 0x4C \<or> d3 \<noteq> 0x46 then Some None
        else do {
          d4 \<leftarrow> byte_at d 4; d5 \<leftarrow> byte_at d 5;
          if d4 \<noteq> 1 \<or> d5 \<noteq> 1 then Some None
          else do {
            shoff \<leftarrow> le32_at d 0x20;
            shentsz \<leftarrow> le16_at d 0x2E;
            shnum \<leftarrow> le16_at d 0x30;
            shstrndx \<leftarrow> le16_at d 0x32;
            if shoff = 0 \<or> unat shentsz < 0x28 \<or> shnum = 0 \<or> shstrndx \<ge> shnum then Some None
            else if unat shoff + unat shnum * unat shentsz > length d then Some None
            else do {
              stroff \<leftarrow> le32_at d (unat shoff + unat shstrndx * unat shentsz + 0x10);
              strsz \<leftarrow> le32_at d (unat shoff + unat shstrndx * unat shentsz + 0x14);
              if unat stroff + unat strsz > length d then Some None
              else ident_loop d (unat shoff) (unat shentsz) (unat stroff) (unat strsz)
                     [0..<unat shnum]
            }
          }
        }
      })"

section \<open>The word sum is what it says\<close>

lemma word_sum_short: "length r < 3 \<Longrightarrow> word_sum (a # r) = ucast a + word_sum r"
  by (cases r rule: word_sum.cases) auto

lemma wordsum_words_inv:
  assumes "len \<le> length d" and "ci \<le> len"
  shows "\<exists>c j. wordsum_words d len ci csum = Some (c, j) \<and> j \<le> len \<and> len \<le> j + 3 \<and>
    c + word_sum (take (len - j) (drop j d)) = csum + word_sum (take (len - ci) (drop ci d))"
  using assms
proof (induction d len ci csum rule: wordsum_words.induct)
  case (1 d len ci csum)
  show ?case
  proof (cases "ci + 3 < len")
    case True
    let ?w = "le32 (d ! ci) (d ! (ci + 1)) (d ! (ci + 2)) (d ! (ci + 3))"
    have w: "le32_at d ci = Some ?w" using True "1.prems" by simp
    have four: "drop ci d = d ! ci # d ! (ci + 1) # d ! (ci + 2) # d ! (ci + 3) # drop (ci + 4) d"
      using True "1.prems" by (simp add: Cons_nth_drop_Suc numeral_eq_Suc)
    have "take (len - ci) (drop ci d) =
        d ! ci # d ! (ci + 1) # d ! (ci + 2) # d ! (ci + 3) # take (len - (ci + 4)) (drop (ci + 4) d)"
      using True by (subst four) (simp add: take_Cons' numeral_eq_Suc)
    then have sum: "word_sum (take (len - ci) (drop ci d)) =
        ?w + word_sum (take (len - (ci + 4)) (drop (ci + 4) d))"
      by simp
    from "1.IH" [OF True w] "1.prems" True
    obtain c j where "wordsum_words d len (ci + 4) (csum + ?w) = Some (c, j)"
      and "j \<le> len" "len \<le> j + 3"
      and "c + word_sum (take (len - j) (drop j d)) =
        csum + ?w + word_sum (take (len - (ci + 4)) (drop (ci + 4) d))"
      by (auto simp: le32_at_Some)
    with True w sum show ?thesis
      by (subst wordsum_words.simps) (simp add: algebra_simps)
  next
    case False
    with "1.prems" show ?thesis by (subst wordsum_words.simps) simp
  qed
qed

lemma wordsum_tail_eq:
  assumes "len \<le> length d" and "ci \<le> len" and "len \<le> ci + 3"
  shows "wordsum_tail d len ci csum = Some (csum + word_sum (take (len - ci) (drop ci d)))"
  using assms
proof (induction d len ci csum rule: wordsum_tail.induct)
  case (1 d len ci csum)
  show ?case
  proof (cases "ci < len")
    case True
    with "1.prems" have d: "drop ci d = d ! ci # drop (ci + 1) d"
      by (simp add: Cons_nth_drop_Suc)
    have "length (take (len - (ci + 1)) (drop (ci + 1) d)) < 3"
      using True "1.prems" by simp
    then have "word_sum (d ! ci # take (len - (ci + 1)) (drop (ci + 1) d)) =
        ucast (d ! ci) + word_sum (take (len - (ci + 1)) (drop (ci + 1) d))"
      by (rule word_sum_short)
    moreover have "take (len - ci) (drop ci d) = d ! ci # take (len - (ci + 1)) (drop (ci + 1) d)"
      using True by (subst d) (simp add: take_Cons')
    moreover have "wordsum_tail d len (ci + 1) (csum + ucast (d ! ci)) =
        Some (csum + ucast (d ! ci) + word_sum (take (len - (ci + 1)) (drop (ci + 1) d)))"
      using "1.IH" [OF True, of "d ! ci"] True "1.prems" by simp
    ultimately show ?thesis
      using True "1.prems" by (subst wordsum_tail.simps) (simp add: algebra_simps)
  next
    case False
    with "1.prems" show ?thesis by (subst wordsum_tail.simps) simp
  qed
qed

lemma rfnm_vspa_wordsum_eq:
  assumes "len \<le> length d"
  shows "rfnm_vspa_wordsum d len = Some (word_sum (take len d))"
proof -
  obtain c j where w: "wordsum_words d len 0 0 = Some (c, j)"
    and j: "j \<le> len" "len \<le> j + 3"
    and eq: "c + word_sum (take (len - j) (drop j d)) = word_sum (take len d)"
    using wordsum_words_inv [OF assms, of 0 0] by auto
  show ?thesis
    using wordsum_tail_eq [OF assms j] w eq by (simp add: rfnm_vspa_wordsum_def)
qed

section \<open>The word sum notices a changed byte\<close>

lemma le32_bytes:
  "ucast (le32 a b c e) = a" "ucast (drop_bit 8 (le32 a b c e)) = b"
  "ucast (drop_bit 16 (le32 a b c e)) = c" "ucast (drop_bit 24 (le32 a b c e)) = e"
  unfolding le32_def by (rule bit_word_eqI; auto simp: bit_simps dest: bit_imp_le_length)+

lemma le32_inject: "le32 a b c e = le32 a' b' c' e' \<longleftrightarrow> a = a' \<and> b = b' \<and> c = c' \<and> e = e'"
  by (metis le32_bytes)

lemma ucast_8_32_inject: "(ucast (a :: u8) :: u32) = ucast b \<longleftrightarrow> a = b"
proof -
  have "ucast x = le32 x 0 0 0" for x :: u8 by (simp add: le32_def)
  then show ?thesis by (simp add: le32_inject)
qed

lemma word_sum_update:
  assumes "i < length d" and "b \<noteq> d ! i"
  shows "word_sum (d[i := b]) \<noteq> word_sum d"
  using assms
proof (induction d arbitrary: i rule: word_sum.induct [case_names four one two three nil])
  case (four x y z w r)
  show ?case
  proof (cases "i < 4")
    case True
    then have "i = 0 \<or> i = 1 \<or> i = 2 \<or> i = 3" by arith
    with four.prems show ?thesis by (auto simp: le32_inject)
  next
    case False
    then have "i = Suc (Suc (Suc (Suc (i - 4))))" by arith
    then obtain j where "i = Suc (Suc (Suc (Suc j)))" ..
    with four show ?thesis by simp
  qed
next
  case (one x)
  then show ?case by (simp add: ucast_8_32_inject)
next
  case (two x y)
  then show ?case by (cases i) (auto simp: ucast_8_32_inject nth_Cons')
next
  case (three x y z)
  show ?case
  proof (cases i)
    case 0
    with three.prems show ?thesis by (simp add: ucast_8_32_inject)
  next
    case (Suc j)
    with three.prems have "word_sum ([y, z][j := b]) \<noteq> word_sum [y, z]"
      by (intro three.IH) auto
    with Suc three.prems show ?thesis by (cases j) auto
  qed
next
  case nil
  then show ?case by simp
qed

section \<open>The ELF walk stays inside the blob\<close>

lemma strncmp_eq_inside: "i + n \<le> length d \<Longrightarrow> \<exists>b. strncmp_eq d i lit n = Some b"
  by (induction d i lit n rule: strncmp_eq.induct) (auto split: list.splits)

text \<open>A result of the walk is acceptable when no load left the blob and a returned pointer
  has a whole identity structure behind it.\<close>

definition ident_ok :: "u8 list \<Rightarrow> nat option option \<Rightarrow> bool" where
  "ident_ok d r =
     (case r of None \<Rightarrow> False | Some None \<Rightarrow> True | Some (Some off) \<Rightarrow> off + sizeof_ident \<le> length d)"

lemma section_header_inside:
  assumes "shoff + shnum * shentsz \<le> len" and "40 \<le> shentsz" and "i < (shnum :: nat)" and "k + 4 \<le> 40"
  shows "shoff + i * shentsz + k + 4 \<le> len"
proof -
  have "i * shentsz + shentsz \<le> shnum * shentsz"
    using assms(3) by (metis Suc_leI add.commute mult_Suc mult_le_mono1)
  with assms show ?thesis by linarith
qed

lemma ident_loop_ok:
  assumes "shoff + shnum * shentsz \<le> length d" and "40 \<le> shentsz"
    and "stroff + strsz \<le> length d" and "\<forall>i \<in> set ks. i < shnum"
  shows "ident_ok d (ident_loop d shoff shentsz stroff strsz ks)"
  using assms(4)
proof (induction ks)
  case Nil
  show ?case by (simp add: ident_ok_def)
next
  case (Cons i ks)
  have i: "i < shnum" using Cons.prems by simp
  note inside = section_header_inside [OF assms(1,2) i]
  have IH: "ident_ok d (ident_loop d shoff shentsz stroff strsz ks)"
    using Cons by simp
  obtain nameoff off sz where loads:
    "le32_at d (shoff + i * shentsz) = Some nameoff"
    "le32_at d (shoff + i * shentsz + 0x10) = Some off"
    "le32_at d (shoff + i * shentsz + 0x14) = Some sz"
    using inside [of 0] inside [of 16] inside [of 20] by simp
  show ?case
  proof (cases "unat nameoff \<ge> strsz")
    case True
    with IH loads show ?thesis by simp
  next
    case False
    with assms(3) obtain eq where
      "strncmp_eq d (stroff + unat nameoff) RFNM_VSPA_IDENT_SECTION (strsz - unat nameoff) = Some eq"
      using strncmp_eq_inside [of "stroff + unat nameoff" "strsz - unat nameoff" d] by auto
    with False IH loads show ?thesis
      by (auto simp: ident_ok_def)
  qed
qed

lemma find_ident_ok: "ident_ok d (rfnm_vspa_find_ident d)"
proof (cases "length d < 0x34")
  case True
  then show ?thesis by (simp add: rfnm_vspa_find_ident_def ident_ok_def)
next
  case False
  then have ne: "d \<noteq> []" by auto
  obtain shoff shentsz shnum shstrndx where hdr:
    "le32_at d 0x20 = Some shoff" "le16_at d 0x2E = Some shentsz"
    "le16_at d 0x30 = Some shnum" "le16_at d 0x32 = Some shstrndx"
    using False by simp
  let ?bad = "shoff = 0 \<or> unat shentsz < 0x28 \<or> shnum = 0 \<or> shstrndx \<ge> shnum"
  let ?tab = "unat shoff + unat shnum * unat shentsz"
  show ?thesis
  proof (cases "?bad \<or> ?tab > length d")
    case True
    with False ne hdr show ?thesis
      by (auto simp: rfnm_vspa_find_ident_def ident_ok_def)
  next
    case tab: False
    then have idx: "unat shstrndx < unat shnum" by (simp add: word_less_nat_alt not_le)
    note inside = section_header_inside [of "unat shoff" "unat shnum" "unat shentsz" "length d",
        OF _ _ idx]
    obtain stroff strsz where strs:
      "le32_at d (unat shoff + unat shstrndx * unat shentsz + 0x10) = Some stroff"
      "le32_at d (unat shoff + unat shstrndx * unat shentsz + 0x14) = Some strsz"
      using tab inside [of 16] inside [of 20] by simp
    show ?thesis
    proof (cases "unat stroff + unat strsz > length d")
      case True
      with False ne tab hdr strs show ?thesis
        by (auto simp: rfnm_vspa_find_ident_def ident_ok_def)
    next
      case inb: False
      with tab have "ident_ok d (ident_loop d (unat shoff) (unat shentsz) (unat stroff)
          (unat strsz) [0..<unat shnum])"
        by (intro ident_loop_ok [where shnum = "unat shnum"]) auto
      with False ne tab inb hdr strs show ?thesis
        by (auto simp: rfnm_vspa_find_ident_def ident_ok_def)
    qed
  qed
qed

lemma load_ident_inside: "off + sizeof_ident \<le> length d \<Longrightarrow> \<exists>i. load_ident d off = Some i"
  by (simp add: load_ident_def sizeof_ident_def)

end
