(* ===== verification/Vspa_Core.thy ===== *)
theory Vspa_Core
  imports Mmio Firmware
begin

text \<open>
  The VSPA loader, la9310_main_vspa.c: the polled DMA transfer, the zeroise pass, the boot
  handshake, the ELF section loader, and the device state it keeps (la9310_vspa.h).

  Host memory is a total function from addresses to bytes; the image being loaded and the
  DMA staging region are address ranges of it. A store outside a fixed-size C array, or a
  copy outside the buffer it reads or writes, sets \<open>vfault\<close>.
\<close>

section \<open>Data\<close>

datatype vspa_state =
    VSPA_STATE_UNKNOWN | VSPA_STATE_POWER_DOWN | VSPA_STATE_STARTUP_ERR
  | VSPA_STATE_UNPROGRAMMED_IDLE | VSPA_STATE_UNPROGRAMMED_BUSY | VSPA_STATE_LOADING
  | VSPA_STATE_RUNNING_IDLE | VSPA_STATE_RUNNING_BUSY

record vspa_dma_req =
  dr_id :: u8
  dr_flags :: u8
  dr_type :: u8
  dmem_addr :: u32
  axi_addr :: u64
  byte_cnt :: u32
  xfr_ctrl :: u32

record vspa_versions =
  vspa_hw_version :: u32
  ippu_hw_version :: u32
  vspa_sw_version :: u32
  ippu_sw_version :: u32

record vspa_hardware =
  param0 :: u32
  param1 :: u32
  param2 :: u32
  axi_data_width :: u32
  dma_channels :: u32
  gp_out_regs :: u32
  gp_in_regs :: u32
  dmem_bytes :: u32
  ippu_bytes :: u32
  arithmetic_units :: u32

record dma_param =
  dp_xfr_ctrl :: u32
  dp_offset :: u32
  dp_phys :: u64
  dp_size :: u32

record overlay_section =
  ov_name :: "string option"
  ov_dpram :: dma_param

text \<open>\<open>struct la9310_mem_region_info\<close> of la9310_base.h.\<close>

record mem_region =
  mr_phys_addr :: u64
  mr_vaddr :: u64
  mr_size :: nat
  mr_type :: nat

text \<open>The fields of \<open>struct vspa_device\<close> that the driver reads or writes.\<close>

record vspa_device =
  vs_state :: vspa_state
  vs_debug :: u32
  vspa_dma_region :: "mem_region option"
  vspa_irq_no :: int
  vs_mem_size :: nat
  vs_regs :: u64
  spm_buf_bytes :: u32
  spm_buf_paddr :: u32
  spm_dma_chan :: u8
  bulk_dma_chan :: u8
  reply_dma_chan :: u8
  cmd_dma_chan :: u8
  legacy_cmd_dma_chan :: u8
  eld_filename :: "u8 list"
  rfnm_stats_ready :: bool
  versions :: vspa_versions
  hardware :: vspa_hardware
  vs_poll_mask :: u32
  vspa_loading_count :: u32
  overlay_sec :: "overlay_section list"
  overlay_sec_loaded :: "string option"

text \<open>
  What the loader works on: the device, host memory, the address of the overlay region
  that holds the image (\<open>ovl\<close>), the function-local static \<open>id\<close> of
  \<open>vspa_fw_dma_write\<close>.
\<close>

record vspa_world = mmio +
  vd :: vspa_device
  hmem :: memory
  ovl :: mem_region
  dma_id :: u8
  vfault :: bool

abbreviation set_vd :: "(vspa_device \<Rightarrow> vspa_device) \<Rightarrow> ('a vspa_world_scheme, unit) state" where
  "set_vd f \<equiv> modify (\<lambda>s. s\<lparr>vd := f (vd s)\<rparr>)"

section \<open>Constants of la9310_vspa.h\<close>

abbreviation HWVERSION_REG_OFFSET :: nat where "HWVERSION_REG_OFFSET \<equiv> 0x0000 div 4"
abbreviation SWVERSION_REG_OFFSET :: nat where "SWVERSION_REG_OFFSET \<equiv> 0x0004 div 4"
abbreviation CONTROL_REG_OFFSET :: nat where "CONTROL_REG_OFFSET \<equiv> 0x0008 div 4"
abbreviation IRQEN_REG_OFFSET :: nat where "IRQEN_REG_OFFSET \<equiv> 0x000C div 4"
abbreviation STATUS_REG_OFFSET :: nat where "STATUS_REG_OFFSET \<equiv> 0x0010 div 4"
abbreviation HOST_FLAGS0_REG_OFFSET :: nat where "HOST_FLAGS0_REG_OFFSET \<equiv> 0x0014 div 4"
abbreviation HOST_FLAGS1_REG_OFFSET :: nat where "HOST_FLAGS1_REG_OFFSET \<equiv> 0x0018 div 4"
abbreviation EXT_GO_STATUS_REG_OFFSET :: nat where "EXT_GO_STATUS_REG_OFFSET \<equiv> 0x002C div 4"
abbreviation PARAM0_REG_OFFSET :: nat where "PARAM0_REG_OFFSET \<equiv> 0x0040 div 4"
abbreviation PARAM1_REG_OFFSET :: nat where "PARAM1_REG_OFFSET \<equiv> 0x0044 div 4"
abbreviation PARAM2_REG_OFFSET :: nat where "PARAM2_REG_OFFSET \<equiv> 0x0048 div 4"
abbreviation DMA_DMEM_ADDR_REG_OFFSET :: nat where "DMA_DMEM_ADDR_REG_OFFSET \<equiv> 0x00B0 div 4"
abbreviation DMA_AXI_ADDR_REG_OFFSET :: nat where "DMA_AXI_ADDR_REG_OFFSET \<equiv> 0x00B4 div 4"
abbreviation DMA_BYTE_CNT_REG_OFFSET :: nat where "DMA_BYTE_CNT_REG_OFFSET \<equiv> 0x00B8 div 4"
abbreviation DMA_XFR_CTRL_REG_OFFSET :: nat where "DMA_XFR_CTRL_REG_OFFSET \<equiv> 0x00BC div 4"
abbreviation DMA_STAT_ABORT_REG_OFFSET :: nat where "DMA_STAT_ABORT_REG_OFFSET \<equiv> 0x00C0 div 4"
abbreviation DMA_COMP_STAT_REG_OFFSET :: nat where "DMA_COMP_STAT_REG_OFFSET \<equiv> 0x00C8 div 4"
abbreviation DMA_XFRERR_STAT_REG_OFFSET :: nat where "DMA_XFRERR_STAT_REG_OFFSET \<equiv> 0x00CC div 4"
abbreviation DMA_CFGERR_STAT_REG_OFFSET :: nat where "DMA_CFGERR_STAT_REG_OFFSET \<equiv> 0x00D0 div 4"
abbreviation DMA_GO_STAT_REG_OFFSET :: nat where "DMA_GO_STAT_REG_OFFSET \<equiv> 0x00D8 div 4"
abbreviation HOST_OUT_64_MSB_REG_OFFSET :: nat where "HOST_OUT_64_MSB_REG_OFFSET \<equiv> 0x0680 div 4"
abbreviation HOST_OUT_64_LSB_REG_OFFSET :: nat where "HOST_OUT_64_LSB_REG_OFFSET \<equiv> 0x0684 div 4"
abbreviation HOST_IN_64_MSB_REG_OFFSET :: nat where "HOST_IN_64_MSB_REG_OFFSET \<equiv> 0x0690 div 4"
abbreviation HOST_IN_64_LSB_REG_OFFSET :: nat where "HOST_IN_64_LSB_REG_OFFSET \<equiv> 0x0694 div 4"
abbreviation HOST_MBOX_STATUS_REG_OFFSET :: nat where "HOST_MBOX_STATUS_REG_OFFSET \<equiv> 0x06A0 div 4"
abbreviation IPPU_STATUS_REG_OFFSET :: nat where "IPPU_STATUS_REG_OFFSET \<equiv> 0x0704 div 4"
abbreviation IPPU_HWVERSION_REG_OFFSET :: nat where "IPPU_HWVERSION_REG_OFFSET \<equiv> 0x0710 div 4"
abbreviation IPPU_SWVERSION_REG_OFFSET :: nat where "IPPU_SWVERSION_REG_OFFSET \<equiv> 0x0714 div 4"
abbreviation DBG_GDBEN_REG_OFFSET :: nat where "DBG_GDBEN_REG_OFFSET \<equiv> 0x800 div 4"
abbreviation DBG_RCSTATUS_REG_OFFSET :: nat where "DBG_RCSTATUS_REG_OFFSET \<equiv> 0x808 div 4"
abbreviation DBG_DVR_REG_OFFSET :: nat where "DBG_DVR_REG_OFFSET \<equiv> 0x87C div 4"

abbreviation MBOX_STATUS_IN_64_BIT :: u32 where "MBOX_STATUS_IN_64_BIT \<equiv> 0x00000004"
abbreviation VSPA_STARTUP_TIMEOUT :: nat where "VSPA_STARTUP_TIMEOUT \<equiv> 100000"
abbreviation VSPA_DMA_CHANNELS :: u8 where "VSPA_DMA_CHANNELS \<equiv> 32"
abbreviation CONTROL_REG_MASK :: u32 where "CONTROL_REG_MASK \<equiv> NOT 0x000100FF"
abbreviation CONTROL_PDN_EN :: u32 where "CONTROL_PDN_EN \<equiv> 0x80000000"
abbreviation CONTROL_HOST_GO :: u32 where "CONTROL_HOST_GO \<equiv> 1"
abbreviation DMA_COMP_STAT_SET :: u32 where "DMA_COMP_STAT_SET \<equiv> 1"
abbreviation MAX_DMA_TRANSFER :: u32 where "MAX_DMA_TRANSFER \<equiv> 65536"
abbreviation PRAM_ADDR_MASK :: u32 where "PRAM_ADDR_MASK \<equiv> 0x0003FFFF"
abbreviation DMA_BCNT_MASK :: u32 where "DMA_BCNT_MASK \<equiv> 0x0000FFFF"
abbreviation PRAM_MEM_SIZE :: u32 where "PRAM_MEM_SIZE \<equiv> 0x8000"
abbreviation BITS_PER_BYTE :: u32 where "BITS_PER_BYTE \<equiv> 8"
abbreviation VSPA_FLAG_REPORT_DMA_COMPLETE :: u8 where "VSPA_FLAG_REPORT_DMA_COMPLETE \<equiv> 8"
abbreviation MAX_OVERLAY_SECTIONS :: nat where "MAX_OVERLAY_SECTIONS \<equiv> 3"
abbreviation MAX_VSP_SECTION :: int where "MAX_VSP_SECTION \<equiv> 6"
abbreviation CMDBUFF :: int where "CMDBUFF \<equiv> 2"
abbreviation OCRAMVSPA :: int where "OCRAMVSPA \<equiv> 5"

abbreviation LIBVSPA_ERR_OK :: int where "LIBVSPA_ERR_OK \<equiv> 0"
abbreviation LIBVSPA_ERR_EAGAIN :: int where "LIBVSPA_ERR_EAGAIN \<equiv> 11"
abbreviation LIBVSPA_ERR_ENOMEM :: int where "LIBVSPA_ERR_ENOMEM \<equiv> 12"
abbreviation LIBVSPA_ERR_EINVOFFSET :: int where "LIBVSPA_ERR_EINVOFFSET \<equiv> 17"
abbreviation LIBVSPA_ERR_INVALID_FILE :: int where "LIBVSPA_ERR_INVALID_FILE \<equiv> 18"

definition isaligned :: "u32 \<Rightarrow> u32 \<Rightarrow> bool" where
  "isaligned ptr a = (ptr AND (a - 1) = 0)"

definition align :: "u32 \<Rightarrow> u32 \<Rightarrow> u32" where
  "align x a = (x + (a - 1)) AND NOT (a - 1)"

text \<open>The section tables: transfer mode and name.\<close>

definition vspa_sec_info :: "(u32 \<times> string) list" where
  "vspa_sec_info =
     [(0x200, ''.vpram''), (0, ''.vdram''), (0xFFFFFFFF, ''.dmem_cmdbuf''),
      (0x300, ''.ipram''), (0, ''.idram''), (0xFFFFFFFF, ''.ocram_vspa'')]"

definition overlay_sec_info :: "(u32 \<times> string) list" where
  "overlay_sec_info =
     [(0, ''.vpram_overlay''), (0, ''.IQ_data_ovl_ddr''), (0, ''.CAL_ovl_ddr'')]"

definition DEFAULT_OVERLAY_SEC_NAME :: string where
  "DEFAULT_OVERLAY_SEC_NAME = ''.vpram_overlay''"

section \<open>Operations\<close>

text \<open>\<open>full_state\<close> adds one to an idle state when the core is busy.\<close>

definition full_state :: "('a vspa_world_scheme, vspa_state) state" where
  "full_state = do {
     st \<leftarrow> gets (\<lambda>s. vs_state (vd s));
     if st = VSPA_STATE_UNPROGRAMMED_IDLE \<or> st = VSPA_STATE_RUNNING_IDLE then do {
       v \<leftarrow> vspa_reg_read STATUS_REG_OFFSET;
       ret (if v AND 0x100 \<noteq> 0 then
              (if st = VSPA_STATE_UNPROGRAMMED_IDLE then VSPA_STATE_UNPROGRAMMED_BUSY
               else VSPA_STATE_RUNNING_BUSY)
            else st)
     }
     else ret st
   }"

definition dma_raw_transmit :: "vspa_dma_req \<Rightarrow> ('a mmio_scheme, int) state" where
  "dma_raw_transmit dr = do {
     f \<leftarrow> rfnm_la9310_mmio_fenced;
     if f then ret (- EBUSY)
     else do {
       vspa_reg_write DMA_DMEM_ADDR_REG_OFFSET (dmem_addr dr);
       vspa_reg_write DMA_AXI_ADDR_REG_OFFSET (ucast (axi_addr dr));
       vspa_reg_write DMA_BYTE_CNT_REG_OFFSET (byte_cnt dr);
       dma_comp_stat \<leftarrow> vspa_reg_read DMA_COMP_STAT_REG_OFFSET;
       vspa_reg_write DMA_XFR_CTRL_REG_OFFSET (xfr_ctrl dr);
       rc \<leftarrow> readl_poll_timeout (VReg DMA_COMP_STAT_REG_OFFSET)
               (\<lambda>v. v AND DMA_COMP_STAT_SET \<noteq> 0);
       if rc \<noteq> 0 then ret (- ETIMEDOUT)
       else do {
         dma_comp_stat \<leftarrow> vspa_reg_read DMA_COMP_STAT_REG_OFFSET;
         stat_abort \<leftarrow> vspa_reg_read DMA_STAT_ABORT_REG_OFFSET;
         vspa_reg_write DMA_COMP_STAT_REG_OFFSET DMA_COMP_STAT_SET;
         xfr_err \<leftarrow> vspa_reg_read DMA_XFRERR_STAT_REG_OFFSET;
         cfg_err \<leftarrow> vspa_reg_read DMA_CFGERR_STAT_REG_OFFSET;
         ret 0
       }
     }
   }"

text \<open>\<open>memcpy\<close> into the staging region: a fault when the bytes do not fit into it.\<close>

definition stage_copy :: "mem_region \<Rightarrow> u8 list \<Rightarrow> ('a vspa_world_scheme, unit) state" where
  "stage_copy r bs = modify (\<lambda>s. s\<lparr>
     vfault := (vfault s \<or> length bs > mr_size r),
     hmem := mem_write (unat (mr_vaddr r)) bs (hmem s)\<rparr>)"

text \<open>The size of the zeroed source buffer: \<open>sizeof(uint32_t) * MAX_DMA_TRANSFER\<close> bytes.\<close>

abbreviation zero_buf_bytes :: nat where "zero_buf_bytes \<equiv> 4 * 65536"

definition zeroise_bytes :: "vspa_hardware \<Rightarrow> nat \<Rightarrow> u32 option" where
  "zeroise_bytes hw count =
     (if count = 0 then Some (dmem_bytes hw)
      else if count = 2 then Some PRAM_MEM_SIZE
      else if count = 3 then Some (ippu_bytes hw)
      else None)"

function zeroise_loop ::
  "vspa_hardware \<Rightarrow> mem_region \<Rightarrow> u32 \<Rightarrow> nat \<Rightarrow> ('a vspa_world_scheme, int) state" where
  "zeroise_loop hw r mem_size count =
     (if mem_size > 0 \<and> \<not> count > 6 then
        (case zeroise_bytes hw count of
           None \<Rightarrow> zeroise_loop hw r mem_size (count + 1)
         | Some b \<Rightarrow> do {
             modify (\<lambda>s. s\<lparr>vfault := (vfault s \<or>
               unat (align b (axi_data_width hw div BITS_PER_BYTE)) > zero_buf_bytes)\<rparr>);
             stage_copy r (replicate (unat (align b (axi_data_width hw div BITS_PER_BYTE))) 0);
             rc \<leftarrow> dma_raw_transmit
               \<lparr>dr_id = 0, dr_flags = 0, dr_type = 0, dmem_addr = 0 AND PRAM_ADDR_MASK,
                axi_addr = mr_phys_addr r,
                byte_cnt = align b (axi_data_width hw div BITS_PER_BYTE),
                xfr_ctrl = push_bit 8 (word_of_nat count)\<rparr>;
             if rc < 0 then ret (- ECOMM)
             else zeroise_loop hw r (mem_size - b) (count + 1)
           })
      else ret 0)"
  by pat_completeness auto
termination
  by (relation "measure (\<lambda>(hw, r, m, count). 7 - count)") auto

declare zeroise_loop.simps [simp del]

text \<open>\<open>mem_ok\<close>: whether \<open>kzalloc\<close> of the zero buffer succeeds.\<close>

definition vspa_mem_initialization :: "bool \<Rightarrow> ('a vspa_world_scheme, int) state" where
  "vspa_mem_initialization mem_ok = do {
     hw \<leftarrow> gets (\<lambda>s. hardware (vd s));
     reg \<leftarrow> gets (\<lambda>s. vspa_dma_region (vd s));
     if \<not> mem_ok then ret (- ENOMEM)
     else
       (case reg of
          None \<Rightarrow> ret (- EADDRNOTAVAIL)
        | Some r \<Rightarrow> zeroise_loop hw r (dmem_bytes hw + ippu_bytes hw + PRAM_MEM_SIZE) 0)
   }"

text \<open>
  A wait of the boot handshake: at most \<open>ctr\<close> rounds, each looking at the mailbox flag and
  then at the data register; the result is whether the counter was still positive.
\<close>

fun startup_wait :: "u32 \<Rightarrow> nat \<Rightarrow> ('a mmio_scheme, bool) state" where
  "startup_wait msg 0 = ret False"
| "startup_wait msg (Suc ctr) = do {
     st \<leftarrow> vspa_reg_read HOST_MBOX_STATUS_REG_OFFSET;
     if st AND MBOX_STATUS_IN_64_BIT \<noteq> 0 then ret True
     else do {
       m \<leftarrow> vspa_reg_read HOST_IN_64_MSB_REG_OFFSET;
       if m = msg then ret True
       else startup_wait msg ctr
     }
   }"

definition startup_fail :: "('a vspa_world_scheme, int) state" where
  "startup_fail = do {
     set_vd (\<lambda>d. d\<lparr>versions := (versions d)\<lparr>vspa_sw_version := - 1, ippu_sw_version := - 1\<rparr>,
                   vs_state := VSPA_STATE_STARTUP_ERR\<rparr>);
     vspa_reg_write IRQEN_REG_OFFSET 0;
     ret (- EIO)
   }"

definition set_dma_chans :: "u32 \<Rightarrow> vspa_device \<Rightarrow> vspa_device" where
  "set_dma_chans ch d =
     (if ch \<noteq> 0 then
        d\<lparr>spm_dma_chan := ucast (drop_bit 24 ch AND 0xFF),
          bulk_dma_chan := ucast (drop_bit 16 ch AND 0xFF),
          reply_dma_chan := ucast (drop_bit 8 ch AND 0xFF),
          cmd_dma_chan := ucast (ch AND 0xFF)\<rparr>
      else
        d\<lparr>spm_dma_chan := VSPA_DMA_CHANNELS, bulk_dma_chan := 0xFF, reply_dma_chan := 0xFF,
          cmd_dma_chan := legacy_cmd_dma_chan d\<rparr>)"

definition startup :: "('a vspa_world_scheme, int) state" where
  "startup = do {
     val \<leftarrow> vspa_reg_read CONTROL_REG_OFFSET;
     vspa_reg_write CONTROL_REG_OFFSET ((val AND CONTROL_REG_MASK) OR CONTROL_HOST_GO);
     set_vd (\<lambda>d. d\<lparr>vspa_loading_count := vspa_loading_count d + 1\<rparr>);
     vsw \<leftarrow> vspa_reg_read SWVERSION_REG_OFFSET;
     isw \<leftarrow> vspa_reg_read IPPU_SWVERSION_REG_OFFSET;
     ok \<leftarrow> startup_wait 0xF1000000 VSPA_STARTUP_TIMEOUT;
     if \<not> ok then startup_fail
     else do {
       msb \<leftarrow> vspa_reg_read HOST_IN_64_MSB_REG_OFFSET;
       lsb \<leftarrow> vspa_reg_read HOST_IN_64_LSB_REG_OFFSET;
       if msb \<noteq> 0xF1000000 then startup_fail
       else do {
         vsw \<leftarrow> vspa_reg_read SWVERSION_REG_OFFSET;
         isw \<leftarrow> vspa_reg_read IPPU_SWVERSION_REG_OFFSET;
         sb \<leftarrow> gets (\<lambda>s. spm_buf_bytes (vd s));
         sp \<leftarrow> gets (\<lambda>s. spm_buf_paddr (vd s));
         vspa_reg_write HOST_OUT_64_MSB_REG_OFFSET (push_bit 24 0x70 OR sb);
         vspa_reg_write HOST_OUT_64_LSB_REG_OFFSET sp;
         vsw \<leftarrow> vspa_reg_read SWVERSION_REG_OFFSET;
         isw \<leftarrow> vspa_reg_read IPPU_SWVERSION_REG_OFFSET;
         ok2 \<leftarrow> startup_wait 0xF0700000 VSPA_STARTUP_TIMEOUT;
         if \<not> ok2 then startup_fail
         else do {
           msb2 \<leftarrow> vspa_reg_read HOST_IN_64_MSB_REG_OFFSET;
           lsb2 \<leftarrow> vspa_reg_read HOST_IN_64_LSB_REG_OFFSET;
           if msb2 \<noteq> 0xF0700000 then startup_fail
           else do {
             val2 \<leftarrow> vspa_reg_read CONTROL_REG_OFFSET;
             set_vd (set_dma_chans lsb);
             set_vd (\<lambda>d. d\<lparr>versions := (versions d)\<lparr>vspa_sw_version := vsw, ippu_sw_version := isw\<rparr>,
                           vs_state := VSPA_STATE_RUNNING_IDLE\<rparr>);
             ret 0
           }
         }
       }
     }
   }"

text \<open>The program headers: 32 bytes each, \<open>prg_vaddr\<close> at 8 and \<open>prg_paddr\<close> at 12.\<close>

definition get_lma :: "memory \<Rightarrow> nat \<Rightarrow> u32 \<Rightarrow> u32 \<Rightarrow> u32 \<Rightarrow> u32 \<Rightarrow> int \<times> u32" where
  "get_lma m file_start pg_hd_off ph_num vma lma =
     (case find (\<lambda>i. mem32 m (file_start + unat pg_hd_off + 32 * i + 8) = vma) [0..<unat ph_num] of
        Some i \<Rightarrow>
          (LIBVSPA_ERR_OK,
           mem32 m (file_start + unat pg_hd_off + 32 * i + 12) AND 0xF0FFFFFF)
      | None \<Rightarrow> (- LIBVSPA_ERR_INVALID_FILE, lma))"

text \<open>\<open>_strncmp\<close> of memory with a NUL-terminated literal.\<close>

fun strncmp_mem :: "memory \<Rightarrow> nat \<Rightarrow> u8 list \<Rightarrow> nat \<Rightarrow> int" where
  "strncmp_mem m i lit 0 = 0"
| "strncmp_mem m i lit (Suc n) =
     (let c = m i; l = (case lit of [] \<Rightarrow> 0 | x # _ \<Rightarrow> x)
      in if c \<noteq> 0 \<and> c = l then strncmp_mem m (i + 1) (tl lit) n
         else uint c - uint l)"

definition get_overlay_section :: "memory \<Rightarrow> nat \<Rightarrow> string option" where
  "get_overlay_section m a =
     map_option snd (find (\<lambda>(md, nm). strncmp_mem m a (cstr nm) (length nm) = 0) overlay_sec_info)"

definition getsectiontype :: "memory \<Rightarrow> nat \<Rightarrow> int" where
  "getsectiontype m a =
     (case find (\<lambda>i. strncmp_mem m a (cstr (snd (vspa_sec_info ! i)))
                       (length (snd (vspa_sec_info ! 0))) = 0) [0..<6] of
        Some i \<Rightarrow> int i
      | None \<Rightarrow> - 1)"

text \<open>
  The transfer loop of \<open>vspa_fw_dma_write\<close>, a \<open>do \<dots> while (linfo->size != 0 && err == 0)\<close>
  in which nothing assigns \<open>err\<close>.
\<close>

function fw_dma_loop ::
  "int \<Rightarrow> bool \<Rightarrow> dma_param \<Rightarrow> ('a vspa_world_scheme, int) state" where
  "fw_dma_loop err overlay_enable l =
     (let n = (if dp_size l > MAX_DMA_TRANSFER then MAX_DMA_TRANSFER else dp_size l);
          cnt = n AND DMA_BCNT_MASK;
          l' = l\<lparr>dp_phys := dp_phys l + ucast n, dp_size := dp_size l - n,
                 dp_offset := (if overlay_enable then dp_offset l else dp_offset l + n)\<rparr>
      in do {
        i \<leftarrow> gets dma_id;
        modify (\<lambda>s. s\<lparr>dma_id := i + 1\<rparr>);
        reg \<leftarrow> gets (\<lambda>s. vspa_dma_region (vd s));
        (case reg of
           None \<Rightarrow> ret (- ENOMEM)
         | Some r \<Rightarrow> do {
             bs \<leftarrow> gets (\<lambda>s. mem_bytes (hmem s) (unat (dp_phys l)) (unat cnt));
             stage_copy r bs;
             rc \<leftarrow> dma_raw_transmit
               \<lparr>dr_id = i, dr_flags = VSPA_FLAG_REPORT_DMA_COMPLETE, dr_type = 0,
                dmem_addr = dp_offset l AND PRAM_ADDR_MASK, axi_addr = mr_phys_addr r,
                byte_cnt = cnt, xfr_ctrl = dp_xfr_ctrl l\<rparr>;
             if rc < 0 then ret (- ECOMM)
             else if dp_size l' \<noteq> 0 \<and> err = 0 then fw_dma_loop err overlay_enable l'
             else ret 0
           })
      })"
  by pat_completeness auto
termination
proof (relation "measure (\<lambda>(err, ov, l). unat (dp_size l))", goal_cases)
  case 1
  show ?case by simp
next
  case (2 err ov l n)
  then show ?case
    by (auto simp: Let_def unat_sub word_le_nat_alt word_less_nat_alt unat_gt_0 split: if_splits)
qed

declare fw_dma_loop.simps [simp del]

definition vspa_fw_dma_write :: "dma_param \<Rightarrow> bool \<Rightarrow> ('a vspa_world_scheme, int) state" where
  "vspa_fw_dma_write linfo overlay_enable = fw_dma_loop (- LIBVSPA_ERR_EAGAIN) overlay_enable linfo"

text \<open>Stores into the three-element array \<open>overlay_sec\<close>.\<close>

definition set_overlay :: "nat \<Rightarrow> (overlay_section \<Rightarrow> overlay_section) \<Rightarrow> ('a vspa_world_scheme, unit) state" where
  "set_overlay k f =
     (if k < MAX_OVERLAY_SECTIONS then
        set_vd (\<lambda>d. d\<lparr>overlay_sec := (overlay_sec d)[k := f (overlay_sec d ! k)]\<rparr>)
      else modify (\<lambda>s. s\<lparr>vfault := True\<rparr>))"

text \<open>
  The section loop of \<open>fw_read_and_load_sections\<close>. Its arguments are the loop's live local
  variables: \<open>ovl_add\<close> for \<open>overlay_link_add\<close> and \<open>axi_align\<close>, which keeps the value of
  the previous iteration. Section headers are 40 bytes: name at 0, address at 12, offset at
  16, size at 20.
\<close>

fun load_sections ::
  "nat \<Rightarrow> u32 \<Rightarrow> u32 \<Rightarrow> nat \<Rightarrow> u32 \<Rightarrow> u32 \<Rightarrow> nat list \<Rightarrow> nat \<Rightarrow> u32 \<Rightarrow>
     ('a vspa_world_scheme, int) state" where
  "load_sections fs pg_hd_off sh_off str fw_size ph_num [] ovl_add axi_align = ret LIBVSPA_ERR_OK"
| "load_sections fs pg_hd_off sh_off str fw_size ph_num (i # is) ovl_add axi_align = do {
     m \<leftarrow> gets hmem;
     hw \<leftarrow> gets (\<lambda>s. hardware (vd s));
     let h = fs + unat sh_off + 40 * i;
     let name = nat (int str + sint (mem32 m h));
     let section_vma = mem32 m (h + 12);
     let section_off = mem32 m (h + 16);
     let section_size = mem32 m (h + 20);
     let sec_type = getsectiontype m name;
     let lma = get_lma m fs pg_hd_off ph_num section_vma 0;
     if sec_type < 0 \<or> sec_type \<ge> MAX_VSP_SECTION then
       (case get_overlay_section m name of
          None \<Rightarrow> load_sections fs pg_hd_off sh_off str fw_size ph_num is ovl_add axi_align
        | Some nm \<Rightarrow> do {
            set_overlay ovl_add (\<lambda>v. v\<lparr>ov_name := Some nm\<rparr>);
            if fst lma > LIBVSPA_ERR_OK then ret (- LIBVSPA_ERR_INVALID_FILE)
            else do {
              set_overlay ovl_add (\<lambda>v. v\<lparr>ov_dpram := (ov_dpram v)\<lparr>
                 dp_phys := word_of_nat (fs + unat section_off),
                 dp_size := align section_size axi_align\<rparr>\<rparr>);
              load_sections fs pg_hd_off sh_off str fw_size ph_num is (ovl_add + 1) axi_align
            }
          })
     else if fst lma > LIBVSPA_ERR_OK then ret (- LIBVSPA_ERR_INVALID_FILE)
     else if section_size = 0 then
       load_sections fs pg_hd_off sh_off str fw_size ph_num is ovl_add axi_align
     else if sec_type = CMDBUFF then
       load_sections fs pg_hd_off sh_off str fw_size ph_num is ovl_add axi_align
     else if section_size > fw_size then ret (- LIBVSPA_ERR_ENOMEM)
     else do {
       let al = axi_data_width hw div BITS_PER_BYTE;
       if \<not> isaligned (snd lma) al then ret (- LIBVSPA_ERR_EINVOFFSET)
       else if sec_type = OCRAMVSPA then
         load_sections fs pg_hd_off sh_off str fw_size ph_num is ovl_add al
       else do {
         let dparam = \<lparr>dp_xfr_ctrl = fst (vspa_sec_info ! nat sec_type), dp_offset = snd lma,
                       dp_phys = word_of_nat (fs + unat section_off),
                       dp_size = align section_size al\<rparr>;
         (case get_overlay_section m name of
            None \<Rightarrow> ret ()
          | Some nm \<Rightarrow>
              if nm = DEFAULT_OVERLAY_SEC_NAME then do {
                set_overlay 0 (\<lambda>v. v\<lparr>ov_name := Some nm, ov_dpram := dparam\<rparr>);
                set_vd (\<lambda>d. d\<lparr>overlay_sec_loaded := Some nm\<rparr>)
              }
              else ret ());
         rc \<leftarrow> vspa_fw_dma_write dparam False;
         if rc < 0 then ret rc
         else load_sections fs pg_hd_off sh_off str fw_size ph_num is ovl_add al
       }
     }
   }"

definition fw_read_and_load_sections ::
  "nat \<Rightarrow> u32 \<Rightarrow> u32 \<Rightarrow> nat \<Rightarrow> nat \<Rightarrow> u32 \<Rightarrow> u32 \<Rightarrow> ('a vspa_world_scheme, int) state" where
  "fw_read_and_load_sections file_start pg_hd_off sec_header_off sec_cnt str_section_off fw_size ph_num =
     (if file_start = 0 then ret (- EEXIST)
      else do {
        m \<leftarrow> gets hmem;
        let str = file_start +
          unat (mem32 m (file_start + unat sec_header_off + 40 * str_section_off + 16));
        load_sections file_start pg_hd_off sec_header_off str fw_size ph_num [0..<sec_cnt] 1 0
      })"

text \<open>The file header: \<open>fh_machine\<close> at 18, \<open>fh_phoff\<close> at 28, \<open>fh_shoff\<close> at 32,
  \<open>fh_phnum\<close> at 44, \<open>fh_shnum\<close> at 48, \<open>fh_shstrndx\<close> at 50.\<close>

definition la9310_load_vspa_image :: "nat \<Rightarrow> u32 \<Rightarrow> ('a vspa_world_scheme, int) state" where
  "la9310_load_vspa_image vaddr vspa_fw_size = do {
     m \<leftarrow> gets hmem;
     let mach = mem16 m (vaddr + 18);
     if mach \<noteq> 0xBE \<and> mach \<noteq> 0x40c8 then ret (- ENOEXEC)
     else do {
       rc \<leftarrow> fw_read_and_load_sections vaddr (mem32 m (vaddr + 28)) (mem32 m (vaddr + 32))
               (unat (mem16 m (vaddr + 48))) (unat (mem16 m (vaddr + 50))) vspa_fw_size
               (ucast (mem16 m (vaddr + 44)));
       if rc \<noteq> 0 then ret (- EIO) else ret 0
     }
   }"

section \<open>The fence and the bus\<close>

text \<open>
  Every routine of the loader only appends to the bus, and leaves it alone while the fence
  is up. The transfer routine looks at the fence once and then polls with plain reads, so
  its second fact is not an instance of the sequencing rule.
\<close>

lemma set_vd_quiet [quiet_rules]: "state_io_rel fence_quiet (set_vd f)"
  by (simp add: state_io_rel_def fence_quiet_def)

lemma dma_raw_transmit_frame [frame_rules]: "state_io_rel bus_rel (dma_raw_transmit dr)"
  unfolding dma_raw_transmit_def by (intro br.rel_rules frame_rules)

lemma dma_raw_transmit_fenced:
  "fence_at s (tick s) \<Longrightarrow>
     run_state (dma_raw_transmit dr) s =
       (- EBUSY, s\<lparr>tick := tick s + 1, fence_hits := fence_hits s + 1\<rparr>)"
  by (simp add: dma_raw_transmit_def rfnm_la9310_mmio_fenced_def)

lemma dma_raw_transmit_quiet [quiet_rules]: "state_io_rel fence_quiet (dma_raw_transmit dr)"
proof -
  have "fence_at (snd (run_state (dma_raw_transmit dr) s)) = fence_at s" for s :: "'a mmio_scheme"
    using br.rel_run [OF dma_raw_transmit_frame, of s dr] by (auto simp: bus_rel_def dest: bus_step_fence)
  moreover have "bus (snd (run_state (dma_raw_transmit dr) s)) = bus s"
    if "\<forall>n. fence_at s n" for s :: "'a mmio_scheme"
    using that by (simp add: dma_raw_transmit_fenced)
  ultimately show ?thesis by (simp add: state_io_rel_def fence_quiet_def)
qed

lemma stage_copy_quiet [quiet_rules]: "state_io_rel fence_quiet (stage_copy r bs)"
  by (simp add: stage_copy_def state_io_rel_def fence_quiet_def)

lemma set_overlay_quiet [quiet_rules]: "state_io_rel fence_quiet (set_overlay k f)"
  unfolding set_overlay_def by (simp add: state_io_rel_def fence_quiet_def)

lemma fault_flag_quiet [quiet_rules]:
  "state_io_rel fence_quiet (modify (\<lambda>s :: 'a vspa_world_scheme. s\<lparr>vfault := f s\<rparr>))"
  by (simp add: state_io_rel_def fence_quiet_def)

lemma dma_id_quiet [quiet_rules]:
  "state_io_rel fence_quiet (modify (\<lambda>s :: 'a vspa_world_scheme. s\<lparr>dma_id := f s\<rparr>))"
  by (simp add: state_io_rel_def fence_quiet_def)

lemma zeroise_loop_quiet [quiet_rules]: "state_io_rel fence_quiet (zeroise_loop hw r m c)"
proof (induction hw r m c rule: zeroise_loop.induct)
  case (1 hw r m c)
  then show ?case
    by (subst zeroise_loop.simps) (auto intro!: fq.rel_rules quiet_rules split: option.splits)
qed

lemma mem_init_quiet [quiet_rules]: "state_io_rel fence_quiet (vspa_mem_initialization ok)"
  unfolding vspa_mem_initialization_def by (intro fq.rel_rules quiet_rules)

lemma startup_wait_quiet [quiet_rules]: "state_io_rel fence_quiet (startup_wait msg n)"
  by (induction n) (simp_all add: fq.rel_rules quiet_rules)

lemma startup_fail_quiet [quiet_rules]: "state_io_rel fence_quiet startup_fail"
  unfolding startup_fail_def by (intro fq.rel_rules quiet_rules)

lemma startup_quiet [quiet_rules]: "state_io_rel fence_quiet startup"
  unfolding startup_def by (intro fq.rel_rules quiet_rules)

lemma fw_dma_loop_quiet [quiet_rules]: "state_io_rel fence_quiet (fw_dma_loop err ov l)"
proof (induction err ov l rule: fw_dma_loop.induct)
  case (1 err ov l)
  then show ?case
    by (subst fw_dma_loop.simps, unfold Let_def) (intro fq.rel_rules quiet_rules, blast)
qed

lemma fw_dma_write_quiet [quiet_rules]: "state_io_rel fence_quiet (vspa_fw_dma_write l ov)"
  unfolding vspa_fw_dma_write_def by (intro quiet_rules)

lemma load_sections_quiet [quiet_rules]:
  "state_io_rel fence_quiet (load_sections fs pg sh str fws ph is oa al)"
proof (induction "is" arbitrary: oa al)
  case Nil
  show ?case by (simp add: fq.rel_rules)
next
  case (Cons i ks)
  then show ?case
    by (simp only: load_sections.simps Let_def) (intro fq.rel_rules quiet_rules Cons.IH)
qed

lemma load_image_quiet [quiet_rules]: "state_io_rel fence_quiet (la9310_load_vspa_image a n)"
  unfolding la9310_load_vspa_image_def fw_read_and_load_sections_def Let_def
  by (intro fq.rel_rules quiet_rules)


section \<open>What the loader leaves alone\<close>

text \<open>
  The loader touches the device, host memory, its counter and the fault flag; the overlay
  region's description and whatever a larger state adds stay as they are, and the bus grows.
\<close>

definition core_frame :: "'a vspa_world_scheme \<Rightarrow> 'a vspa_world_scheme \<Rightarrow> bool" where
  "core_frame s t \<longleftrightarrow>
     vspa_world.more t = vspa_world.more s \<and> ovl t = ovl s \<and> (\<exists>b. bus t = bus s @ b)"

interpretation cf: run_rel core_frame
  by unfold_locales (auto simp: core_frame_def)

named_theorems core_rules "computations that stay inside the loader's state"

lemma bus_step_core: "bus_step s t b \<Longrightarrow> core_frame s t"
  unfolding bus_step_def core_frame_def by (elim ssubst) simp

lemma bus_rel_core: "state_io_rel bus_rel m \<Longrightarrow> state_io_rel core_frame m"
  by (auto simp: state_io_rel_def bus_rel_def intro: bus_step_core)

lemmas window_core [core_rules] = reg_write_frame [THEN bus_rel_core]
  reg_read_frame [THEN bus_rel_core] dma_raw_transmit_frame [THEN bus_rel_core]

lemma set_vd_core [core_rules]: "state_io_rel core_frame (set_vd f)"
  by (simp add: state_io_rel_def core_frame_def)

lemma stage_copy_core [core_rules]: "state_io_rel core_frame (stage_copy r bs)"
  by (simp add: stage_copy_def state_io_rel_def core_frame_def)

lemma set_overlay_core [core_rules]: "state_io_rel core_frame (set_overlay k f)"
  unfolding set_overlay_def by (simp add: state_io_rel_def core_frame_def)

lemma dma_id_core [core_rules]:
  "state_io_rel core_frame (modify (\<lambda>s :: 'a vspa_world_scheme. s\<lparr>dma_id := f s\<rparr>))"
  by (simp add: state_io_rel_def core_frame_def)

lemma startup_wait_core [core_rules]: "state_io_rel core_frame (startup_wait msg n)"
  by (induction n) (simp_all add: cf.rel_rules core_rules)

lemma startup_core [core_rules]: "state_io_rel core_frame startup"
  unfolding startup_def startup_fail_def by (intro cf.rel_rules core_rules)

lemma fw_dma_loop_core [core_rules]: "state_io_rel core_frame (fw_dma_loop err ov l)"
proof (induction err ov l rule: fw_dma_loop.induct)
  case (1 err ov l)
  then show ?case
    by (subst fw_dma_loop.simps, unfold Let_def) (intro cf.rel_rules core_rules, blast)
qed

lemma load_sections_core [core_rules]:
  "state_io_rel core_frame (load_sections fs pg sh str fws ph ks oa al)"
proof (induction ks arbitrary: oa al)
  case Nil
  show ?case by (simp add: cf.rel_rules)
next
  case (Cons i ks)
  then show ?case
    unfolding load_sections.simps Let_def vspa_fw_dma_write_def
    by (intro cf.rel_rules core_rules Cons.IH)
qed

lemma load_image_core [core_rules]: "state_io_rel core_frame (la9310_load_vspa_image a n)"
  unfolding la9310_load_vspa_image_def fw_read_and_load_sections_def Let_def
  by (intro cf.rel_rules core_rules)

section \<open>The boot handshake\<close>

lemma bus_step_vspa:
  fixes s t :: "'a vspa_world_scheme"
  shows "bus_step s t b \<Longrightarrow> bus t = bus s @ b \<and> vd t = vd s \<and> hmem t = hmem s \<and> ovl t = ovl s \<and>
     dma_id t = dma_id s \<and> vfault t = vfault s"
  unfolding bus_step_def by (elim ssubst) simp

lemma wp_startup_wait [wp_bus]:
  "(\<And>r t b. bus_step s t b \<Longrightarrow> Q r t) \<Longrightarrow> wp (startup_wait msg k) Q s"
proof (induction k arbitrary: s)
  case 0
  show ?case using 0 [OF bus_step_refl] by (simp add: wp_eqs)
next
  case (Suc k)
  show ?case
    unfolding startup_wait.simps
    by (intro wp_steps wp_bus wp_ifI Suc.IH)
      (blast intro: Suc.prems bus_step_trans)+
qed

text \<open>
  What a successful start leaves behind: the device answered the Boot Complete message and,
  later, the SPM acknowledge, both over the link; the DMA channels are those of the Boot
  Complete message (its low word was read right after the high word; zero when the fence
  came up in between); the counters, versions and the state are set and nothing else is.
\<close>

definition startup_ok :: "'a vspa_world_scheme \<Rightarrow> 'a vspa_world_scheme \<Rightarrow> bool" where
  "startup_ok s t \<longleftrightarrow>
     (\<exists>b1 c b2 b3 lsb vsw isw.
        bus t = bus s @ b1 @ Rd (VReg HOST_IN_64_MSB_REG_OFFSET) 0xF1000000 # c @ b2 @
                  Rd (VReg HOST_IN_64_MSB_REG_OFFSET) 0xF0700000 # b3 \<and>
        (lsb = 0 \<and> c = [] \<or> c = [Rd (VReg HOST_IN_64_LSB_REG_OFFSET) lsb]) \<and>
        vd t = (set_dma_chans lsb (vd s))\<lparr>
           vspa_loading_count := vspa_loading_count (vd s) + 1,
           versions := (versions (vd s))\<lparr>vspa_sw_version := vsw, ippu_sw_version := isw\<rparr>,
           vs_state := VSPA_STATE_RUNNING_IDLE\<rparr>)"

definition startup_failed :: "'a vspa_world_scheme \<Rightarrow> 'a vspa_world_scheme \<Rightarrow> bool" where
  "startup_failed s t \<longleftrightarrow>
     vd t = (vd s)\<lparr>vspa_loading_count := vspa_loading_count (vd s) + 1,
       versions := (versions (vd s))\<lparr>vspa_sw_version := - 1, ippu_sw_version := - 1\<rparr>,
       vs_state := VSPA_STATE_STARTUP_ERR\<rparr>"

lemma set_dma_chans_other:
  "set_dma_chans ch (d\<lparr>vspa_loading_count := n\<rparr>) = (set_dma_chans ch d)\<lparr>vspa_loading_count := n\<rparr>"
  "versions (set_dma_chans ch d) = versions d"
  by (simp_all add: set_dma_chans_def)

lemma startup_wp:
  "wp startup (\<lambda>rc t. (rc = 0 \<and> startup_ok s t \<or> rc = - EIO \<and> startup_failed s t) \<and>
     hmem t = hmem s \<and> ovl t = ovl s) s"
  unfolding startup_def startup_fail_def
  apply (intro wp_steps wp_bus wp_ifI; (drule bus_step_vspa)+)
  subgoal by (simp add: startup_failed_def)
  subgoal by (simp add: startup_failed_def)
  subgoal by (simp add: startup_failed_def)
  subgoal by (simp add: startup_failed_def)
  subgoal for v t b ta ba va tb bb vb tc bc r td bd vc te be lsb tf bf ve tg bg vf th
        bh ti bi tj bj vsw tk bk isw tl bl ra tm bm vi tn bn vj to bo vk tp bp
    unfolding startup_ok_def
    by (rule conjI, rule disjI1, rule conjI, rule refl, rule exI [of _ "b @ ba @ bb @ bc @ bd"],
        rule exI [of _ bf], rule exI [of _ "bg @ bh @ bi @ bj @ bk @ bl @ bm"],
        rule exI [of _ "bo @ bp"], rule exI [of _ lsb], rule exI [of _ vsw], rule exI [of _ isw])
      (simp_all add: set_dma_chans_other)
  done

section \<open>The transfer routine\<close>

text \<open>
  With the fence down the routine programs one transfer in the documented order, waits for
  the completion bit, and then acknowledges it.
\<close>

definition dma_program :: "vspa_dma_req \<Rightarrow> u32 \<Rightarrow> bus_op list" where
  "dma_program dr c0 =
     [Wr (VReg DMA_DMEM_ADDR_REG_OFFSET) (dmem_addr dr),
      Wr (VReg DMA_AXI_ADDR_REG_OFFSET) (ucast (axi_addr dr)),
      Wr (VReg DMA_BYTE_CNT_REG_OFFSET) (byte_cnt dr),
      Rd (VReg DMA_COMP_STAT_REG_OFFSET) c0,
      Wr (VReg DMA_XFR_CTRL_REG_OFFSET) (xfr_ctrl dr)]"

definition dma_epilogue :: "bus_op list \<Rightarrow> bool" where
  "dma_epilogue b \<longleftrightarrow>
     (\<exists>c st x g. b =
        [Rd (VReg DMA_COMP_STAT_REG_OFFSET) c, Rd (VReg DMA_STAT_ABORT_REG_OFFSET) st,
         Wr (VReg DMA_COMP_STAT_REG_OFFSET) DMA_COMP_STAT_SET,
         Rd (VReg DMA_XFRERR_STAT_REG_OFFSET) x, Rd (VReg DMA_CFGERR_STAT_REG_OFFSET) g])"

definition dma_trace :: "vspa_dma_req \<Rightarrow> int \<Rightarrow> bus_op list \<Rightarrow> bool" where
  "dma_trace dr rc b \<longleftrightarrow>
     (\<exists>c0 p e. b = dma_program dr c0 @ p @ e \<and>
        poll_trace (VReg DMA_COMP_STAT_REG_OFFSET) (\<lambda>v. v AND DMA_COMP_STAT_SET \<noteq> 0) rc p \<and>
        (if rc = 0 then dma_epilogue e else e = []))"

lemma dma_raw_transmit_trace:
  assumes "fence_down s"
  shows "wp (dma_raw_transmit dr) (\<lambda>rc t. \<exists>b. bus_step s t b \<and> dma_trace dr rc b) s"
  using assms unfolding dma_raw_transmit_def
  apply (intro wp_steps wp_down wp_ifI; (elim FalseE | simp; fail)?)
  subgoal for t ta tb tc v td te r tf p
    by ((drule (1) bus_step_trans)+, rule exI, rule conjI, assumption, unfold dma_trace_def,
        rule exI [of _ v], rule exI [of _ p], rule exI [of _ "[]"], frule poll_trace_rc)
      (simp add: dma_program_def ETIMEDOUT_def)
  subgoal for t ta tb tc v td te r tf p va tg vb th ti vc tj vd tk
    by ((drule (1) bus_step_trans)+, rule exI, rule conjI, assumption, unfold dma_trace_def,
        rule exI [of _ v], rule exI [of _ p],
        rule exI [of _ "[Rd (VReg DMA_COMP_STAT_REG_OFFSET) va, Rd (VReg DMA_STAT_ABORT_REG_OFFSET) vb,
         Wr (VReg DMA_COMP_STAT_REG_OFFSET) DMA_COMP_STAT_SET,
         Rd (VReg DMA_XFRERR_STAT_REG_OFFSET) vc, Rd (VReg DMA_CFGERR_STAT_REG_OFFSET) vd]"])
      (simp add: dma_program_def dma_epilogue_def)
  done

lemma mask16: "x AND DMA_BCNT_MASK = (if x < 65536 then x else 0)" if "x \<le> 65536" for x :: u32
proof (cases "x < 65536")
  case True
  have "x AND mask 16 = x"
    using True by (simp add: less_mask_eq)
  then show ?thesis using True by (simp add: mask_eq_exp_minus_1)
next
  case False
  with that have "x = 65536" by simp
  then show ?thesis by simp
qed

lemma xfer_count:
  fixes n :: u32
  shows "(if n > MAX_DMA_TRANSFER then MAX_DMA_TRANSFER else n) AND DMA_BCNT_MASK =
    (if n < 65536 then n else 0)"
  using mask16 [of n] mask16 [of 65536] by (auto simp: not_less)

text \<open>
  The loop runs exactly once whatever the size, and programs no bytes at all for a size of
  64 KiB or more.
\<close>

lemma fw_dma_write_single:
  "run_state (vspa_fw_dma_write l ov) s =
     (let s1 = s\<lparr>dma_id := dma_id s + 1\<rparr>;
          cnt = (if dp_size l < 65536 then dp_size l else 0)
      in case vspa_dma_region (vd s) of
           None \<Rightarrow> (- ENOMEM, s1)
         | Some r \<Rightarrow>
             (case run_state (dma_raw_transmit
                 \<lparr>dr_id = dma_id s, dr_flags = VSPA_FLAG_REPORT_DMA_COMPLETE, dr_type = 0,
                  dmem_addr = dp_offset l AND PRAM_ADDR_MASK, axi_addr = mr_phys_addr r,
                  byte_cnt = cnt, xfr_ctrl = dp_xfr_ctrl l\<rparr>)
                 (s1\<lparr>vfault := (vfault s \<or> unat cnt > mr_size r),
                     hmem := mem_write (unat (mr_vaddr r))
                       (mem_bytes (hmem s) (unat (dp_phys l)) (unat cnt)) (hmem s)\<rparr>) of
                (rc, t) \<Rightarrow> (if rc < 0 then - ECOMM else 0, t)))"
  unfolding vspa_fw_dma_write_def fw_dma_loop.simps [of _ ov l] Let_def xfer_count
  by (cases "vspa_dma_region (vd s)") (simp_all add: stage_copy_def split_beta)

section \<open>The section loader's results\<close>

lemma wp_any: "(\<And>r t. Q r t) \<Longrightarrow> wp m Q s"
  by (simp add: wp_iff_run)

lemma fw_dma_write_rc:
  assumes "\<And>rc t. rc \<in> {0, - ENOMEM, - ECOMM} \<Longrightarrow> Q rc t"
  shows "wp (vspa_fw_dma_write l ov) Q s"
  using assms
  by (simp add: wp_iff_run fw_dma_write_single Let_def split: option.splits prod.splits)

abbreviation load_codes :: "int set" where
  "load_codes \<equiv> {0, - ENOMEM, - LIBVSPA_ERR_EINVOFFSET, - ECOMM}"

lemma get_lma_not_positive: "\<not> fst (get_lma m fs pg ph vma lma) > LIBVSPA_ERR_OK"
  by (simp add: get_lma_def split: option.splits)

lemma load_sections_codes:
  "wp (load_sections fs pg sh str fws ph ks oa al) (\<lambda>rc t. rc \<in> load_codes) s"
proof (induction ks arbitrary: oa al s)
  case Nil
  show ?case by (simp add: wp_eqs)
next
  case (Cons i ks)
  note overlay = wp_any [of _ "set_overlay k f" for k f]
  show ?case
    unfolding load_sections.simps Let_def
    by (intro wp_steps wp_ifI wp_optionI overlay fw_dma_write_rc Cons.IH)
      (auto simp: get_lma_not_positive ENOMEM_def)
qed

text \<open>
  The section loader ends with 0 (all sections transferred), with the codes for a
  section larger than the image or a missing staging region, for an unaligned load address,
  or for a failed transfer. It never reports an invalid file: \<open>get_lma\<close> signals a section
  without program header by a negative number and both callers test for a positive one, so
  such a section is loaded to address 0.
\<close>

theorem load_never_invalid_file:
  "fst (run_state (fw_read_and_load_sections a po so n st sz ph) s) \<in>
     {0, - ENOMEM, - LIBVSPA_ERR_EINVOFFSET, - ECOMM} \<and>
   - LIBVSPA_ERR_INVALID_FILE \<notin> {0, - ENOMEM, - LIBVSPA_ERR_EINVOFFSET, - ECOMM}"
proof -
  have "wp (fw_read_and_load_sections a po so n st sz ph) (\<lambda>rc t. rc \<in> load_codes) s"
    unfolding fw_read_and_load_sections_def Let_def
    by (intro wp_steps wp_ifI load_sections_codes) (simp add: EEXIST_def)
  then show ?thesis by (simp add: wp_iff_run errno_defs)
qed

text \<open>
  The image loader refuses an image whose machine code is neither of the two VSPA
  toolchains' before it touches anything; otherwise it answers 0 or -EIO.
\<close>

theorem load_image_header:
  "case run_state (la9310_load_vspa_image a n) s of (rc, t) \<Rightarrow>
     (if mem16 (hmem s) (a + 18) \<notin> {0xBE, 0x40c8} then rc = - ENOEXEC \<and> t = s
      else rc = 0 \<or> rc = - EIO)"
  unfolding la9310_load_vspa_image_def by (simp add: split_beta Let_def)

text \<open>
  C5: the boot handshake. \<open>startup\<close> ends in one of two ways. It returns 0 only when the
  device delivered the Boot Complete word and afterwards the SPM acknowledge word over the
  link; the device is then running idle with the channels of the Boot Complete message.
  Otherwise it returns -EIO, the state is \<open>STARTUP_ERR\<close> and both software versions are
  all ones. The load counter is incremented either way and no other field changes.
\<close>

theorem startup_outcome:
  "case run_state startup s of (rc, t) \<Rightarrow>
     rc = 0 \<and> startup_ok s t \<or> rc = - EIO \<and> startup_failed s t"
  using startup_wp [of s] by (simp add: wp_def split_beta)

lemma startup_up:
  assumes "\<forall>n. fence_at s n"
  shows "fst (run_state startup s) = - EIO"
proof -
  have quiet: "bus (snd (run_state startup s)) = bus s"
    using fq.rel_run [OF startup_quiet, of s] assms by (simp add: fence_quiet_def)
  have "\<not> startup_ok s (snd (run_state startup s))"
    unfolding startup_ok_def quiet by simp
  then show ?thesis
    using startup_wp [of s] by (simp add: wp_iff_run)
qed

text \<open>
  While the fence is up the boot handshake fails with -EIO and no access reaches the
  link.
\<close>

theorem startup_fenced:
  assumes "\<forall>n. fence_at s n"
  shows "fst (run_state startup s) = - EIO \<and> bus (snd (run_state startup s)) = bus s"
  using startup_up [OF assms] fq.rel_run [OF startup_quiet, of s] assms
  by (simp add: fence_quiet_def)

text \<open>
  One transfer. With the fence down the routine puts on the bus the address, the
  AXI address and the byte count, a look at the completion register, the transfer control
  word that starts the engine, the polling reads, and, when the completion bit was seen, the
  acknowledge and the two error registers; it returns 0 exactly then and -ETIMEDOUT
  otherwise, and changes nothing but the window's bookkeeping.
\<close>

theorem dma_raw_transmit_programs:
  assumes "\<forall>n. \<not> fence_at s n"
  shows "case run_state (dma_raw_transmit dr) s of (rc, t) \<Rightarrow>
    \<exists>b. bus_step s t b \<and> dma_trace dr rc b"
  using dma_raw_transmit_trace [OF assms] by (simp add: wp_def)

text \<open>
  \<open>vspa_fw_dma_write\<close> makes one transfer whatever the size: the loop condition
  \<open>err == 0\<close> is never true. A section below 64 KiB is staged byte for byte and programmed
  whole; for a section of 64 KiB or more the masked byte count is 0, nothing of it is staged,
  and the routine still answers 0 when the engine completes.
\<close>

theorem fw_dma_write_one_transfer:
  "run_state (vspa_fw_dma_write l ov) s =
     (let s1 = s\<lparr>dma_id := dma_id s + 1\<rparr>;
          cnt = (if dp_size l < 65536 then dp_size l else 0)
      in case vspa_dma_region (vd s) of
           None \<Rightarrow> (- ENOMEM, s1)
         | Some r \<Rightarrow>
             (case run_state (dma_raw_transmit
                 \<lparr>dr_id = dma_id s, dr_flags = VSPA_FLAG_REPORT_DMA_COMPLETE, dr_type = 0,
                  dmem_addr = dp_offset l AND PRAM_ADDR_MASK, axi_addr = mr_phys_addr r,
                  byte_cnt = cnt, xfr_ctrl = dp_xfr_ctrl l\<rparr>)
                 (s1\<lparr>vfault := (vfault s \<or> unat cnt > mr_size r),
                     hmem := mem_write (unat (mr_vaddr r))
                       (mem_bytes (hmem s) (unat (dp_phys l)) (unat cnt)) (hmem s)\<rparr>) of
                (rc, t) \<Rightarrow> (if rc < 0 then - ECOMM else 0, t)))"
  by (rule fw_dma_write_single)

section \<open>A concrete world\<close>

text \<open>A device that answers every read with 1, a link that is up or down as the argument
  says, and a four-megabyte staging region: the inputs of the witnesses.\<close>

definition quiet_device :: vspa_device where
  "quiet_device =
     \<lparr>vs_state = VSPA_STATE_UNKNOWN, vs_debug = 0,
      vspa_dma_region = Some \<lparr>mr_phys_addr = 0xA0000000, mr_vaddr = 0x1000, mr_size = 0x400000, mr_type = 6\<rparr>,
      vspa_irq_no = 0, vs_mem_size = 0, vs_regs = 0, spm_buf_bytes = 0, spm_buf_paddr = 0,
      spm_dma_chan = 0, bulk_dma_chan = 0, reply_dma_chan = 0, cmd_dma_chan = 0,
      legacy_cmd_dma_chan = 0, eld_filename = [], rfnm_stats_ready = False,
      versions = \<lparr>vspa_hw_version = 0, ippu_hw_version = 0, vspa_sw_version = 0, ippu_sw_version = 0\<rparr>,
      hardware = \<lparr>param0 = 0, param1 = 0, param2 = 0, axi_data_width = 128, dma_channels = 0,
        gp_out_regs = 0, gp_in_regs = 0, dmem_bytes = 4096, ippu_bytes = 4096, arithmetic_units = 4\<rparr>,
      vs_poll_mask = 0, vspa_loading_count = 0, overlay_sec = [], overlay_sec_loaded = None\<rparr>"

definition sample_world :: "bool \<Rightarrow> vspa_world" where
  "sample_world fenced =
     \<lparr>tick = 0, fence_at = (\<lambda>_. fenced), dev_read = (\<lambda>_ _. 1), poll_reads = 0, fence_hits = 0,
      bus = [], vd = quiet_device, hmem = (\<lambda>_. 0),
      ovl = \<lparr>mr_phys_addr = 0xA0400000, mr_vaddr = 0x500000, mr_size = 0x200000, mr_type = 4\<rparr>, dma_id = 0,
      vfault = False\<rparr>"

theorem startup_fenced_witness:
  "fst (run_state startup (sample_world True)) = - EIO \<and>
   bus (snd (run_state startup (sample_world True))) = []"
  using startup_fenced [of "sample_world True"] by (simp add: sample_world_def)

theorem dma_raw_transmit_programs_witness:
  "case run_state (dma_raw_transmit
       \<lparr>dr_id = 0, dr_flags = 0, dr_type = 0, dmem_addr = 0x100, axi_addr = 0xA0000000,
        byte_cnt = 64, xfr_ctrl = 0x200\<rparr>) (sample_world False) of (rc, t) \<Rightarrow>
     rc = 0 \<and> (\<exists>b. bus t = b \<and> dma_trace
       \<lparr>dr_id = 0, dr_flags = 0, dr_type = 0, dmem_addr = 0x100, axi_addr = 0xA0000000,
        byte_cnt = 64, xfr_ctrl = 0x200\<rparr> 0 b)"
proof -
  let ?dr = "\<lparr>dr_id = 0, dr_flags = 0, dr_type = 0, dmem_addr = 0x100, axi_addr = 0xA0000000,
    byte_cnt = 64, xfr_ctrl = 0x200\<rparr>"
  have "fst (run_state (dma_raw_transmit ?dr) (sample_world False)) = 0"
    by (simp add: sample_world_def dma_raw_transmit_def rfnm_la9310_mmio_fenced_def vspa_reg_write_def
        vspa_reg_read_def raw_write_def raw_read_def readl_poll_timeout_def)
  then show ?thesis
    using dma_raw_transmit_programs [of "sample_world False" ?dr]
    by (auto simp: sample_world_def split_beta dest: bus_step_bus)
qed

end
