(* ===== verification/Vspa_Registry.thy ===== *)
theory Vspa_Registry
  imports Vspa_Core "HOL-Library.Product_Lexorder"
begin

text \<open>
  The registry of verified DSP images, la9310_vspa_registry.c: registration of an image
  that proves its identity, selection of an image by the capabilities a client needs, and
  the boot of the selected image on a parked core.

  The static array \<open>rfnm_vspa_reg\<close> and its count are one list. What the kernel answers
  (\<open>request_firmware\<close>, \<open>kvmalloc\<close>) is an argument of the operation. The operations that take
  \<open>rfnm_vspa_reg_lock\<close> are atomic steps. Firmware files are smaller than 4 GiB, so the sizes
  of the sources' 32-bit variables are the lengths of the blobs.
\<close>

section \<open>Data\<close>

record reg_entry =
  fwname :: string
  ent_id :: rfnm_vspa_ident
  blob :: "u8 list option"
  ent_size :: nat

text \<open>
  \<open>has_dev\<close> and \<open>has_vspa\<close>: whether the endpoint and its VSPA device exist.
  \<open>stats_mem\<close>: whether the allocation of a statistics node succeeds. \<open>hif_vspa_ready\<close>: the
  bit \<open>LA9310_HIF_STATUS_VSPA_READY\<close>, which a header shared with the endpoint's firmware
  defines.
\<close>

record reg_world = vspa_world +
  has_dev :: bool
  has_vspa :: bool
  stats_mem :: bool
  hif_vspa_ready :: u32
  reg :: "reg_entry list"
  selected :: int
  running :: int
  boot_gen :: u32
  loader_busy :: bool

abbreviation RFNM_VSPA_REG_MAX :: nat where "RFNM_VSPA_REG_MAX \<equiv> 8"
abbreviation FWNAME_SIZE :: nat where "FWNAME_SIZE \<equiv> 64"
abbreviation VSPA_MAX_ELD_FILENAME :: nat where "VSPA_MAX_ELD_FILENAME \<equiv> 256"
abbreviation RFNM_VSPA_CAP_STREAMING_BASE :: u32 where "RFNM_VSPA_CAP_STREAMING_BASE \<equiv> 1"
abbreviation STATUS_BUSY :: u32 where "STATUS_BUSY \<equiv> 0x100"

section \<open>Registration\<close>

text \<open>
  The checks of an image before the lock is taken: \<open>Inl\<close> is the refusal, \<open>Inr\<close> the
  identity; \<open>None\<close> an access outside the blob.
\<close>

definition verify_image :: "u8 list \<Rightarrow> (int + rfnm_vspa_ident) option" where
  "verify_image d = do {
     p \<leftarrow> rfnm_vspa_find_ident d;
     (case p of
        None \<Rightarrow> Some (Inl (- EINVAL))
      | Some off \<Rightarrow> do {
          i \<leftarrow> load_ident d off;
          if magic i \<noteq> RFNM_VSPA_IDENT_MAGIC then Some (Inl (- EINVAL))
          else if abi i \<noteq> RFNM_VSPA_ABI_CURRENT then Some (Inl (- EINVAL))
          else if unat (orig_size i) > length d then Some (Inl (- EINVAL))
          else do {
            c \<leftarrow> rfnm_vspa_wordsum d (unat (orig_size i));
            if c \<noteq> payload_csum i then Some (Inl (- EINVAL)) else Some (Inr i)
          }
        })
   }"

fun reg_index :: "reg_entry list \<Rightarrow> string \<Rightarrow> nat" where
  "reg_index [] n = 0"
| "reg_index (e # es) n = (if fwname e = n then 0 else Suc (reg_index es n))"

text \<open>The part under the lock. A failed allocation leaves a null blob in the entry that was
  found: the old one is freed first.\<close>

definition publish_image ::
  "string \<Rightarrow> u8 list \<Rightarrow> rfnm_vspa_ident \<Rightarrow> bool \<Rightarrow> ('a reg_world_scheme, int) state" where
  "publish_image name d i alloc = do {
     es \<leftarrow> gets reg;
     let k = reg_index es name;
     if k = length es \<and> length es = RFNM_VSPA_REG_MAX then ret (- ENOSPC)
     else if \<not> alloc then do {
       modify (\<lambda>s. s\<lparr>reg := (if k < length es then es[k := (es ! k)\<lparr>blob := None\<rparr>] else es)\<rparr>);
       ret (- ENOMEM)
     }
     else do {
       let e = \<lparr>fwname = name, ent_id = i, blob = Some d, ent_size = length d\<rparr>;
       modify (\<lambda>s. s\<lparr>reg := (if k < length es then es[k := e] else es @ [e])\<rparr>);
       ret 0
     }
   }"

definition rfnm_vspa_registry_register ::
  "string \<Rightarrow> int + u8 list \<Rightarrow> bool \<Rightarrow> ('a reg_world_scheme, int) state" where
  "rfnm_vspa_registry_register name fw alloc = do {
     present \<leftarrow> gets has_dev;
     if \<not> present then ret (- ENODEV)
     else if length name \<ge> FWNAME_SIZE then ret (- ENAMETOOLONG)
     else
       (case fw of
          Inl rc \<Rightarrow> ret rc
        | Inr d \<Rightarrow>
            (case verify_image d of
               None \<Rightarrow> do { modify (\<lambda>s. s\<lparr>vfault := True\<rparr>); ret (- EFAULT) }
             | Some (Inl rc) \<Rightarrow> ret rc
             | Some (Inr i) \<Rightarrow> publish_image name d i alloc))
   }"

section \<open>Queries\<close>

definition rfnm_vspa_reg_count :: "'a reg_world_scheme \<Rightarrow> nat" where
  "rfnm_vspa_reg_count s = length (reg s)"

definition ent_caps :: "reg_entry list \<Rightarrow> nat \<Rightarrow> u32" where
  "ent_caps es i = caps (ent_id (es ! i))"

definition ent_rank :: "reg_entry list \<Rightarrow> nat \<Rightarrow> u32" where
  "ent_rank es i = rank (ent_id (es ! i))"

definition rfnm_vspa_provides :: "reg_entry list \<Rightarrow> int \<Rightarrow> u32 \<Rightarrow> bool" where
  "rfnm_vspa_provides es i need \<longleftrightarrow>
     i \<ge> 0 \<and> i < int (length es) \<and> ent_caps es (nat i) AND need = need"

definition rfnm_vspa_registry_has :: "u32 \<Rightarrow> 'a reg_world_scheme \<Rightarrow> bool" where
  "rfnm_vspa_registry_has need s \<longleftrightarrow>
     (\<exists>i \<in> set [0..<rfnm_vspa_reg_count s]. rfnm_vspa_provides (reg s) (int i) need)"

definition rfnm_vspa_running_has :: "u32 \<Rightarrow> 'a reg_world_scheme \<Rightarrow> bool" where
  "rfnm_vspa_running_has need s = rfnm_vspa_provides (reg s) (running s) need"

definition rfnm_vspa_parked :: "'a reg_world_scheme \<Rightarrow> bool" where
  "rfnm_vspa_parked s \<longleftrightarrow> running s < 0"

definition rfnm_vspa_core_busy :: "('a reg_world_scheme, bool) state" where
  "rfnm_vspa_core_busy = do {
     ok \<leftarrow> gets (\<lambda>s. has_dev s \<and> has_vspa s);
     if \<not> ok then ret False
     else do { v \<leftarrow> vspa_reg_read STATUS_REG_OFFSET; ret (v AND STATUS_BUSY \<noteq> 0) }
   }"

section \<open>Selection\<close>

definition hweight32 :: "u32 \<Rightarrow> nat" where
  "hweight32 w = length (filter (bit w) [0..<32])"

text \<open>The scan both selections make: the candidate replaces the best one so far when it is
  better; \<open>-1\<close> is no candidate yet.\<close>

fun scan_best :: "(nat \<Rightarrow> bool) \<Rightarrow> (nat \<Rightarrow> nat \<Rightarrow> bool) \<Rightarrow> nat list \<Rightarrow> int \<Rightarrow> int" where
  "scan_best ok better [] best = best"
| "scan_best ok better (i # js) best =
     scan_best ok better js (if ok i \<and> (best < 0 \<or> better i (nat best)) then int i else best)"

definition select_better :: "reg_entry list \<Rightarrow> nat \<Rightarrow> nat \<Rightarrow> bool" where
  "select_better es i b \<longleftrightarrow>
     hweight32 (ent_caps es i) < hweight32 (ent_caps es b) \<or>
     (hweight32 (ent_caps es i) = hweight32 (ent_caps es b) \<and> ent_rank es i < ent_rank es b)"

definition probe_better :: "reg_entry list \<Rightarrow> nat \<Rightarrow> nat \<Rightarrow> bool" where
  "probe_better es i b \<longleftrightarrow> hweight32 (ent_caps es i) < hweight32 (ent_caps es b)"

definition rfnm_vspa_select_for :: "u32 \<Rightarrow> ('a reg_world_scheme, int) state" where
  "rfnm_vspa_select_for need = do {
     es \<leftarrow> gets reg;
     run \<leftarrow> gets running;
     if rfnm_vspa_provides es run need then do {
       modify (\<lambda>s. s\<lparr>selected := run\<rparr>);
       ret 0
     }
     else do {
       let best = scan_best (\<lambda>i. rfnm_vspa_provides es (int i) need) (select_better es)
                    [0..<length es] (- 1);
       modify (\<lambda>s. s\<lparr>selected := best\<rparr>);
       if best < 0 then ret (- ENOENT) else ret 0
     }
   }"

section \<open>Booting an image\<close>

text \<open>The diagnostic reads of a failed start. The sources pass them as arguments of one
  print; they are taken in their order here.\<close>

fun read_all :: "nat list \<Rightarrow> ('a mmio_scheme, unit) state" where
  "read_all [] = ret ()"
| "read_all (a # as) = do { _ \<leftarrow> vspa_reg_read a; read_all as }"

definition rfnm_vspa_swap_forensics :: "('a mmio_scheme, unit) state" where
  "rfnm_vspa_swap_forensics = do {
     read_all [CONTROL_REG_OFFSET, STATUS_REG_OFFSET, HOST_MBOX_STATUS_REG_OFFSET,
       EXT_GO_STATUS_REG_OFFSET, IPPU_STATUS_REG_OFFSET, DMA_GO_STAT_REG_OFFSET,
       DBG_RCSTATUS_REG_OFFSET];
     mbox \<leftarrow> vspa_reg_read HOST_MBOX_STATUS_REG_OFFSET;
     (if mbox AND MBOX_STATUS_IN_64_BIT \<noteq> 0
      then read_all [HOST_IN_64_MSB_REG_OFFSET, HOST_IN_64_LSB_REG_OFFSET] else ret ());
     read_all [DBG_RCSTATUS_REG_OFFSET, STATUS_REG_OFFSET]
   }"

text \<open>\<open>la9310_set_host_ready\<close> of la9310_base.c: plain accesses that do not look at the fence.\<close>

definition la9310_set_host_ready :: "u32 \<Rightarrow> ('a mmio_scheme, unit) state" where
  "la9310_set_host_ready bits = do {
     v \<leftarrow> raw_read (HifWord ''host_ready'');
     raw_write (HifWord ''host_ready'') (v OR bits)
   }"

definition rfnm_vspa_boot_tail :: "('a reg_world_scheme, unit) state" where
  "rfnm_vspa_boot_tail = do {
     ok \<leftarrow> gets stats_mem;
     ready \<leftarrow> gets (\<lambda>s. rfnm_stats_ready (vd s));
     (if \<not> ready \<and> ok then set_vd (\<lambda>d. d\<lparr>rfnm_stats_ready := True\<rparr>) else ret ());
     vspa_reg_write HOST_FLAGS0_REG_OFFSET 0xFFFFFFFF;
     vspa_reg_write HOST_FLAGS1_REG_OFFSET 0xFFFFFFFF;
     vspa_reg_write STATUS_REG_OFFSET 0xF000;
     b \<leftarrow> gets hif_vspa_ready;
     la9310_set_host_ready b
   }"

fun park_wait :: "nat \<Rightarrow> ('a mmio_scheme, unit) state" where
  "park_wait 0 = ret ()"
| "park_wait (Suc n) = do {
     v \<leftarrow> vspa_reg_read STATUS_REG_OFFSET;
     if v AND STATUS_BUSY = 0 then ret () else park_wait n
   }"

definition ptr_align :: "u64 \<Rightarrow> u32 \<Rightarrow> u64" where
  "ptr_align p a = (p + (ucast a - 1)) AND NOT (ucast a - 1)"

definition strscpy_name :: "rfnm_vspa_ident \<Rightarrow> u8 list" where
  "strscpy_name i =
     take (VSPA_MAX_ELD_FILENAME - 1) (takeWhile (\<lambda>c. c \<noteq> 0) (id_name i @ githash i @ buildtime i))"

text \<open>\<open>memcpy_toio\<close> of the cached blob to the overlay region: a fault when there is no blob or
  when it does not fit behind the aligned address.\<close>

definition copy_blob :: "reg_entry \<Rightarrow> mem_region \<Rightarrow> u64 \<Rightarrow> ('a vspa_world_scheme, unit) state" where
  "copy_blob e r vaddr =
     (case blob e of
        None \<Rightarrow> modify (\<lambda>s. s\<lparr>vfault := True\<rparr>)
      | Some d \<Rightarrow> modify (\<lambda>s. s\<lparr>
          vfault := (vfault s \<or> unat vaddr + ent_size e > unat (mr_vaddr r) + mr_size r),
          hmem := mem_write (unat vaddr) (take (ent_size e) d) (hmem s)\<rparr>))"

definition boot_fail :: "int \<Rightarrow> ('a reg_world_scheme, int) state" where
  "boot_fail rc = do {
     modify (\<lambda>s. s\<lparr>running := - 1\<rparr>);
     modify (\<lambda>s. s\<lparr>loader_busy := False\<rparr>);
     read_all [DMA_XFRERR_STAT_REG_OFFSET, DMA_CFGERR_STAT_REG_OFFSET, CONTROL_REG_OFFSET,
       STATUS_REG_OFFSET, HOST_MBOX_STATUS_REG_OFFSET];
     ret rc
   }"

definition rfnm_vspa_boot_image_locked :: "int \<Rightarrow> ('a reg_world_scheme, int) state" where
  "rfnm_vspa_boot_image_locked idx = do {
     e \<leftarrow> gets (\<lambda>s. reg s ! nat idx);
     park_wait 250;
     st \<leftarrow> vspa_reg_read STATUS_REG_OFFSET;
     if st AND STATUS_BUSY \<noteq> 0 then do {
       _ \<leftarrow> vspa_reg_read STATUS_REG_OFFSET;
       ret (- EBUSY)
     }
     else do {
       modify (\<lambda>s. s\<lparr>loader_busy := True\<rparr>);
       vspa_reg_write DMA_COMP_STAT_REG_OFFSET 0xFFFFFFFF;
       vspa_reg_write DMA_XFRERR_STAT_REG_OFFSET 0xFFFFFFFF;
       vspa_reg_write DMA_CFGERR_STAT_REG_OFFSET 0xFFFFFFFF;
       set_vd (\<lambda>d. d\<lparr>vs_state := VSPA_STATE_LOADING\<rparr>);
       fwr \<leftarrow> gets ovl;
       width \<leftarrow> gets (\<lambda>s. axi_data_width (hardware (vd s)));
       copy_blob e fwr (ptr_align (mr_vaddr fwr) width);
       rc \<leftarrow> la9310_load_vspa_image (unat (ptr_align (mr_vaddr fwr) width)) (word_of_nat (ent_size e));
       if rc < 0 then boot_fail rc
       else do {
         read_all [CONTROL_REG_OFFSET, STATUS_REG_OFFSET, HOST_MBOX_STATUS_REG_OFFSET,
           DBG_RCSTATUS_REG_OFFSET, DBG_GDBEN_REG_OFFSET, DBG_DVR_REG_OFFSET,
           EXT_GO_STATUS_REG_OFFSET];
         rc \<leftarrow> startup;
         if rc \<noteq> 0 then do {
           rfnm_vspa_swap_forensics;
           boot_fail rc
         }
         else do {
           set_vd (\<lambda>d. d\<lparr>eld_filename := strscpy_name (ent_id e)\<rparr>);
           rfnm_vspa_boot_tail;
           modify (\<lambda>s. s\<lparr>running := idx\<rparr>);
           modify (\<lambda>s. s\<lparr>boot_gen := boot_gen s + 1\<rparr>);
           modify (\<lambda>s. s\<lparr>loader_busy := False\<rparr>);
           ret 0
         }
       }
     }
   }"

definition rfnm_vspa_probe_boot :: "('a reg_world_scheme, int) state" where
  "rfnm_vspa_probe_boot = do {
     es \<leftarrow> gets reg;
     sel \<leftarrow> gets selected;
     (if sel < 0 \<or> sel \<ge> int (length es) then
        modify (\<lambda>s. s\<lparr>selected :=
          scan_best (\<lambda>i. rfnm_vspa_provides es (int i) RFNM_VSPA_CAP_STREAMING_BASE)
            (probe_better es) [0..<length es] (- 1)\<rparr>)
      else ret ());
     sel \<leftarrow> gets selected;
     if sel < 0 then ret (- ENOENT)
     else do {
       modify (\<lambda>s. s\<lparr>running := - 1\<rparr>);
       rfnm_vspa_boot_image_locked sel
     }
   }"

definition rfnm_vspa_boot_selected :: "('a reg_world_scheme, int) state" where
  "rfnm_vspa_boot_selected = do {
     ok \<leftarrow> gets (\<lambda>s. has_dev s \<and> has_vspa s);
     if \<not> ok then ret (- ENODEV)
     else do {
       sel \<leftarrow> gets selected;
       if sel < 0 then ret (- ENOENT) else rfnm_vspa_boot_image_locked sel
     }
   }"

section \<open>What an image must prove\<close>

text \<open>An image is stamped with identity \<open>i\<close> when the section walk finds \<open>i\<close> in it and the
  magic, the ABI and the checksum of the original bytes are right.\<close>

definition stamped :: "u8 list \<Rightarrow> rfnm_vspa_ident \<Rightarrow> bool" where
  "stamped d i \<longleftrightarrow>
     (\<exists>off. rfnm_vspa_find_ident d = Some (Some off) \<and> load_ident d off = Some i) \<and>
     magic i = RFNM_VSPA_IDENT_MAGIC \<and> abi i = RFNM_VSPA_ABI_CURRENT \<and>
     unat (orig_size i) \<le> length d \<and>
     word_sum (take (unat (orig_size i)) d) = payload_csum i"

lemma verify_image_eq:
  "verify_image d =
     (case rfnm_vspa_find_ident d of
        Some (Some off) \<Rightarrow>
          (case load_ident d off of
             Some i \<Rightarrow> Some (if stamped d i then Inr i else Inl (- EINVAL))
           | None \<Rightarrow> None)
      | _ \<Rightarrow> Some (Inl (- EINVAL)))"
  using find_ident_ok [of d]
  by (auto simp: verify_image_def stamped_def rfnm_vspa_wordsum_eq ident_ok_def not_less
      split: option.splits)

lemma verify_image_total: "verify_image d \<noteq> None"
  using find_ident_ok [of d] load_ident_inside [of _ d]
  by (fastforce simp: verify_image_eq ident_ok_def split: option.splits)

lemma verify_image_cases:
  "(\<exists>i. stamped d i \<and> verify_image d = Some (Inr i)) \<or>
   (\<forall>i. \<not> stamped d i) \<and> verify_image d = Some (Inl (- EINVAL))"
  using verify_image_total [of d]
  by (auto simp: verify_image_eq stamped_def split: option.splits)

section \<open>The registry's list\<close>

lemma reg_index_le: "reg_index es n \<le> length es"
  by (induction es) auto

lemma reg_index_found: "reg_index es n < length es \<Longrightarrow> fwname (es ! reg_index es n) = n"
  by (induction es) auto

lemma reg_index_iff: "reg_index es n < length es \<longleftrightarrow> n \<in> fwname ` set es"
  by (induction es) auto

definition entry_ok :: "reg_entry \<Rightarrow> bool" where
  "entry_ok e \<longleftrightarrow> length (fwname e) < FWNAME_SIZE \<and>
     (case blob e of None \<Rightarrow> True | Some d \<Rightarrow> stamped d (ent_id e) \<and> ent_size e = length d)"

definition reg_inv :: "'a reg_world_scheme \<Rightarrow> bool" where
  "reg_inv s \<longleftrightarrow>
     length (reg s) \<le> RFNM_VSPA_REG_MAX \<and> distinct (map fwname (reg s)) \<and>
     (\<forall>e \<in> set (reg s). entry_ok e) \<and>
     - 1 \<le> selected s \<and> selected s < int (length (reg s)) \<and>
     - 1 \<le> running s \<and> running s < int (length (reg s)) \<and> \<not> loader_busy s"

text \<open>The list after a successful registration.\<close>

definition published :: "reg_entry list \<Rightarrow> reg_entry \<Rightarrow> reg_entry list" where
  "published es e =
     (let k = reg_index es (fwname e) in if k < length es then es[k := e] else es @ [e])"

lemma published_ok:
  assumes "distinct (map fwname es)" and "\<forall>e \<in> set es. entry_ok e" and "entry_ok e"
    and "reg_index es (fwname e) = length es \<longrightarrow> length es < RFNM_VSPA_REG_MAX"
    and "length es \<le> RFNM_VSPA_REG_MAX"
  shows "distinct (map fwname (published es e)) \<and> (\<forall>x \<in> set (published es e). entry_ok x) \<and>
    length es \<le> length (published es e) \<and> length (published es e) \<le> RFNM_VSPA_REG_MAX"
proof (cases "reg_index es (fwname e) < length es")
  case True
  with assms show ?thesis
    using reg_index_found [OF True] set_update_subset_insert [of es]
    by (auto simp: published_def Let_def distinct_list_update_same)
next
  case False
  then have "fwname e \<notin> fwname ` set es" by (simp add: reg_index_iff)
  with False assms reg_index_le [of es "fwname e"] show ?thesis
    by (auto simp: published_def Let_def)
qed

lemma dropped_ok:
  assumes "distinct (map fwname es)" and "\<forall>e \<in> set es. entry_ok e" and "k < length es"
  shows "distinct (map fwname (es[k := (es ! k)\<lparr>blob := None\<rparr>])) \<and>
    (\<forall>x \<in> set (es[k := (es ! k)\<lparr>blob := None\<rparr>]). entry_ok x)"
proof -
  have "entry_ok ((es ! k)\<lparr>blob := None\<rparr>)"
    using assms(2,3) by (auto simp: entry_ok_def)
  with assms set_update_subset_insert [of es k "(es ! k)\<lparr>blob := None\<rparr>"] show ?thesis
    by (auto simp: distinct_list_update_same)
qed

lemma register_inv:
  assumes "reg_inv s"
  shows "reg_inv (snd (run_state (rfnm_vspa_registry_register n fw alloc) s))"
proof -
  note idx = reg_index_le [of "reg s" n]
  have pub: "reg_inv (snd (run_state (publish_image n d i alloc) s))"
    if st: "stamped d i" and n: "length n < FWNAME_SIZE" for d i
  proof -
    let ?e = "\<lparr>fwname = n, ent_id = i, blob = Some d, ent_size = length d\<rparr>"
    have e: "entry_ok ?e" using st n by (simp add: entry_ok_def)
    show ?thesis
      using assms idx published_ok [of "reg s" ?e] e dropped_ok [of "reg s" "reg_index (reg s) n"]
      by (auto simp: publish_image_def reg_inv_def published_def Let_def)
  qed
  show ?thesis
  proof (cases fw)
    case (Inl rc)
    with assms show ?thesis by (simp add: rfnm_vspa_registry_register_def)
  next
    case (Inr d)
    with assms pub verify_image_cases [of d] show ?thesis
      by (auto simp: rfnm_vspa_registry_register_def)
  qed
qed

section \<open>Selection finds a minimal provider\<close>

text \<open>
  The contract of a scan: candidates are compared by a key. The scan then returns \<open>-1\<close> when
  no index qualifies and otherwise the first of the qualifying indices with the least key.
\<close>

locale keyed_scan =
  fixes ok :: "nat \<Rightarrow> bool" and better :: "nat \<Rightarrow> nat \<Rightarrow> bool" and key :: "nat \<Rightarrow> 'k :: linorder"
  assumes better_iff: "better i j \<longleftrightarrow> key i < key j"
begin

definition is_best :: "nat \<Rightarrow> int \<Rightarrow> bool" where
  "is_best n best \<longleftrightarrow>
     (if \<exists>i < n. ok i
      then \<exists>b < n. best = int b \<and> ok b \<and> (\<forall>i < n. ok i \<longrightarrow> key b < key i \<or> key b = key i \<and> b \<le> i)
      else best = - 1)"

lemma is_bestI:
  "b < n \<Longrightarrow> ok b \<Longrightarrow> (\<forall>i < n. ok i \<longrightarrow> key b < key i \<or> key b = key i \<and> b \<le> i) \<Longrightarrow> is_best n (int b)"
  by (auto simp: is_best_def)

lemma is_best_step:
  assumes "is_best n best"
  shows "is_best (Suc n) (if ok n \<and> (best < 0 \<or> better n (nat best)) then int n else best)"
proof (cases "\<exists>i < n. ok i")
  case True
  with assms obtain b where b: "b < n" "best = int b" "ok b"
    and least: "\<forall>i < n. ok i \<longrightarrow> key b < key i \<or> key b = key i \<and> b \<le> i"
    by (auto simp: is_best_def)
  show ?thesis
  proof (cases "ok n \<and> key n < key b")
    case True
    with b least show ?thesis
      unfolding is_best_def better_iff by (fastforce simp: less_Suc_eq)
  next
    case False
    then have "(if ok n \<and> (best < 0 \<or> better n (nat best)) then int n else best) = int b"
      using b by (auto simp: better_iff)
    moreover have "\<forall>i < Suc n. ok i \<longrightarrow> key b < key i \<or> key b = key i \<and> b \<le> i"
      using b(1) least False by (auto simp: less_Suc_eq not_less le_less)
    ultimately show ?thesis
      using b by (simp add: is_bestI)
  qed
next
  case False
  with assms show ?thesis by (auto simp: is_best_def less_Suc_eq)
qed

lemma scan_from:
  assumes "is_best m best"
  shows "is_best (m + k) (scan_best ok better [m..<m + k] best)"
  using assms
proof (induction k arbitrary: m best)
  case 0
  then show ?case by simp
next
  case (Suc k)
  have "[m..<m + Suc k] = m # [Suc m..<Suc m + k]" by (simp add: upt_conv_Cons)
  then show ?case using Suc.IH [OF is_best_step [OF Suc.prems]] by simp
qed

lemma scan_is_best: "is_best n (scan_best ok better [0..<n] (- 1))"
  using scan_from [of 0 "- 1" n] by (simp add: is_best_def)

lemma scan_range: "- 1 \<le> scan_best ok better [0..<n] (- 1) \<and> scan_best ok better [0..<n] (- 1) < int n"
  using scan_is_best [of n] by (auto simp: is_best_def split: if_splits)

lemma scan_none: "scan_best ok better [0..<n] (- 1) < 0 \<longleftrightarrow> (\<forall>i < n. \<not> ok i)"
  using scan_is_best [of n] by (auto simp: is_best_def split: if_splits)

lemma scan_some:
  "\<not> scan_best ok better [0..<n] (- 1) < 0 \<Longrightarrow>
     \<exists>b < n. scan_best ok better [0..<n] (- 1) = int b \<and> ok b \<and>
       (\<forall>i < n. ok i \<longrightarrow> key b < key i \<or> key b = key i \<and> b \<le> i)"
  using scan_is_best [of n] by (auto simp: is_best_def split: if_splits)

end

definition select_key :: "reg_entry list \<Rightarrow> nat \<Rightarrow> nat \<times> u32" where
  "select_key es i = (hweight32 (ent_caps es i), ent_rank es i)"

definition probe_key :: "reg_entry list \<Rightarrow> nat \<Rightarrow> nat" where
  "probe_key es i = hweight32 (ent_caps es i)"

interpretation sel: keyed_scan "\<lambda>i. rfnm_vspa_provides es (int i) need" "select_better es" "select_key es"
  for es need
  by unfold_locales (auto simp: select_better_def select_key_def less_prod_def)

interpretation prb: keyed_scan "\<lambda>i. rfnm_vspa_provides es (int i) need" "probe_better es" "probe_key es"
  for es need
  by unfold_locales (auto simp: probe_better_def probe_key_def)

lemma provides_range: "rfnm_vspa_provides es i need \<Longrightarrow> 0 \<le> i \<and> i < int (length es)"
  by (simp add: rfnm_vspa_provides_def)

lemma select_inv:
  assumes "reg_inv s"
  shows "reg_inv (snd (run_state (rfnm_vspa_select_for need) s))"
  using assms sel.scan_range [of "reg s" need "length (reg s)"] provides_range [of "reg s" "running s" need]
  by (auto simp: rfnm_vspa_select_for_def reg_inv_def Let_def)

section \<open>The boot of an image\<close>

text \<open>The parts of the larger state the loader leaves alone.\<close>

lemma core_frame_reg:
  fixes s t :: "'a reg_world_scheme"
  assumes "core_frame s t"
  shows "reg t = reg s \<and> selected t = selected s \<and> running t = running s \<and>
    boot_gen t = boot_gen s \<and> loader_busy t = loader_busy s \<and> has_dev t = has_dev s \<and>
    has_vspa t = has_vspa s \<and> stats_mem t = stats_mem s \<and> hif_vspa_ready t = hif_vspa_ready s \<and>
    (\<exists>b. bus t = bus s @ b)"
  using assms by (cases s; cases t) (simp add: core_frame_def)

lemma bus_step_reg:
  fixes s t :: "'a reg_world_scheme"
  assumes "bus_step s t b"
  shows "reg t = reg s \<and> selected t = selected s \<and> running t = running s \<and>
    boot_gen t = boot_gen s \<and> loader_busy t = loader_busy s \<and> has_dev t = has_dev s \<and>
    has_vspa t = has_vspa s \<and> stats_mem t = stats_mem s \<and> hif_vspa_ready t = hif_vspa_ready s \<and>
    bus t = bus s @ b \<and> vd t = vd s"
  using core_frame_reg [OF bus_step_core [OF assms]] bus_step_vspa [OF assms] by simp

definition status_reads :: "bus_op list \<Rightarrow> bool" where
  "status_reads b \<longleftrightarrow> (\<forall>x \<in> set b. \<exists>v. x = Rd (VReg STATUS_REG_OFFSET) v)"

lemma wp_park_wait:
  "(\<And>t b. bus_step s t b \<Longrightarrow> status_reads b \<Longrightarrow> Q () t) \<Longrightarrow> wp (park_wait n) Q s"
proof (induction n arbitrary: s Q)
  case 0
  from 0 [OF bus_step_refl] show ?case by (simp add: wp_eqs status_reads_def)
next
  case (Suc n)
  show ?case
    unfolding park_wait.simps
  proof (intro wp_steps wp_bus wp_ifI Suc.IH, goal_cases)
    case (1 v t b)
    then show ?case by (intro Suc.prems [OF 1(1)]) (auto simp: status_reads_def)
  next
    case (2 v t b u c)
    show ?case
      by (rule Suc.prems [OF bus_step_trans [OF 2(1,4)]]) (use 2 in \<open>auto simp: status_reads_def\<close>)
  qed
qed

lemma wp_read_all [wp_bus]: "(\<And>t b. bus_step s t b \<Longrightarrow> Q () t) \<Longrightarrow> wp (read_all as) Q s"
proof (induction "as" arbitrary: s Q)
  case Nil
  from Nil [OF bus_step_refl] show ?case by (simp add: wp_eqs)
next
  case (Cons a as)
  show ?case
    unfolding read_all.simps
    by (intro wp_steps wp_bus Cons.IH) (blast intro: Cons.prems bus_step_trans)
qed

lemma swap_forensics_bus: "state_io_rel bus_rel rfnm_vspa_swap_forensics"
proof -
  have "state_io_rel bus_rel (read_all as)" for "as" :: "nat list"
    by (induction "as") (simp_all add: br.rel_rules frame_rules)
  then show ?thesis
    unfolding rfnm_vspa_swap_forensics_def by (intro br.rel_rules frame_rules)
qed

lemma wp_bus_rel: "state_io_rel bus_rel m \<Longrightarrow> (\<And>r t b. bus_step s t b \<Longrightarrow> Q r t) \<Longrightarrow> wp m Q s"
  by (auto simp: state_io_rel_def bus_rel_def wp_iff_run)

lemma load_image_rc: "fst (run_state (la9310_load_vspa_image a n) s) \<in> {0, - ENOEXEC, - EIO}"
  unfolding la9310_load_vspa_image_def by (simp add: split_beta Let_def)

lemma wp_load_image:
  assumes "\<And>rc t. core_frame s t \<Longrightarrow> rc \<in> {0, - ENOEXEC, - EIO} \<Longrightarrow> Q rc t"
  shows "wp (la9310_load_vspa_image a n) Q s"
  using assms [OF cf.rel_run [OF load_image_core] load_image_rc] by (simp add: wp_iff_run)

lemma wp_startup:
  assumes "\<And>rc t. core_frame s t \<Longrightarrow> rc = 0 \<and> startup_ok s t \<or> rc = - EIO \<and> startup_failed s t \<Longrightarrow> Q rc t"
  shows "wp startup Q s"
  using assms [OF cf.rel_run [OF startup_core]] startup_wp [of s] by (simp add: wp_iff_run)

text \<open>The three ways a boot ends.\<close>

definition boot_refused :: "'a reg_world_scheme \<Rightarrow> 'a reg_world_scheme \<Rightarrow> bool" where
  "boot_refused s t \<longleftrightarrow> (\<exists>b. bus_step s t b \<and> status_reads b)"

definition boot_failed :: "'a reg_world_scheme \<Rightarrow> 'a reg_world_scheme \<Rightarrow> bool" where
  "boot_failed s t \<longleftrightarrow>
     running t = - 1 \<and> boot_gen t = boot_gen s \<and> \<not> loader_busy t \<and> reg t = reg s \<and>
     selected t = selected s"

definition boot_done :: "int \<Rightarrow> 'a reg_world_scheme \<Rightarrow> 'a reg_world_scheme \<Rightarrow> bool" where
  "boot_done idx s t \<longleftrightarrow>
     running t = idx \<and> boot_gen t = boot_gen s + 1 \<and> \<not> loader_busy t \<and> reg t = reg s \<and>
     selected t = selected s \<and> vs_state (vd t) = VSPA_STATE_RUNNING_IDLE \<and>
     eld_filename (vd t) = strscpy_name (ent_id (reg s ! nat idx)) \<and>
     (\<exists>b1 b2 b3 v. bus t = bus s @ b1 @ Rd (VReg HOST_IN_64_MSB_REG_OFFSET) 0xF1000000 # b2 @
        Rd (VReg HOST_IN_64_MSB_REG_OFFSET) 0xF0700000 # b3 @
        [Rd (HifWord ''host_ready'') v, Wr (HifWord ''host_ready'') (v OR hif_vspa_ready s)])"

lemma startup_ok_bus:
  assumes "startup_ok s t"
  shows "vs_state (vd t) = VSPA_STATE_RUNNING_IDLE \<and>
    (\<exists>b1 b2 b3. bus t = bus s @ b1 @ Rd (VReg HOST_IN_64_MSB_REG_OFFSET) 0xF1000000 # b2 @
       Rd (VReg HOST_IN_64_MSB_REG_OFFSET) 0xF0700000 # b3)"
  using assms unfolding startup_ok_def by (auto simp: append_assoc [symmetric] simp del: append_assoc)

lemma wp_set_host_ready:
  assumes "\<And>v t. bus_step s t [Rd (HifWord ''host_ready'') v, Wr (HifWord ''host_ready'') (v OR b)] \<Longrightarrow> Q () t"
  shows "wp (la9310_set_host_ready b) Q s"
  using assms
  by (simp add: la9310_set_host_ready_def raw_read_def raw_write_def wp_eqs bus_step_def)

lemma wp_copy_blob:
  assumes "\<And>t. core_frame s t \<Longrightarrow> Q () t"
  shows "wp (copy_blob e r a) Q s"
  unfolding copy_blob_def by (intro wp_optionI wp_steps assms) (simp_all add: core_frame_def)

lemma wp_boot_tail:
  fixes s :: "'a reg_world_scheme"
  assumes "\<And>t b v n. core_frame s t \<Longrightarrow> vd t = (vd s)\<lparr>rfnm_stats_ready := n\<rparr> \<Longrightarrow>
    bus t = bus s @ b @ [Rd (HifWord ''host_ready'') v, Wr (HifWord ''host_ready'') (v OR hif_vspa_ready s)] \<Longrightarrow>
    Q () t"
  shows "wp rfnm_vspa_boot_tail Q s"
  unfolding rfnm_vspa_boot_tail_def
proof (intro wp_steps wp_ifI wp_bus wp_set_host_ready, goal_cases)
  case (1 t1 b1 t2 b2 t3 b3 v t4)
  show ?case
    by (rule assms [of t4 True "b1 @ b2 @ b3" v])
      (use 1(2,4,6,8) [THEN bus_step_reg] 1(2,4,6,8) [THEN bus_step_core] in
        \<open>auto simp: core_frame_def\<close>)
next
  case (2 t1 b1 t2 b2 t3 b3 v t4)
  show ?case
    by (rule assms [of t4 "rfnm_stats_ready (vd s)" "b1 @ b2 @ b3" v])
      (use 2(2,4,6,8) [THEN bus_step_reg] 2(2,4,6,8) [THEN bus_step_core] in
        \<open>auto simp: core_frame_def\<close>)
qed

lemma boot_image_wp:
  "wp (rfnm_vspa_boot_image_locked idx)
     (\<lambda>rc t. rc = 0 \<and> boot_done idx s t \<or> rc = - EBUSY \<and> boot_refused s t \<or>
        rc \<in> {- ENOEXEC, - EIO} \<and> boot_failed s t) s"
  unfolding rfnm_vspa_boot_image_locked_def boot_fail_def
proof (intro wp_steps wp_park_wait wp_bus wp_ifI wp_copy_blob wp_load_image wp_startup
      wp_bus_rel [OF swap_forensics_bus] wp_boot_tail, goal_cases)
  case (1 t b v ta ba va tb bb)
  have "bus_step s tb (b @ ba @ bb)"
    using bus_step_trans [OF bus_step_trans [OF 1(1) 1(3)] 1(6)] by simp
  moreover have "status_reads (b @ ba @ bb)"
    using 1(2,4,7) by (auto simp: status_reads_def)
  ultimately show ?case by (auto simp: boot_refused_def)
next
  case 2
  with 2(1,3,6,8,10,16) [THEN bus_step_reg] 2(12,13) [THEN core_frame_reg] show ?case
    by (simp add: boot_failed_def)
next
  case 3
  with 3(1,3,6,8,10,16,20,21) [THEN bus_step_reg] 3(12,13,17) [THEN core_frame_reg] show ?case
    by (simp add: boot_failed_def)
next
  case (4 t b v ta ba tb bb tc bc td bd te rc tf tg be rca th ti bf va n)
  note st = 4(1,3,6,8,10,16) [THEN bus_step_reg] and fr = 4(12,13,17,20) [THEN core_frame_reg]
  from 4(18,19) have "startup_ok tg th" by (simp add: EIO_def)
  from startup_ok_bus [OF this] obtain b1 b2 b3 where idle: "vs_state (vd th) = VSPA_STATE_RUNNING_IDLE"
    and th: "bus th = bus tg @ b1 @ Rd (VReg HOST_IN_64_MSB_REG_OFFSET) 0xF1000000 # b2 @
      Rd (VReg HOST_IN_64_MSB_REG_OFFSET) 0xF0700000 # b3"
    by blast
  from fr(1,2) obtain c1 c2 where "bus te = bus td @ c1" "bus tf = bus te @ c2" by auto
  with st th 4(22) fr have "bus ti =
      bus s @ (b @ ba @ bb @ bc @ bd @ c1 @ c2 @ be @ b1) @
      Rd (VReg HOST_IN_64_MSB_REG_OFFSET) 0xF1000000 # b2 @
      Rd (VReg HOST_IN_64_MSB_REG_OFFSET) 0xF0700000 # (b3 @ bf) @
      [Rd (HifWord ''host_ready'') va, Wr (HifWord ''host_ready'') (va OR hif_vspa_ready s)]"
    by simp
  then have "\<exists>b1 b2 b3 v. bus ti = bus s @ b1 @ Rd (VReg HOST_IN_64_MSB_REG_OFFSET) 0xF1000000 # b2 @
      Rd (VReg HOST_IN_64_MSB_REG_OFFSET) 0xF0700000 # b3 @
      [Rd (HifWord ''host_ready'') v, Wr (HifWord ''host_ready'') (v OR hif_vspa_ready s)]"
    by blast
  moreover have "boot_gen ti = boot_gen s" "reg ti = reg s" "selected ti = selected s"
    using st fr by simp_all
  ultimately show ?case using idle 4(21) by (simp add: boot_done_def)
qed

section \<open>The fence stops a boot\<close>

lemma wp_quiet:
  assumes "state_io_rel fence_quiet m" and "\<forall>n. fence_at s n"
    and "\<And>r t. bus t = bus s \<Longrightarrow> \<forall>n. fence_at t n \<Longrightarrow> Q r t"
  shows "wp m Q s"
  using assms by (simp add: state_io_rel_def fence_quiet_def wp_iff_run)

lemma wp_reg_read_up:
  assumes "\<forall>n. fence_at s n" and "\<And>t. bus t = bus s \<Longrightarrow> \<forall>n. fence_at t n \<Longrightarrow> Q 0 t"
  shows "wp (vspa_reg_read a) Q s"
  using assms by (simp add: wp_iff_run vspa_reg_read_def rfnm_la9310_mmio_fenced_def)

lemma wp_startup_up:
  assumes "\<forall>n. fence_at s n"
    and "\<And>t. bus t = bus s \<Longrightarrow> \<forall>n. fence_at t n \<Longrightarrow> Q (- EIO) t"
  shows "wp startup Q s"
  using startup_up [OF assms(1)] assms fq.rel_run [OF startup_quiet, of s]
  by (simp add: wp_iff_run fence_quiet_def)

lemma read_all_quiet [quiet_rules]: "state_io_rel fence_quiet (read_all as)"
  by (induction "as") (simp_all add: fq.rel_rules quiet_rules)

lemma park_wait_quiet [quiet_rules]: "state_io_rel fence_quiet (park_wait n)"
  by (induction n) (simp_all add: fq.rel_rules quiet_rules)

lemma swap_forensics_quiet [quiet_rules]: "state_io_rel fence_quiet rfnm_vspa_swap_forensics"
  unfolding rfnm_vspa_swap_forensics_def by (intro fq.rel_rules quiet_rules)

lemma copy_blob_quiet [quiet_rules]: "state_io_rel fence_quiet (copy_blob e r a)"
  unfolding copy_blob_def by (simp add: state_io_rel_def fence_quiet_def split: option.splits)

lemma boot_fail_quiet [quiet_rules]: "state_io_rel fence_quiet (boot_fail rc)"
proof -
  have "state_io_rel fence_quiet (modify (\<lambda>s :: 'a reg_world_scheme. s\<lparr>running := x\<rparr>))"
    and "state_io_rel fence_quiet (modify (\<lambda>s :: 'a reg_world_scheme. s\<lparr>loader_busy := y\<rparr>))" for x y
    by (simp_all add: state_io_rel_def fence_quiet_def)
  then show ?thesis unfolding boot_fail_def by (intro fq.rel_rules quiet_rules)
qed

lemma wp_load_image_up:
  assumes "\<forall>n. fence_at s n"
    and "\<And>rc t. bus t = bus s \<Longrightarrow> \<forall>n. fence_at t n \<Longrightarrow> rc \<noteq> - EBUSY \<Longrightarrow> Q rc t"
  shows "wp (la9310_load_vspa_image a k) Q s"
proof -
  have "fst (run_state (la9310_load_vspa_image a k) s) \<noteq> - EBUSY"
    using load_image_rc [of a k s] by (auto simp: errno_defs)
  with assms fq.rel_run [OF load_image_quiet, of s a k] show ?thesis
    by (simp add: wp_iff_run fence_quiet_def)
qed

lemma wp_boot_fail_up:
  assumes "\<forall>n. fence_at s n" and "\<And>t. bus t = bus s \<Longrightarrow> Q rc t"
  shows "wp (boot_fail rc) Q s"
proof -
  have "fst (run_state (boot_fail rc) s) = rc" by (simp add: boot_fail_def split_beta)
  with assms fq.rel_run [OF boot_fail_quiet, of s rc] show ?thesis
    by (simp add: wp_iff_run fence_quiet_def)
qed

lemmas wp_up = wp_reg_read_up wp_startup_up wp_load_image_up wp_boot_fail_up
  park_wait_quiet [THEN wp_quiet] reg_write_quiet [THEN wp_quiet] copy_blob_quiet [THEN wp_quiet]
  read_all_quiet [THEN wp_quiet] swap_forensics_quiet [THEN wp_quiet]

lemma boot_image_up:
  assumes "\<forall>n. fence_at s n"
  shows "wp (rfnm_vspa_boot_image_locked idx) (\<lambda>rc t. rc \<noteq> - EBUSY \<and> bus t = bus s) s"
  unfolding rfnm_vspa_boot_image_locked_def
  using assms by (intro wp_steps wp_up wp_ifI) (simp_all add: errno_defs)

lemma boot_image_up_fails:
  assumes "\<forall>n. fence_at s n"
  shows "wp (rfnm_vspa_boot_image_locked idx)
    (\<lambda>rc t. rc \<in> {- ENOEXEC, - EIO} \<and> boot_failed s t \<and> bus t = bus s) s"
  using boot_image_wp [of idx s] boot_image_up [OF assms, of idx]
  unfolding wp_iff_run boot_done_def by auto

section \<open>Every reachable registry is sound\<close>

lemma boot_image_inv:
  assumes "reg_inv s" and "0 \<le> idx" and "idx < int (length (reg s))"
  shows "reg_inv (snd (run_state (rfnm_vspa_boot_image_locked idx) s))"
  using boot_image_wp [of idx s] assms
  by (auto simp: wp_iff_run reg_inv_def boot_done_def boot_failed_def boot_refused_def
      dest!: bus_step_reg)

lemma boot_selected_inv:
  assumes "reg_inv s"
  shows "reg_inv (snd (run_state rfnm_vspa_boot_selected s))"
  using assms boot_image_inv [of s "selected s"]
  by (auto simp: rfnm_vspa_boot_selected_def reg_inv_def)

lemma probe_boot_inv:
  assumes "reg_inv s"
  shows "reg_inv (snd (run_state rfnm_vspa_probe_boot s))"
proof -
  let ?best = "scan_best (\<lambda>i. rfnm_vspa_provides (reg s) (int i) RFNM_VSPA_CAP_STREAMING_BASE)
    (probe_better (reg s)) [0..<length (reg s)] (- 1)"
  let ?sel = "if selected s < 0 \<or> selected s \<ge> int (length (reg s)) then ?best else selected s"
  have range: "- 1 \<le> ?sel" "?sel < int (length (reg s))"
    using prb.scan_range [of "reg s" RFNM_VSPA_CAP_STREAMING_BASE "length (reg s)"] by auto
  have inv: "reg_inv (s\<lparr>selected := ?sel\<rparr>)" "reg_inv (s\<lparr>selected := ?sel, running := - 1\<rparr>)"
    using assms range by (auto simp: reg_inv_def)
  have "run_state rfnm_vspa_probe_boot s =
      (if ?sel < 0 then (- ENOENT, s\<lparr>selected := ?sel\<rparr>)
       else run_state (rfnm_vspa_boot_image_locked ?sel) (s\<lparr>selected := ?sel, running := - 1\<rparr>))"
    by (simp add: rfnm_vspa_probe_boot_def)
  then show ?thesis
    using inv(1) boot_image_inv [OF inv(2), of ?sel] range by (auto split: if_splits)
qed

text \<open>The operations on the registry, in any order, with anything outside the registry changing
  between them: the device, the link, the clock, other parts of the driver.\<close>

datatype reg_op = Register string "int + u8 list" bool | SelectFor u32 | ProbeBoot | BootSelected

fun reg_exec :: "reg_op \<Rightarrow> ('a reg_world_scheme, int) state" where
  "reg_exec (Register n fw alloc) = rfnm_vspa_registry_register n fw alloc"
| "reg_exec (SelectFor need) = rfnm_vspa_select_for need"
| "reg_exec ProbeBoot = rfnm_vspa_probe_boot"
| "reg_exec BootSelected = rfnm_vspa_boot_selected"

definition reg_init :: "'a reg_world_scheme \<Rightarrow> bool" where
  "reg_init s \<longleftrightarrow> reg s = [] \<and> selected s = - 1 \<and> running s = - 1 \<and> \<not> loader_busy s"

definition outside_registry :: "'a reg_world_scheme \<Rightarrow> 'a reg_world_scheme \<Rightarrow> bool" where
  "outside_registry s t \<longleftrightarrow>
     reg t = reg s \<and> selected t = selected s \<and> running t = running s \<and> loader_busy t = loader_busy s"

inductive reg_reach :: "'a reg_world_scheme \<Rightarrow> bool" where
  init: "reg_init s \<Longrightarrow> reg_reach s"
| op: "reg_reach s \<Longrightarrow> reg_reach (snd (run_state (reg_exec oper) s))"
| env: "reg_reach s \<Longrightarrow> outside_registry s t \<Longrightarrow> reg_reach t"

lemma reg_exec_inv: "reg_inv s \<Longrightarrow> reg_inv (snd (run_state (reg_exec oper) s))"
  by (cases oper) (simp_all add: register_inv select_inv probe_boot_inv boot_selected_inv)

section \<open>Properties\<close>

text \<open>
  C3: every registry the driver can reach is sound: at most eight images, no file name
  twice, every cached blob carries an identity with the right magic and ABI and the word
  sum of its original bytes, the selected and the running index are -1 or indices of the
  table, and the loader flag is down between operations.
\<close>

theorem registry_invariant:
  assumes "reg_reach s"
  shows "reg_inv s"
  using assms
proof induction
  case (init s)
  then show ?case by (simp add: reg_init_def reg_inv_def)
next
  case (op s oper)
  then show ?case by (simp add: reg_exec_inv)
next
  case (env s t)
  then show ?case by (simp add: outside_registry_def reg_inv_def)
qed

text \<open>
  C6: registration. With the file's bytes \<open>d\<close> in hand the call succeeds only for an image
  stamped with an identity, which it stores together with exactly these bytes under the
  name, in place of an older image of that name; every refusal for a missing device, an
  over-long name, a missing or wrong stamp, or a full table leaves the whole state as it
  was, and only the refusal for lack of memory does not: it leaves the image of that name
  without its bytes.
\<close>

theorem register_outcome:
  "case run_state (rfnm_vspa_registry_register n (Inr d) alloc) s of (rc, t) \<Rightarrow>
     rc = 0 \<and> has_dev s \<and> length n < FWNAME_SIZE \<and> alloc \<and>
       (\<exists>i. stamped d i \<and> t = s\<lparr>reg := published (reg s)
          \<lparr>fwname = n, ent_id = i, blob = Some d, ent_size = length d\<rparr>\<rparr>) \<or>
     rc = - ENODEV \<and> \<not> has_dev s \<and> t = s \<or>
     rc = - ENAMETOOLONG \<and> length n \<ge> FWNAME_SIZE \<and> t = s \<or>
     rc = - EINVAL \<and> (\<forall>i. \<not> stamped d i) \<and> t = s \<or>
     rc = - ENOSPC \<and> n \<notin> fwname ` set (reg s) \<and> length (reg s) = RFNM_VSPA_REG_MAX \<and> t = s \<or>
     rc = - ENOMEM \<and> \<not> alloc \<and>
       t = s\<lparr>reg := (let k = reg_index (reg s) n in
         if k < length (reg s) then (reg s)[k := (reg s ! k)\<lparr>blob := None\<rparr>] else reg s)\<rparr>"
proof (cases "has_dev s \<and> length n < FWNAME_SIZE \<and> (\<exists>i. stamped d i)")
  case False
  then consider (dev) "\<not> has_dev s" | (name) "has_dev s" "\<not> length n < FWNAME_SIZE"
    | (stamp) "has_dev s" "length n < FWNAME_SIZE" "\<forall>i. \<not> stamped d i"
    by blast
  then show ?thesis
  proof cases
    case stamp
    with verify_image_cases [of d] have "verify_image d = Some (Inl (- EINVAL))" by simp
    with stamp show ?thesis by (simp add: rfnm_vspa_registry_register_def)
  qed (simp_all add: rfnm_vspa_registry_register_def)
next
  case True
  with verify_image_cases [of d] obtain i where i: "stamped d i" "verify_image d = Some (Inr i)" by blast
  note run = rfnm_vspa_registry_register_def publish_image_def published_def Let_def
  consider (full) "reg_index (reg s) n = length (reg s)" "length (reg s) = RFNM_VSPA_REG_MAX"
    | (room) "\<not> (reg_index (reg s) n = length (reg s) \<and> length (reg s) = RFNM_VSPA_REG_MAX)"
    by blast
  then show ?thesis
  proof cases
    case full
    then have "n \<notin> fwname ` set (reg s)" by (metis less_irrefl reg_index_iff)
    with full True i show ?thesis by (simp add: run)
  next
    case room
    show ?thesis
    proof (cases alloc)
      case False
      have "run_state (rfnm_vspa_registry_register n (Inr d) alloc) s =
          (- ENOMEM, s\<lparr>reg := (let k = reg_index (reg s) n in
             if k < length (reg s) then (reg s)[k := (reg s ! k)\<lparr>blob := None\<rparr>] else reg s)\<rparr>)"
        using True room i(2) False by (simp only: run) auto
      with False show ?thesis by (simp only: prod.case) blast
    next
      case alloc: True
      with True room i(2) have "run_state (rfnm_vspa_registry_register n (Inr d) alloc) s =
          (0, s\<lparr>reg := published (reg s)
            \<lparr>fwname = n, ent_id = i, blob = Some d, ent_size = length d\<rparr>\<rparr>)"
        by (simp only: run) auto
      with alloc True i(1) show ?thesis by (simp only: prod.case) blast
    qed
  qed
qed



text \<open>
  C2: a boot ends in one of three ways. Done: the core answered both words of the handshake,
  the generation went up by one, the index is the running one, and the ready bit was set as
  the last access. Refused with -EBUSY because the core never parked: only the status
  register was read, nothing was written and the driver's state is as before, so the old
  image keeps running. Failed with -ENOEXEC or -EIO: no image counts as running, the
  generation is unchanged. The loader flag is down whenever the boot went past the park check.
\<close>

theorem boot_outcome:
  "case run_state (rfnm_vspa_boot_image_locked idx) s of (rc, t) \<Rightarrow>
     rc = 0 \<and> boot_done idx s t \<or> rc = - EBUSY \<and> boot_refused s t \<or>
     rc \<in> {- ENOEXEC, - EIO} \<and> boot_failed s t"
  using boot_image_wp [of idx s] by (simp add: wp_def)

text \<open>
  C21: while the fence is up no boot succeeds and no access reaches the link. The status
  register then reads as 0, which passes for a parked core, so the boot is not refused but
  fails, and the driver forgets which image was running.
\<close>

theorem boot_fenced:
  assumes "\<forall>n. fence_at s n"
  shows "case run_state (rfnm_vspa_boot_image_locked idx) s of (rc, t) \<Rightarrow>
    rc \<in> {- ENOEXEC, - EIO} \<and> boot_failed s t \<and> bus t = bus s"
  using boot_image_up_fails [OF assms, of idx] by (simp add: wp_def)

text \<open>
  At probe time a selection made before the reset is kept; without one the driver takes
  the first of the streaming images with the fewest capability bits, and -ENOENT is the
  answer exactly when there is none. In contrast to \<open>rfnm_vspa_select_for\<close> the rank does not
  break ties.
\<close>

theorem probe_boot_choice:
  "run_state rfnm_vspa_probe_boot s =
     (if 0 \<le> selected s \<and> selected s < int (length (reg s)) then
        run_state (rfnm_vspa_boot_image_locked (selected s)) (s\<lparr>running := - 1\<rparr>)
      else if rfnm_vspa_registry_has RFNM_VSPA_CAP_STREAMING_BASE s then
        (let b = (LEAST i. i < length (reg s) \<and>
              rfnm_vspa_provides (reg s) (int i) RFNM_VSPA_CAP_STREAMING_BASE \<and>
              (\<forall>j < length (reg s). rfnm_vspa_provides (reg s) (int j) RFNM_VSPA_CAP_STREAMING_BASE \<longrightarrow>
                 probe_key (reg s) i \<le> probe_key (reg s) j))
         in run_state (rfnm_vspa_boot_image_locked (int b)) (s\<lparr>selected := int b, running := - 1\<rparr>))
      else (- ENOENT, s\<lparr>selected := - 1\<rparr>))"
proof -
  let ?P = "\<lambda>i. rfnm_vspa_provides (reg s) (int i) RFNM_VSPA_CAP_STREAMING_BASE"
  let ?best = "scan_best ?P (probe_better (reg s)) [0..<length (reg s)] (- 1)"
  have none: "?best < 0 \<longleftrightarrow> \<not> rfnm_vspa_registry_has RFNM_VSPA_CAP_STREAMING_BASE s"
    using prb.scan_none [of "reg s" RFNM_VSPA_CAP_STREAMING_BASE "length (reg s)"]
    by (auto simp: rfnm_vspa_registry_has_def rfnm_vspa_reg_count_def)
  have m1: "?best = - 1" if "?best < 0"
    using that prb.scan_range [of "reg s" RFNM_VSPA_CAP_STREAMING_BASE "length (reg s)"] by simp
  have least: "?best = int (LEAST i. i < length (reg s) \<and> ?P i \<and>
      (\<forall>j < length (reg s). ?P j \<longrightarrow> probe_key (reg s) i \<le> probe_key (reg s) j))" if pos: "\<not> ?best < 0"
  proof -
    obtain b where b: "b < length (reg s)" "?best = int b" "?P b"
      and min: "\<forall>i < length (reg s). ?P i \<longrightarrow>
        probe_key (reg s) b < probe_key (reg s) i \<or> probe_key (reg s) b = probe_key (reg s) i \<and> b \<le> i"
      using prb.scan_some [OF pos] by blast
    have "(LEAST i. i < length (reg s) \<and> ?P i \<and>
        (\<forall>j < length (reg s). ?P j \<longrightarrow> probe_key (reg s) i \<le> probe_key (reg s) j)) = b"
      by (rule Least_equality) (use b min in force)+
    with b show ?thesis by simp
  qed
  show ?thesis
    using none m1 least by (auto simp: rfnm_vspa_probe_boot_def Let_def)
qed

section \<open>Witnesses\<close>

text \<open>A stamped image of 249 bytes: an ELF header, the headers of the identity section and of
  the name table, the name table, the identity. The checksum covers the first eight bytes.\<close>

definition sample_image :: "u8 list" where
  "sample_image =
     [0x7f, 0x45, 0x4C, 0x46, 1, 1, 1, 0] @ replicate 24 0 @ [52, 0, 0, 0] @ replicate 10 0 @
     [40, 0, 2, 0, 1, 0] @
     [1, 0, 0, 0] @ replicate 12 0 @ [145, 0, 0, 0, 104, 0, 0, 0] @ replicate 16 0 @
     [0, 0, 0, 0] @ replicate 12 0 @ [132, 0, 0, 0, 13, 0, 0, 0] @ replicate 16 0 @
     [0, 0x2E, 0x72, 0x66, 0x6E, 0x6D, 0x5F, 0x69, 0x64, 0x65, 0x6E, 0x74, 0] @
     [0x49, 0x4E, 0x46, 0x52, 1, 0, 0, 0, 3, 0, 0, 0, 5, 0, 0, 0] @
     [0x61, 0x70, 0x6D] @ replicate 77 0 @ [0x80, 0x46, 0x4D, 0x46, 8, 0, 0, 0]"

definition sample_ident :: rfnm_vspa_ident where
  "sample_ident =
     \<lparr>magic = 0x52464E49, abi = 1, caps = 3, rank = 5, id_name = [0x61, 0x70, 0x6D] @ replicate 29 0,
      githash = replicate 24 0, buildtime = replicate 24 0, payload_csum = 0x464D4680, orig_size = 8\<rparr>"

lemma sample_found: "rfnm_vspa_find_ident sample_image = Some (Some 145)"
  by code_simp

lemma sample_loaded: "load_ident sample_image 145 = Some sample_ident"
  by code_simp

lemma sample_sum: "word_sum (take 8 sample_image) = 0x464D4680"
  by code_simp

lemma sample_stamped: "stamped sample_image sample_ident"
proof -
  have "length sample_image = 249" by (simp add: sample_image_def)
  then show ?thesis
    using sample_found sample_loaded sample_sum
    by (simp add: stamped_def sample_ident_def RFNM_VSPA_IDENT_MAGIC_def RFNM_VSPA_ABI_CURRENT_def)
qed

definition sample_entry :: "string \<Rightarrow> u32 \<Rightarrow> reg_entry" where
  "sample_entry n c =
     \<lparr>fwname = n, ent_id = sample_ident\<lparr>caps := c\<rparr>, blob = Some sample_image, ent_size = 249\<rparr>"

definition sample_reg :: "bool \<Rightarrow> reg_entry list \<Rightarrow> reg_world" where
  "sample_reg fenced es =
     vspa_world.extend (sample_world fenced) (reg_world.fields True True True 2 es (- 1) (- 1) 0 False)"

lemma sample_reg_simps [simp]:
  "reg (sample_reg f es) = es" "selected (sample_reg f es) = - 1" "running (sample_reg f es) = - 1"
  "has_dev (sample_reg f es)" "\<not> loader_busy (sample_reg f es)" "fence_at (sample_reg f es) n = f"
  "bus (sample_reg f es) = []"
  by (simp_all add: sample_reg_def sample_world_def vspa_world.defs reg_world.defs)

theorem registry_invariant_witness:
  "reg_inv (snd (run_state (reg_exec (Register ''rfnm/vspa/apm.eld'' (Inr sample_image) True))
     (sample_reg False [])))"
  by (rule registry_invariant [OF reg_reach.op [OF reg_reach.init]]) (simp add: reg_init_def)



theorem boot_fenced_witness:
  "case run_state (rfnm_vspa_boot_image_locked 0) (sample_reg True [sample_entry ''apm.eld'' 3]) of
     (rc, t) \<Rightarrow> rc \<in> {- ENOEXEC, - EIO} \<and> running t = - 1 \<and> bus t = []"
  using boot_fenced [of "sample_reg True [sample_entry ''apm.eld'' 3]" 0]
  by (auto simp: boot_failed_def)

theorem probe_boot_choice_witness:
  "fst (run_state rfnm_vspa_probe_boot (sample_reg False [sample_entry ''x.eld'' 2])) = - ENOENT"
proof -
  have "\<not> rfnm_vspa_registry_has 1 (sample_reg False [sample_entry ''x.eld'' 2])"
    by (simp add: rfnm_vspa_registry_has_def rfnm_vspa_reg_count_def rfnm_vspa_provides_def
        ent_caps_def sample_entry_def)
  then show ?thesis
    using probe_boot_choice [of "sample_reg False [sample_entry ''x.eld'' 2]"] by simp
qed

end
