(* ===== verification/Base.thy ===== *)
theory Base
  imports Vspa_Registry
begin

text \<open>
  The device base of la9310_base.c: BAR mappings, the firmware buffer and its reservation,
  outbound address windows, the scratch buffer and the DMA regions cut out of it, the host
  interface block, the endpoint's log, and the allocator of outbound addresses.

  Constants that the sources take from the endpoint firmware's shared headers are fields of
  the record \<open>platform\<close>; what \<open>ioremap\<close> and \<open>request_firmware\<close> answer is an argument.
\<close>

section \<open>Data\<close>

record platform =
  sizeof_hif :: nat
  ep_hif_size :: nat
  hif_version :: u32
  log_level_info :: u32
  atu_region_outbound :: u32
  atu_type_mem :: u32
  atu_enable :: u32
  msi_win :: u32
  scratch_win :: u32
  ipc_win :: u32
  iqflood_win :: u32
  msi_ep_addr :: u64
  dma_buf_ep_addr :: u64
  huge_page_ep_addr :: u64
  iqflood_ep_addr :: u64
  iqflood_memaddr :: u64
  iqflood_memsize :: u32
  msi_ob_size :: u32
  outbound_base :: u32
  boot_preamble :: u32
  start_clock_config :: u32
  complete_clock_config :: u32
  start_driver_init :: u32
  freertos_load_addr :: u32
  boot_rsvd_ctrl :: u32
  ep_dma_phys_offset :: "u64 \<Rightarrow> u32"
  amba_error_response :: u32
  pcie_abserr_setting :: u32
  ipc_max_channels :: nat
  msi_irq_ipc_1 :: int
  msi_irq_ipc_2 :: int
  msi_max_cnt :: int
  ep_hif_offset :: u64
  hif_ipc_lib_ready :: u32
  mod_ready_ipc_lib :: u32
  irq_evt_last_bit :: nat
  irq_real_msi_bit :: nat
  ipc_evt_mask :: u32
  vspa_evt_mask :: u32
  test_evt_mask :: u32
  msi_irq_wdog :: nat
  msi_irq_v2h :: nat

text \<open>The types of memory regions; the first three are BAR regions.\<close>

abbreviation LA9310_MEM_REGION_BAR_END :: nat where "LA9310_MEM_REGION_BAR_END \<equiv> 3"
abbreviation LA9310_VSPA_OVERLAY :: nat where "LA9310_VSPA_OVERLAY \<equiv> 4"
abbreviation LA9310_MEM_REGION_VSPA :: nat where "LA9310_MEM_REGION_VSPA \<equiv> 5"
abbreviation LA9310_MEM_REGION_FW :: nat where "LA9310_MEM_REGION_FW \<equiv> 6"
abbreviation LA9310_MEM_REGION_DBG_LOG :: nat where "LA9310_MEM_REGION_DBG_LOG \<equiv> 7"
abbreviation LA9310_MEM_REGION_IQ_SAMPLES :: nat where "LA9310_MEM_REGION_IQ_SAMPLES \<equiv> 8"
abbreviation LA9310_MEM_REGION_NLM_OPS :: nat where "LA9310_MEM_REGION_NLM_OPS \<equiv> 9"
abbreviation LA9310_MEM_REGION_STD_FW :: nat where "LA9310_MEM_REGION_STD_FW \<equiv> 10"
abbreviation LA9310_MEM_REGION_MAX :: nat where "LA9310_MEM_REGION_MAX \<equiv> 11"
abbreviation LA9310_DMA_REGIONS :: nat where "LA9310_DMA_REGIONS \<equiv> 7"

definition LA9310_SUBDRV_DMA_REGION_IDX :: "nat \<Rightarrow> nat" where
  "LA9310_SUBDRV_DMA_REGION_IDX i = i - LA9310_MEM_REGION_BAR_END - 1"

abbreviation TCML_MEM_SIZE :: nat where "TCML_MEM_SIZE \<equiv> 0x20000"
abbreviation LA9310_VSPA_FW_SIZE :: nat where "LA9310_VSPA_FW_SIZE \<equiv> 2 * 1024 * 1024"
abbreviation LA9310_VSPA_DMA_SIZE :: nat where "LA9310_VSPA_DMA_SIZE \<equiv> 0"
abbreviation LA9310_DBUG_LOG_SIZE :: nat where "LA9310_DBUG_LOG_SIZE \<equiv> 4 * 1024"
abbreviation LA9310_IQ_SAMPLES_SIZE :: nat where "LA9310_IQ_SAMPLES_SIZE \<equiv> 20 * 1024 * 1024"
abbreviation LA9310_NLM_OPS_SIZE :: nat where "LA9310_NLM_OPS_SIZE \<equiv> 16 * 1024 * 1024"
abbreviation LA9310_STD_FW_SIZE :: nat where "LA9310_STD_FW_SIZE \<equiv> 128 * 1024"
abbreviation LA9310_DMA_SEPARATOR_SIZE :: nat where "LA9310_DMA_SEPARATOR_SIZE \<equiv> 64"
abbreviation LA9310_DMA_SEPARATOR_PAINT_CHAR :: u8 where "LA9310_DMA_SEPARATOR_PAINT_CHAR \<equiv> 0xFC"
abbreviation LA9310_DMA_ALIGNMENT :: nat where "LA9310_DMA_ALIGNMENT \<equiv> 64"
abbreviation FIRMWARE_NAME_SIZE :: nat where "FIRMWARE_NAME_SIZE \<equiv> 100"
abbreviation PAGE_SIZE :: nat where "PAGE_SIZE \<equiv> 4096"

definition LA9310_FW_DMA_SIZE :: "platform \<Rightarrow> nat" where
  "LA9310_FW_DMA_SIZE p = TCML_MEM_SIZE - (ep_hif_size p + 24 * 1024 + 0x1000)"

definition LA9310_DMA_BUF_SIZE :: "platform \<Rightarrow> nat" where
  "LA9310_DMA_BUF_SIZE p =
     LA9310_VSPA_FW_SIZE + LA9310_VSPA_DMA_SIZE + LA9310_FW_DMA_SIZE p + LA9310_DBUG_LOG_SIZE +
     LA9310_IQ_SAMPLES_SIZE + LA9310_NLM_OPS_SIZE + LA9310_DMA_SEPARATOR_SIZE * LA9310_DMA_REGIONS +
     LA9310_DMA_ALIGNMENT"

text \<open>
  The fields of \<open>struct la9310_dev\<close> the base works on: \<open>mem_regions\<close>, \<open>dma_info\<close>,
  \<open>firmware_info\<close>, \<open>ep_log\<close>, the outbound allocator; and the module parameters that describe
  the scratch buffer. \<open>mapped\<close> is whether the scratch buffer is mapped and \<open>bad_unmap\<close>
  whether a mapping was released that did not exist; \<open>vspa_irq_held\<close> and \<open>vspa_freed\<close> say
  whether the interrupt of the VSPA device is requested and its structure given back.
\<close>

record base_world = reg_world +
  mem_regions :: "mem_region list"
  host_buf :: mem_region
  ep_pcie_addr :: u64
  ep_bufs :: "mem_region list"
  fwi_name :: string
  fwi_busy :: bool
  fwi_size :: nat
  ep_log_buf :: u64
  ep_log_len :: nat
  ep_log_offset :: nat
  win_start :: u32
  win_current :: u32
  win_limit :: u32
  scratch_buf_phys_addr :: u64
  scratch_buf_size :: nat
  mapped :: bool
  bad_unmap :: bool
  vspa_irq_held :: bool
  vspa_freed :: bool

section \<open>BAR mappings\<close>

definition page_align :: "nat \<Rightarrow> nat" where
  "page_align n = (n + (PAGE_SIZE - 1)) div PAGE_SIZE * PAGE_SIZE"

text \<open>\<open>ioremap\<close> answers for the region with that number; a null pointer is \<open>None\<close>.\<close>

fun map_regions :: "(nat \<Rightarrow> u64 option) \<Rightarrow> nat list \<Rightarrow> ('a base_world_scheme, int) state" where
  "map_regions ioremap [] = ret 0"
| "map_regions ioremap (i # is) = do {
     m \<leftarrow> gets (\<lambda>s. mem_regions s ! i);
     if mr_phys_addr m \<noteq> 0 \<and> page_align (mr_size m) \<noteq> 0 then
       (case ioremap i of
          None \<Rightarrow> ret (- ENOMEM)
        | Some v \<Rightarrow> do {
            modify (\<lambda>s. s\<lparr>mem_regions := (mem_regions s)[i := m\<lparr>mr_vaddr := v, mr_type := i\<rparr>]\<rparr>);
            map_regions ioremap is
          })
     else map_regions ioremap is
   }"

definition la9310_map_mem_regions :: "(nat \<Rightarrow> u64 option) \<Rightarrow> ('a base_world_scheme, int) state" where
  "la9310_map_mem_regions ioremap = map_regions ioremap [0..<LA9310_MEM_REGION_BAR_END]"

definition la9310_unmap_mem_regions :: "('a base_world_scheme, unit) state" where
  "la9310_unmap_mem_regions =
     modify (\<lambda>s. s\<lparr>mem_regions :=
       map (\<lambda>m. if mr_vaddr m \<noteq> 0 then m\<lparr>mr_vaddr := 0\<rparr> else m)
         (take LA9310_MEM_REGION_BAR_END (mem_regions s)) @
       drop LA9310_MEM_REGION_BAR_END (mem_regions s)\<rparr>)"

section \<open>Firmware\<close>

definition la9310_dev_reserve_firmware :: "('a base_world_scheme, int) state" where
  "la9310_dev_reserve_firmware = do {
     b \<leftarrow> gets fwi_busy;
     if b then ret (- EBUSY)
     else do { modify (\<lambda>s. s\<lparr>fwi_busy := True\<rparr>); ret 0 }
   }"

definition la9310_dev_free_firmware :: "('a base_world_scheme, unit) state" where
  "la9310_dev_free_firmware = modify (\<lambda>s. s\<lparr>fwi_name := [], fwi_busy := False\<rparr>)"

text \<open>The word sum over the image goes to the kernel log only.\<close>

definition la9310_udev_load_firmware ::
  "u64 \<Rightarrow> nat \<Rightarrow> string \<Rightarrow> int + u8 list \<Rightarrow> ('a base_world_scheme, int) state" where
  "la9310_udev_load_firmware buf buff_sz name fw =
     (if length name < FIRMWARE_NAME_SIZE then do {
        modify (\<lambda>s. s\<lparr>fwi_name := name\<rparr>);
        (case fw of
           Inl rc \<Rightarrow> ret rc
         | Inr d \<Rightarrow>
             if buff_sz < length d then ret (- ENOBUFS)
             else do {
               modify (\<lambda>s. s\<lparr>hmem := mem_write (unat buf) d (hmem s)\<rparr>);
               modify (\<lambda>s. s\<lparr>fwi_size := length d\<rparr>);
               ret 0
             })
      }
      else ret (- ENODEV))"

section \<open>Outbound windows\<close>

definition lower_32_bits :: "u64 \<Rightarrow> u32" where "lower_32_bits a = ucast a"
definition upper_32_bits :: "u64 \<Rightarrow> u32" where "upper_32_bits a = ucast (drop_bit 32 a)"

definition ls_pcie_iatu_outbound_set ::
  "platform \<Rightarrow> u32 \<Rightarrow> u32 \<Rightarrow> u64 \<Rightarrow> u64 \<Rightarrow> u32 \<Rightarrow> ('a mmio_scheme, unit) state" where
  "ls_pcie_iatu_outbound_set p idx ty cpu_addr pci_addr sz = do {
     raw_write (Ccsr ''PCIE_ATU_VIEWPORT'') (atu_region_outbound p OR idx);
     raw_write (Ccsr ''PCIE_ATU_LOWER_BASE'') (lower_32_bits cpu_addr);
     raw_write (Ccsr ''PCIE_ATU_UPPER_BASE'') (upper_32_bits cpu_addr);
     raw_write (Ccsr ''PCIE_ATU_LIMIT'') (lower_32_bits (cpu_addr + ucast sz - 1));
     raw_write (Ccsr ''PCIE_ATU_LOWER_TARGET'') (lower_32_bits pci_addr);
     raw_write (Ccsr ''PCIE_ATU_UPPER_TARGET'') (upper_32_bits pci_addr);
     raw_write (Ccsr ''PCIE_ATU_CR1'') ty;
     raw_write (Ccsr ''PCIE_ATU_CR2'') (atu_enable p)
   }"

definition la9310_create_outbound_msi :: "platform \<Rightarrow> ('a mmio_scheme, int) state" where
  "la9310_create_outbound_msi p = do {
     lo \<leftarrow> raw_read (Ccsr ''PCIE_MSI_MSG_ADDR'');
     hi \<leftarrow> raw_read (Ccsr ''PCIE_MSI_MSG_ADDR+4'');
     ls_pcie_iatu_outbound_set p (msi_win p) (atu_type_mem p) (msi_ep_addr p)
       (ucast lo OR push_bit 32 (ucast hi)) (msi_ob_size p);
     ret 0
   }"

definition la9310_scratch_outbound_create :: "platform \<Rightarrow> ('a base_world_scheme, int) state" where
  "la9310_scratch_outbound_create p = do {
     a \<leftarrow> gets scratch_buf_phys_addr;
     n \<leftarrow> gets scratch_buf_size;
     ls_pcie_iatu_outbound_set p (scratch_win p) (atu_type_mem p) (dma_buf_ep_addr p) a (word_of_nat n);
     modify (\<lambda>s. s\<lparr>ep_pcie_addr := dma_buf_ep_addr p\<rparr>);
     ret 0
   }"

definition la9310_create_ipc_hugepage_outbound ::
  "platform \<Rightarrow> u64 \<Rightarrow> u32 \<Rightarrow> ('a mmio_scheme, unit) state" where
  "la9310_create_ipc_hugepage_outbound p phys sz =
     ls_pcie_iatu_outbound_set p (ipc_win p) (atu_type_mem p) (huge_page_ep_addr p) phys sz"

definition la9310_create_rfnm_iqflood_outbound :: "platform \<Rightarrow> ('a mmio_scheme, unit) state" where
  "la9310_create_rfnm_iqflood_outbound p =
     ls_pcie_iatu_outbound_set p (iqflood_win p) (atu_type_mem p) (iqflood_ep_addr p)
       (iqflood_memaddr p) (iqflood_memsize p)"

section \<open>DMA regions\<close>

definition la9310_init_subdrv_region :: "nat \<Rightarrow> nat \<Rightarrow> nat \<Rightarrow> ('a base_world_scheme, nat) state" where
  "la9310_init_subdrv_region sz ty offset = do {
     modify (\<lambda>s. s\<lparr>ep_bufs := (ep_bufs s)[LA9310_SUBDRV_DMA_REGION_IDX ty :=
       \<lparr>mr_phys_addr = ep_pcie_addr s + word_of_nat offset,
        mr_vaddr = mr_vaddr (host_buf s) + word_of_nat offset, mr_size = sz, mr_type = ty\<rparr>]\<rparr>);
     modify (\<lambda>s. s\<lparr>hmem := mem_write (unat (mr_vaddr (host_buf s)) + sz + offset)
       (replicate LA9310_DMA_SEPARATOR_SIZE LA9310_DMA_SEPARATOR_PAINT_CHAR) (hmem s)\<rparr>);
     ret (offset + (sz + LA9310_DMA_SEPARATOR_SIZE))
   }"

definition la9310_get_dma_region :: "nat \<Rightarrow> 'a base_world_scheme \<Rightarrow> mem_region" where
  "la9310_get_dma_region ty s = ep_bufs s ! LA9310_SUBDRV_DMA_REGION_IDX ty"

text \<open>The regions in the order in which \<open>la9310_init_subdrv_dma_buf\<close> cuts them.\<close>

definition region_plan :: "platform \<Rightarrow> (nat \<times> nat) list" where
  "region_plan p =
     [(LA9310_VSPA_OVERLAY, LA9310_VSPA_FW_SIZE), (LA9310_MEM_REGION_VSPA, LA9310_VSPA_DMA_SIZE),
      (LA9310_MEM_REGION_FW, LA9310_FW_DMA_SIZE p), (LA9310_MEM_REGION_DBG_LOG, LA9310_DBUG_LOG_SIZE),
      (LA9310_MEM_REGION_IQ_SAMPLES, LA9310_IQ_SAMPLES_SIZE),
      (LA9310_MEM_REGION_NLM_OPS, LA9310_NLM_OPS_SIZE), (LA9310_MEM_REGION_STD_FW, LA9310_STD_FW_SIZE)]"

fun carve :: "(nat \<times> nat) list \<Rightarrow> nat \<Rightarrow> ('a base_world_scheme, nat) state" where
  "carve [] offset = ret offset"
| "carve ((ty, sz) # rs) offset = do {
     offset' \<leftarrow> la9310_init_subdrv_region sz ty offset;
     carve rs offset'
   }"

text \<open>The loader reads the overlay region's description through \<open>ovl\<close>.\<close>

definition la9310_init_subdrv_dma_buf :: "platform \<Rightarrow> ('a base_world_scheme, unit) state" where
  "la9310_init_subdrv_dma_buf p = do {
     _ \<leftarrow> carve (region_plan p) 0;
     modify (\<lambda>s. s\<lparr>ovl := la9310_get_dma_region LA9310_VSPA_OVERLAY s\<rparr>)
   }"

definition iounmap_host :: "('a base_world_scheme, unit) state" where
  "iounmap_host = modify (\<lambda>s. s\<lparr>bad_unmap := (bad_unmap s \<or> \<not> mapped s), mapped := False\<rparr>)"

text \<open>\<open>va\<close>: the address \<open>ioremap\<close> returns for the scratch buffer. The error path releases a
  null pointer as well, which the kernel tolerates.\<close>

definition la9310_scratch_dma_buf :: "platform \<Rightarrow> u64 option \<Rightarrow> ('a base_world_scheme, int) state" where
  "la9310_scratch_dma_buf p va = do {
     modify (\<lambda>s. s\<lparr>scratch_buf_size := page_align (scratch_buf_size s)\<rparr>);
     n \<leftarrow> gets scratch_buf_size;
     modify (\<lambda>s. s\<lparr>host_buf := (host_buf s)\<lparr>mr_vaddr := (case va of None \<Rightarrow> 0 | Some v \<Rightarrow> v)\<rparr>,
                   mapped := (va \<noteq> None)\<rparr>);
     if va = None \<or> n < LA9310_DMA_BUF_SIZE p then do {
       (if va = None then ret () else iounmap_host);
       ret (- ENOMEM)
     }
     else do {
       modify (\<lambda>s. s\<lparr>host_buf := (host_buf s)\<lparr>mr_phys_addr := scratch_buf_phys_addr s, mr_size := n\<rparr>\<rparr>);
       modify (\<lambda>s. s\<lparr>hmem := mem_write (unat (mr_vaddr (host_buf s))) (replicate n 0) (hmem s)\<rparr>);
       rc \<leftarrow> la9310_scratch_outbound_create p;
       if rc \<noteq> 0 then do { iounmap_host; ret rc }
       else do { la9310_init_subdrv_dma_buf p; ret 0 }
     }
   }"

section \<open>Host interface\<close>

definition la9310_verify_hif_compatibility :: "platform \<Rightarrow> ('a mmio_scheme, int) state" where
  "la9310_verify_hif_compatibility p = do {
     v \<leftarrow> raw_read (HifWord ''hif_ver'');
     ret (if v \<noteq> hif_version p then - EINVAL else 0)
   }"

text \<open>The zeroing loop runs over \<open>sizeof (struct la9310_hif)\<close> words.\<close>

fun zero_words :: "nat list \<Rightarrow> ('a mmio_scheme, unit) state" where
  "zero_words [] = ret ()"
| "zero_words (i # is) = do { raw_write (HifIdx i) 0; zero_words is }"

definition la9310_init_hif :: "platform \<Rightarrow> ('a mmio_scheme, int) state" where
  "la9310_init_hif p =
     (if sizeof_hif p > ep_hif_size p then ret (- EINVAL)
      else do { zero_words [0..<sizeof_hif p]; ret 0 })"

definition la9310_init_ep_logger :: "platform \<Rightarrow> ('a base_world_scheme, unit) state" where
  "la9310_init_ep_logger p = do {
     r \<leftarrow> gets (la9310_get_dma_region LA9310_MEM_REGION_DBG_LOG);
     modify (\<lambda>s. s\<lparr>ep_log_buf := mr_vaddr r, ep_log_len := mr_size r, ep_log_offset := 0\<rparr>);
     raw_write (HifWord ''dbg_log_regs.buf'') (ucast (mr_phys_addr r));
     raw_write (HifWord ''dbg_log_regs.len'') (word_of_nat (mr_size r));
     raw_write (HifWord ''dbg_log_regs.log_level'') (log_level_info p)
   }"

section \<open>Allocator of outbound addresses\<close>

definition la9310_init_ep_pcie_allocator :: "platform \<Rightarrow> ('a base_world_scheme, unit) state" where
  "la9310_init_ep_pcie_allocator p = modify (\<lambda>s. s\<lparr>
     win_start := outbound_base p, win_current := outbound_base p, win_limit := 0xE0000000\<rparr>)"

definition la9310_alloc_ep_pcie_addr :: "u32 \<Rightarrow> ('a base_world_scheme, u32) state" where
  "la9310_alloc_ep_pcie_addr window_size = do {
     return_address \<leftarrow> gets win_current;
     limit \<leftarrow> gets win_limit;
     if return_address + window_size > limit then ret (- 1)
     else do {
       modify (\<lambda>s. s\<lparr>win_current := return_address + window_size\<rparr>);
       ret return_address
     }
   }"

definition la9310_raise_msgunit_irq :: "nat \<Rightarrow> u32 \<Rightarrow> ('a mmio_scheme, int) state" where
  "la9310_raise_msgunit_irq msg_unit_idx bit_num = do {
     raw_write (MsgUnit msg_unit_idx) bit_num;
     ret 0
   }"

section \<open>The layout of the DMA regions\<close>

text \<open>Where the k-th region of a plan starts, and where its separator lies.\<close>

definition plan_off :: "(nat \<times> nat) list \<Rightarrow> nat \<Rightarrow> nat" where
  "plan_off rs k = sum_list (map (\<lambda>r. snd r + LA9310_DMA_SEPARATOR_SIZE) (take k rs))"

definition in_separator :: "(nat \<times> nat) list \<Rightarrow> nat \<Rightarrow> nat \<Rightarrow> bool" where
  "in_separator rs base i \<longleftrightarrow>
     (\<exists>k < length rs. base + plan_off rs k + snd (rs ! k) \<le> i \<and>
        i < base + plan_off rs k + snd (rs ! k) + LA9310_DMA_SEPARATOR_SIZE)"

lemma plan_off_0 [simp]: "plan_off rs 0 = 0"
  by (simp add: plan_off_def)

lemma plan_off_Cons [simp]: "plan_off (r # rs) (Suc k) = snd r + LA9310_DMA_SEPARATOR_SIZE + plan_off rs k"
  by (simp add: plan_off_def)

lemma plan_off_step:
  "k < length rs \<Longrightarrow> plan_off rs (Suc k) = plan_off rs k + snd (rs ! k) + LA9310_DMA_SEPARATOR_SIZE"
  by (simp add: plan_off_def take_Suc_conv_app_nth)

lemma plan_off_mono: "j \<le> k \<Longrightarrow> k \<le> length rs \<Longrightarrow> plan_off rs j \<le> plan_off rs k"
  by (induction k) (auto simp: le_Suc_eq plan_off_step)

lemma in_separator_Cons:
  "in_separator (r # rs) base i \<longleftrightarrow>
     base + snd r \<le> i \<and> i < base + snd r + LA9310_DMA_SEPARATOR_SIZE \<or>
     in_separator rs (base + snd r + LA9310_DMA_SEPARATOR_SIZE) i"
  unfolding in_separator_def by (simp add: Ex_less_Suc2 add.assoc)

lemma run_region:
  "run_state (la9310_init_subdrv_region sz ty off) s =
     (off + (sz + LA9310_DMA_SEPARATOR_SIZE),
      s\<lparr>ep_bufs := (ep_bufs s)[LA9310_SUBDRV_DMA_REGION_IDX ty :=
          \<lparr>mr_phys_addr = ep_pcie_addr s + word_of_nat off,
           mr_vaddr = mr_vaddr (host_buf s) + word_of_nat off, mr_size = sz, mr_type = ty\<rparr>],
        hmem := mem_write (unat (mr_vaddr (host_buf s)) + sz + off)
          (replicate LA9310_DMA_SEPARATOR_SIZE LA9310_DMA_SEPARATOR_PAINT_CHAR) (hmem s)\<rparr>)"
  by (simp add: la9310_init_subdrv_region_def)

lemma carve_mem:
  "hmem (snd (run_state (carve rs off) s)) i =
     (if in_separator rs (unat (mr_vaddr (host_buf s)) + off) i then LA9310_DMA_SEPARATOR_PAINT_CHAR
      else hmem s i)"
proof (induction rs arbitrary: off s)
  case Nil
  show ?case by (simp add: in_separator_def)
next
  case (Cons r rs)
  obtain ty sz where "r = (ty, sz)" by force
  with Cons show ?case
    by (auto simp: run_region in_separator_Cons mem_write_def algebra_simps)
qed

lemma carve_frame:
  "ep_pcie_addr (snd (run_state (carve rs off) s)) = ep_pcie_addr s"
  "host_buf (snd (run_state (carve rs off) s)) = host_buf s"
  "length (ep_bufs (snd (run_state (carve rs off) s))) = length (ep_bufs s)"
  by (induction rs off arbitrary: s rule: carve.induct) (simp_all add: run_region)

lemma carve_other:
  "i \<notin> LA9310_SUBDRV_DMA_REGION_IDX ` fst ` set rs \<Longrightarrow>
     ep_bufs (snd (run_state (carve rs off) s)) ! i = ep_bufs s ! i"
  by (induction rs off arbitrary: s rule: carve.induct) (auto simp: run_region)

lemma carve_bufs:
  assumes "distinct (map (\<lambda>r. LA9310_SUBDRV_DMA_REGION_IDX (fst r)) rs)"
    and "\<forall>r \<in> set rs. LA9310_SUBDRV_DMA_REGION_IDX (fst r) < length (ep_bufs s)"
    and "k < length rs"
  shows "ep_bufs (snd (run_state (carve rs off) s)) ! LA9310_SUBDRV_DMA_REGION_IDX (fst (rs ! k)) =
    \<lparr>mr_phys_addr = ep_pcie_addr s + word_of_nat (off + plan_off rs k),
     mr_vaddr = mr_vaddr (host_buf s) + word_of_nat (off + plan_off rs k),
     mr_size = snd (rs ! k), mr_type = fst (rs ! k)\<rparr>"
  using assms
proof (induction rs arbitrary: off s k)
  case Nil
  then show ?case by simp
next
  case (Cons r rs)
  obtain ty sz where r: "r = (ty, sz)" by force
  let ?s = "snd (run_state (la9310_init_subdrv_region sz ty off) s)"
  show ?case
  proof (cases k)
    case 0
    have "LA9310_SUBDRV_DMA_REGION_IDX ty \<notin> LA9310_SUBDRV_DMA_REGION_IDX ` fst ` set rs"
      using Cons.prems(1) r by (auto simp: image_image)
    with 0 r Cons.prems(2) show ?thesis by (simp add: run_region carve_other)
  next
    case (Suc j)
    then show ?thesis
      using r Cons.prems Cons.IH [of ?s j "off + (sz + LA9310_DMA_SEPARATOR_SIZE)"]
      by (simp add: run_region add.assoc)
  qed
qed

definition region_off :: "platform \<Rightarrow> nat \<Rightarrow> nat" where
  "region_off p = plan_off (region_plan p)"

lemma plan_indices:
  "map (\<lambda>r. LA9310_SUBDRV_DMA_REGION_IDX (fst r)) (region_plan p) = [0..<LA9310_DMA_REGIONS]"
  by (simp add: region_plan_def LA9310_SUBDRV_DMA_REGION_IDX_def upt_rec)

lemma plan_types:
  assumes "k < LA9310_DMA_REGIONS"
  shows "fst (region_plan p ! k) = k + LA9310_VSPA_OVERLAY"
proof -
  consider "k = 0" | "k = 1" | "k = 2" | "k = 3" | "k = 4" | "k = 5" | "k = 6"
    using assms by linarith
  then show ?thesis by cases (simp_all add: region_plan_def)
qed

lemma init_dma_bufs:
  assumes "length (ep_bufs s) = LA9310_DMA_REGIONS" and "k < LA9310_DMA_REGIONS"
  shows "ep_bufs (snd (run_state (la9310_init_subdrv_dma_buf p) s)) ! k =
    \<lparr>mr_phys_addr = ep_pcie_addr s + word_of_nat (region_off p k),
     mr_vaddr = mr_vaddr (host_buf s) + word_of_nat (region_off p k),
     mr_size = snd (region_plan p ! k), mr_type = k + LA9310_VSPA_OVERLAY\<rparr>"
proof -
  have len: "length (region_plan p) = LA9310_DMA_REGIONS" by (simp add: region_plan_def)
  have ix: "LA9310_SUBDRV_DMA_REGION_IDX (fst (region_plan p ! k)) = k" if "k < LA9310_DMA_REGIONS" for k
    using that by (simp add: plan_types LA9310_SUBDRV_DMA_REGION_IDX_def)
  have bound: "\<forall>r \<in> set (region_plan p). LA9310_SUBDRV_DMA_REGION_IDX (fst r) < length (ep_bufs s)"
    using assms(1) ix len by (metis in_set_conv_nth)
  show ?thesis
    using carve_bufs [OF _ bound, of k 0] assms(2) ix [OF assms(2)] len plan_types [OF assms(2), of p]
    by (simp add: plan_indices region_off_def la9310_init_subdrv_dma_buf_def split_beta)
qed

lemma init_dma_frame:
  "ep_pcie_addr (snd (run_state (la9310_init_subdrv_dma_buf p) s)) = ep_pcie_addr s"
  "host_buf (snd (run_state (la9310_init_subdrv_dma_buf p) s)) = host_buf s"
  by (simp_all add: la9310_init_subdrv_dma_buf_def split_beta carve_frame)

section \<open>Properties\<close>

text \<open>
  C23: the DMA regions. After \<open>la9310_init_subdrv_dma_buf\<close> the k-th region has its planned size,
  starts at the same offset from the scratch buffer in host and in endpoint addresses, and
  lies, separator included, before every later region; the memory of the scratch buffer is
  as before except for the separators, which hold the paint byte.
\<close>

theorem dma_regions_layout:
  assumes "length (ep_bufs s) = LA9310_DMA_REGIONS"
  shows "let t = snd (run_state (la9310_init_subdrv_dma_buf p) s) in
    (\<forall>k < LA9310_DMA_REGIONS. ep_bufs t ! k =
       \<lparr>mr_phys_addr = ep_pcie_addr s + word_of_nat (region_off p k),
        mr_vaddr = mr_vaddr (host_buf s) + word_of_nat (region_off p k),
        mr_size = snd (region_plan p ! k), mr_type = k + LA9310_VSPA_OVERLAY\<rparr>) \<and>
    (\<forall>j k. j < k \<and> k < LA9310_DMA_REGIONS \<longrightarrow>
       region_off p j + snd (region_plan p ! j) + LA9310_DMA_SEPARATOR_SIZE \<le> region_off p k) \<and>
    (\<forall>i. hmem t i =
       (if in_separator (region_plan p) (unat (mr_vaddr (host_buf s))) i
        then LA9310_DMA_SEPARATOR_PAINT_CHAR else hmem s i))"
proof -
  have len: "length (region_plan p) = LA9310_DMA_REGIONS" by (simp add: region_plan_def)
  have sep: "region_off p j + snd (region_plan p ! j) + LA9310_DMA_SEPARATOR_SIZE \<le> region_off p k"
    if "j < k" "k < LA9310_DMA_REGIONS" for j k
    using that len plan_off_step [of j "region_plan p"] plan_off_mono [of "Suc j" k "region_plan p"]
    by (simp add: region_off_def)
  show ?thesis
    using init_dma_bufs [OF assms, of _ p] sep carve_mem [of "region_plan p" 0 s]
    by (simp add: la9310_init_subdrv_dma_buf_def split_beta)
qed

text \<open>
  the size that \<open>la9310_scratch_dma_buf\<close> demands of the scratch buffer is 131008 bytes short
  of what the regions and their separators take: \<open>LA9310_DMA_BUF_SIZE\<close> does not count the
  region \<open>LA9310_MEM_REGION_STD_FW\<close>.
\<close>

theorem scratch_size_short:
  "region_off p LA9310_DMA_REGIONS = LA9310_DMA_BUF_SIZE p + 131008"
  by (simp add: region_off_def region_plan_def plan_off_def LA9310_DMA_BUF_SIZE_def)

text \<open>
  Loading a firmware file. The call copies exactly the file's bytes to the buffer and
  records their number, and only when the name is short enough and the buffer holds them;
  otherwise host memory and the recorded size are as before.
\<close>

theorem udev_load_outcome:
  "case run_state (la9310_udev_load_firmware buf n name (Inr d)) s of (rc, t) \<Rightarrow>
     rc = 0 \<and> length d \<le> n \<and> length name < FIRMWARE_NAME_SIZE \<and> hmem t = mem_write (unat buf) d (hmem s) \<and>
       fwi_size t = length d \<and> mem_bytes (hmem t) (unat buf) (length d) = d \<or>
     rc = - ENOBUFS \<and> n < length d \<and> hmem t = hmem s \<and> fwi_size t = fwi_size s \<or>
     rc = - ENODEV \<and> FIRMWARE_NAME_SIZE \<le> length name \<and> t = s"
  by (auto simp: la9310_udev_load_firmware_def mem_bytes_write_same not_less)

text \<open>
  the firmware buffer has one owner. A reservation succeeds exactly when nobody holds the
  buffer, the second of two reservations in a row is refused with -EBUSY, and after
  \<open>la9310_dev_free_firmware\<close> the next one succeeds.
\<close>

theorem firmware_reservation:
  "fst (run_state la9310_dev_reserve_firmware s) = (if fwi_busy s then - EBUSY else 0) \<and>
   fwi_busy (snd (run_state la9310_dev_reserve_firmware s)) \<and>
   fst (run_state (do { _ \<leftarrow> la9310_dev_reserve_firmware; la9310_dev_reserve_firmware }) s) = - EBUSY \<and>
   fst (run_state (do { la9310_dev_free_firmware; la9310_dev_reserve_firmware }) s) = 0"
  by (simp add: la9310_dev_reserve_firmware_def la9310_dev_free_firmware_def)

fun alloc_all :: "u32 list \<Rightarrow> ('a base_world_scheme, u32 list) state" where
  "alloc_all [] = ret []"
| "alloc_all (w # ws) = do {
     a \<leftarrow> la9310_alloc_ep_pcie_addr w;
     as \<leftarrow> alloc_all ws;
     ret (a # as)
   }"

text \<open>
  Outbound addresses. As long as the requested windows together stay below the limit,
  the k-th request gets the address where the windows before it end, so the windows are
  disjoint and inside the outbound space.
\<close>

theorem alloc_windows_disjoint:
  assumes "unat (win_current s) + sum_list (map unat ws) \<le> unat (win_limit s)"
  shows "map unat (fst (run_state (alloc_all ws) s)) =
    map (\<lambda>k. unat (win_current s) + sum_list (map unat (take k ws))) [0..<length ws]"
  using assms
proof (induction ws arbitrary: s)
  case Nil
  show ?case by simp
next
  case (Cons w ws)
  have lt: "unat (win_current s) + unat w < 2 ^ 32"
    using Cons.prems unsigned_less [of "win_limit s", where ?'a = nat] by simp
  have eq: "unat (win_current s + w) = unat (win_current s) + unat w"
    using lt unat_add_lem [of "win_current s" w] by simp
  then have "\<not> win_current s + w > win_limit s"
    using Cons.prems by (simp add: word_less_nat_alt)
  then show ?case
    using Cons.prems Cons.IH [of "s\<lparr>win_current := win_current s + w\<rparr>"] eq
    by (simp add: la9310_alloc_ep_pcie_addr_def split_beta upt_conv_Cons map_Suc_upt [symmetric]
        comp_def add.assoc del: upt_Suc)
qed

text \<open>
  The check of the allocator wraps around. From 0xB0000000 with the limit at 0xE0000000
  a request for 0x70000000 bytes, which ends beyond the 32-bit space, is granted, and the
  next window starts at 0x20000000, below the outbound space.
\<close>

theorem alloc_wraps:
  "run_state (la9310_alloc_ep_pcie_addr 0x70000000)
     (s\<lparr>win_current := 0xB0000000, win_limit := 0xE0000000\<rparr>) =
   (0xB0000000, s\<lparr>win_current := 0x20000000, win_limit := 0xE0000000\<rparr>)"
  by (simp add: la9310_alloc_ep_pcie_addr_def)

section \<open>Witnesses\<close>

definition sample_platform :: platform where
  "sample_platform =
     \<lparr>sizeof_hif = 0x800, ep_hif_size = 0x1000, hif_version = 0x10000,
      log_level_info = 0, atu_region_outbound = 0, atu_type_mem = 0,
      atu_enable = 0x80000000, msi_win = 0, scratch_win = 1, ipc_win = 2,
      iqflood_win = 3, msi_ep_addr = 0, dma_buf_ep_addr = 0xA0000000,
      huge_page_ep_addr = 0, iqflood_ep_addr = 0, iqflood_memaddr = 0,
      iqflood_memsize = 0, msi_ob_size = 0, outbound_base = 0xB0000000,
      boot_preamble = 0xAA55AA55, start_clock_config = 1, complete_clock_config = 2,
      start_driver_init = 3, freertos_load_addr = 0, boot_rsvd_ctrl = 0,
      ep_dma_phys_offset = (\<lambda>a. ucast a), amba_error_response = 0,
      pcie_abserr_setting = 0, ipc_max_channels = 2, msi_irq_ipc_1 = 1,
      msi_irq_ipc_2 = 2, msi_max_cnt = 8, ep_hif_offset = 0, hif_ipc_lib_ready = 0,
      mod_ready_ipc_lib = 1, irq_evt_last_bit = 16, irq_real_msi_bit = 31,
      ipc_evt_mask = 0, vspa_evt_mask = 0, test_evt_mask = 0,
      msi_irq_wdog = 5, msi_irq_v2h = 6\<rparr>"

definition no_region :: mem_region where
  "no_region = \<lparr>mr_phys_addr = 0, mr_vaddr = 0, mr_size = 0, mr_type = 0\<rparr>"

definition sample_base :: "bool \<Rightarrow> base_world" where
  "sample_base fenced =
     reg_world.extend (sample_reg fenced [])
       (base_world.fields (replicate 3 no_region) (no_region\<lparr>mr_vaddr := 0x10000000\<rparr>) 0xA0000000
          (replicate 7 no_region) [] False 0 0 0 0 0xB0000000 0xB0000000 0xE0000000 0x90000000
          0x4000000 True False False False)"

lemma sample_base_simps [simp]:
  "ep_bufs (sample_base f) = replicate 7 no_region" "win_current (sample_base f) = 0xB0000000"
  "win_limit (sample_base f) = 0xE0000000" "ep_pcie_addr (sample_base f) = 0xA0000000"
  "host_buf (sample_base f) = no_region\<lparr>mr_vaddr := 0x10000000\<rparr>" "fence_at (sample_base f) n = f"
  "bus (sample_base f) = []" "fwi_busy (sample_base f) = False"
  by (simp_all add: sample_base_def sample_reg_def sample_world_def vspa_world.defs reg_world.defs
      base_world.defs)

theorem dma_regions_layout_witness:
  "mr_vaddr (ep_bufs (snd (run_state (la9310_init_subdrv_dma_buf sample_platform) (sample_base False))) ! 1) =
     0x10200040"
  using dma_regions_layout [of "sample_base False" sample_platform]
  by (simp add: region_off_def plan_off_def region_plan_def no_region_def Let_def)

theorem alloc_windows_disjoint_witness:
  "map unat (fst (run_state (alloc_all [0x1000, 0x2000]) (sample_base False))) =
     [0xB0000000, 0xB0001000]"
  using alloc_windows_disjoint [of "sample_base False" "[0x1000, 0x2000]"] by (simp add: upt_rec)

end
