(* ===== verification/Vspa_Probe.thy ===== *)
theory Vspa_Probe
  imports Base
begin

text \<open>
  Bring-up and removal of the VSPA device, the end of la9310_main_vspa.c: reading the hardware
  parameters, zeroising the memories, booting from the registry, and the fallback to the image
  file of old installations when the registry is empty.
\<close>

definition VSPA_FW_NAME :: string where "VSPA_FW_NAME = ''apm.eld''"

abbreviation VSPA_CCSR_OFFSET :: u64 where "VSPA_CCSR_OFFSET \<equiv> 0x1000000"
abbreviation LA9310_VSPA_SIZE :: nat where "LA9310_VSPA_SIZE \<equiv> 0x10000"
abbreviation VSPA_MSG_ALL :: u32 where "VSPA_MSG_ALL \<equiv> 0xFFF0"
abbreviation DEBUG_MESSAGES :: u32 where "DEBUG_MESSAGES \<equiv> 1"

section \<open>Operations\<close>

definition vspa_reset_stats :: "vspa_device \<Rightarrow> vspa_device" where
  "vspa_reset_stats d = d\<lparr>vspa_loading_count := 0\<rparr>"

text \<open>The fallback. \<open>fw\<close>: what \<open>request_firmware\<close> answers for the file.\<close>

definition vspa_get_fw_image :: "int + u8 list \<Rightarrow> ('a base_world_scheme, int) state" where
  "vspa_get_fw_image fw = do {
     r \<leftarrow> gets ovl;
     width \<leftarrow> gets (\<lambda>s. axi_data_width (hardware (vd s)));
     rc \<leftarrow> la9310_dev_reserve_firmware;
     if rc < 0 then ret (- EFAULT)
     else do {
       rc \<leftarrow> la9310_udev_load_firmware (mr_vaddr r) LA9310_VSPA_FW_SIZE VSPA_FW_NAME fw;
       if rc < 0 then ret (- EFAULT)
       else do {
         n \<leftarrow> gets fwi_size;
         la9310_dev_free_firmware;
         modify (\<lambda>s. s\<lparr>ovl := r\<lparr>mr_vaddr := ptr_align (mr_vaddr r) width\<rparr>\<rparr>);
         rc \<leftarrow> la9310_load_vspa_image (unat (ptr_align (mr_vaddr r) width)) (word_of_nat n);
         if rc < 0 then ret (- EFAULT) else ret 0
       }
     }
   }"

definition decode_hw :: "u32 \<Rightarrow> u32 \<Rightarrow> u32 \<Rightarrow> vspa_hardware" where
  "decode_hw p0 p1 p2 =
     \<lparr>param0 = p0, param1 = p1, param2 = p2,
      axi_data_width = push_bit (unat (drop_bit 28 p1 AND 7)) 32,
      dma_channels = drop_bit 16 p1 AND 0xFF, gp_out_regs = drop_bit 8 p1 AND 0xFF,
      gp_in_regs = p1 AND 0xFF, dmem_bytes = (drop_bit 8 p2 AND 0x3FF) * 400,
      ippu_bytes = drop_bit 31 p2 * 4096, arithmetic_units = p2 AND 0xFF\<rparr>"

text \<open>The structure as \<open>kzalloc\<close> delivers it.\<close>

definition zero_device :: vspa_device where
  "zero_device =
     \<lparr>vs_state = VSPA_STATE_UNKNOWN, vs_debug = 0, vspa_dma_region = None, vspa_irq_no = 0,
      vs_mem_size = 0, vs_regs = 0, spm_buf_bytes = 0, spm_buf_paddr = 0, spm_dma_chan = 0,
      bulk_dma_chan = 0, reply_dma_chan = 0, cmd_dma_chan = 0, legacy_cmd_dma_chan = 0,
      eld_filename = [], rfnm_stats_ready = False,
      versions = \<lparr>vspa_hw_version = 0, ippu_hw_version = 0, vspa_sw_version = 0, ippu_sw_version = 0\<rparr>,
      hardware = \<lparr>param0 = 0, param1 = 0, param2 = 0, axi_data_width = 0, dma_channels = 0,
        gp_out_regs = 0, gp_in_regs = 0, dmem_bytes = 0, ippu_bytes = 0, arithmetic_units = 0\<rparr>,
      vs_poll_mask = 0, vspa_loading_count = 0,
      overlay_sec = replicate MAX_OVERLAY_SECTIONS
        \<lparr>ov_name = None, ov_dpram = \<lparr>dp_xfr_ctrl = 0, dp_offset = 0, dp_phys = 0, dp_size = 0\<rparr>\<rparr>,
      overlay_sec_loaded = None\<rparr>"

text \<open>The kernel's answers, and the virtual interrupt of the sub-driver (\<open>None\<close> is the null
  pointer the base passes when no event is mapped: it is read through without a check).\<close>

record vspa_env =
  vdev_mem :: bool
  vspa_virq :: "int option"
  vspa_irq_rc :: int
  zero_mem :: bool
  legacy_fw :: "int + u8 list"

definition vspa_probe :: "vspa_env \<Rightarrow> ('a base_world_scheme, int) state" where
  "vspa_probe e =
     (if \<not> vdev_mem e then ret (- ENOMEM)
      else do {
        ccsr \<leftarrow> gets (\<lambda>s. mem_regions s ! 0);
        let regs = mr_vaddr ccsr + VSPA_CCSR_OFFSET;
        if regs = 0 then ret (- EINVAL)
        else do {
          modify (\<lambda>s. s\<lparr>vd := zero_device\<lparr>vs_regs := regs\<rparr>\<rparr>);
          modify (\<lambda>s. s\<lparr>has_vspa := True\<rparr>);
          modify (\<lambda>s. s\<lparr>vspa_freed := False\<rparr>);
          r \<leftarrow> gets (la9310_get_dma_region LA9310_MEM_REGION_FW);
          if mr_vaddr r = 0 \<or> mr_size r = 0 then ret (- EADDRNOTAVAIL)
          else do {
            set_vd (\<lambda>d. d\<lparr>vspa_dma_region := Some r, vs_state := VSPA_STATE_UNKNOWN,
              vs_debug := DEBUG_MESSAGES, vs_mem_size := LA9310_VSPA_SIZE\<rparr>);
            p0 \<leftarrow> vspa_reg_read PARAM0_REG_OFFSET;
            p1 \<leftarrow> vspa_reg_read PARAM1_REG_OFFSET;
            p2 \<leftarrow> vspa_reg_read PARAM2_REG_OFFSET;
            set_vd (\<lambda>d. d\<lparr>hardware := decode_hw p0 p1 p2\<rparr>);
            hwv \<leftarrow> vspa_reg_read HWVERSION_REG_OFFSET;
            ihwv \<leftarrow> vspa_reg_read IPPU_HWVERSION_REG_OFFSET;
            set_vd (\<lambda>d. d\<lparr>versions := \<lparr>vspa_hw_version = hwv, ippu_hw_version = ihwv,
                vspa_sw_version = - 1, ippu_sw_version = - 1\<rparr>,
              eld_filename := [], vs_poll_mask := VSPA_MSG_ALL\<rparr>);
            val \<leftarrow> vspa_reg_read CONTROL_REG_OFFSET;
            vspa_reg_write CONTROL_REG_OFFSET ((val AND CONTROL_REG_MASK) OR CONTROL_PDN_EN);
            (case vspa_virq e of
               None \<Rightarrow> do { modify (\<lambda>s. s\<lparr>vfault := True\<rparr>); ret (- EFAULT) }
             | Some q \<Rightarrow>
                 if vspa_irq_rc e < 0 then ret (vspa_irq_rc e)
                 else do {
                   modify (\<lambda>s. s\<lparr>vspa_irq_held := True\<rparr>);
                   set_vd (\<lambda>d. d\<lparr>vspa_irq_no := q\<rparr>);
                   vspa_reg_write IRQEN_REG_OFFSET 0;
                   set_vd (\<lambda>d. d\<lparr>vs_state := VSPA_STATE_LOADING\<rparr>);
                   err \<leftarrow> vspa_mem_initialization (zero_mem e);
                   if err < 0 then ret err
                   else do {
                     err \<leftarrow> rfnm_vspa_probe_boot;
                     if err = - ENOENT then do {
                       g \<leftarrow> vspa_get_fw_image (legacy_fw e);
                       (if g \<noteq> 0 then ret 0
                        else do {
                          st \<leftarrow> startup;
                          (if st \<noteq> 0 then ret 0
                           else do {
                             set_vd (\<lambda>d. d\<lparr>eld_filename := cstr VSPA_FW_NAME\<rparr>);
                             rfnm_vspa_boot_tail;
                             ret 0
                           })
                        })
                     }
                     else if err \<noteq> 0 then ret (- EBADRQC)
                     else ret 0
                   }
                 })
          }
        }
      })"

text \<open>The device structure is given back and the pointer to it stays. It is a fault to release the
  interrupt when it is not held (a probe that failed before it was requested) or to use the
  structure a second time.\<close>

definition vspa_remove :: "('a base_world_scheme, int) state" where
  "vspa_remove = do {
     present \<leftarrow> gets has_vspa;
     if \<not> present then ret 0
     else do {
       modify (\<lambda>s. s\<lparr>vfault := (vfault s \<or> \<not> vspa_irq_held s \<or> vspa_freed s)\<rparr>);
       modify (\<lambda>s. s\<lparr>vspa_irq_held := False\<rparr>);
       modify (\<lambda>s. s\<lparr>vspa_freed := True\<rparr>);
       ret 0
     }
   }"

section \<open>Hardware parameters\<close>

lemma top_bit_cases:
  fixes w :: "32 word"
  shows "drop_bit 31 w = 0 \<or> drop_bit 31 w = 1"
proof -
  have "drop_bit 31 w = w div 2 ^ 31" by (simp add: drop_bit_eq_div)
  moreover have "unat (w div 2 ^ 31) < 2"
    using unsigned_less [of w, where ?'a = nat] by (simp add: unat_div less_mult_imp_div_less)
  then have "unat (w div 2 ^ 31) = 0 \<or> unat (w div 2 ^ 31) = 1" by linarith
  then have "w div 2 ^ 31 = 0 \<or> w div 2 ^ 31 = 1"
    using word_unat_eq_iff [of "w div 2 ^ 31" 0] word_unat_eq_iff [of "w div 2 ^ 31" 1] by auto
  ultimately show ?thesis by simp
qed
text \<open>
  Whatever the parameter registers hold, the bus width is a power of two between 32 and
  4096 bits, the data memory has at most 409200 bytes and the IPPU memory 0 or 4096. The largest
  data memory is larger than the 262144 zero bytes that the zeroise pass copies from.
\<close>

theorem hw_parameters_bounded:
  "(\<exists>k \<le> 7. axi_data_width (decode_hw p0 p1 p2) = push_bit k 32) \<and>
   unat (dmem_bytes (decode_hw p0 p1 p2)) \<le> 409200 \<and>
   ippu_bytes (decode_hw p0 p1 p2) \<in> {0, 4096} \<and>
   unat (dmem_bytes (decode_hw p0 p1 0x3FF00)) = 409200 \<and> zero_buf_bytes < 409200"
proof -
  have "unat (drop_bit 28 p1 AND 7) \<le> 7"
    using word_and_le1 [of "drop_bit 28 p1" 7] by (simp add: word_le_nat_alt)
  moreover have "drop_bit 8 p2 AND 0x3FF \<le> 0x3FF" by (rule word_and_le1)
  then have "unat ((drop_bit 8 p2 AND 0x3FF) * 400) \<le> 409200"
    by (simp add: word_le_nat_alt unat_mult_lem [THEN iffD1])
  ultimately show ?thesis using top_bit_cases [of p2] by (auto simp: decode_hw_def)
qed

section \<open>The fence during a probe\<close>

text \<open>Under the fence reads answer 0; the device structure is tracked as well.\<close>

lemma wp_read_up:
  fixes s :: "'a base_world_scheme"
  assumes "\<forall>n. fence_at s n"
    and "\<And>t. bus t = bus s \<Longrightarrow> \<forall>n. fence_at t n \<Longrightarrow> vd t = vd s \<Longrightarrow> Q 0 t"
  shows "wp (vspa_reg_read a) Q s"
  using assms by (simp add: wp_iff_run vspa_reg_read_def rfnm_la9310_mmio_fenced_def)

lemma wp_write_up:
  fixes s :: "'a base_world_scheme"
  assumes "\<forall>n. fence_at s n"
    and "\<And>t. bus t = bus s \<Longrightarrow> \<forall>n. fence_at t n \<Longrightarrow> vd t = vd s \<Longrightarrow> Q () t"
  shows "wp (vspa_reg_write a v) Q s"
  using assms by (simp add: wp_iff_run vspa_reg_write_def rfnm_la9310_mmio_fenced_def)

lemma mem_init_up:
  fixes s :: "'a vspa_world_scheme"
  assumes "\<forall>n. fence_at s n" and "hardware (vd s) = decode_hw 0 0 0"
  shows "fst (run_state (vspa_mem_initialization ok) s) < 0"
proof -
  have hw: "dmem_bytes (decode_hw 0 0 0) = 0" "ippu_bytes (decode_hw 0 0 0) = 0"
    by (simp_all add: decode_hw_def)
  have "fst (run_state (zeroise_loop (decode_hw 0 0 0) r 0x8000 0) s) = - ECOMM" for r
    using assms(1)
    by (subst zeroise_loop.simps)
      (simp add: zeroise_bytes_def hw stage_copy_def dma_raw_transmit_fenced EBUSY_def)
  then show ?thesis
    using assms(2) by (simp add: vspa_mem_initialization_def hw errno_defs split: option.splits)
qed

lemma wp_mem_init_up:
  fixes s :: "'a base_world_scheme"
  assumes "\<forall>n. fence_at s n" and "hardware (vd s) = decode_hw 0 0 0"
    and "\<And>rc t. bus t = bus s \<Longrightarrow> \<forall>n. fence_at t n \<Longrightarrow> rc < 0 \<Longrightarrow> Q rc t"
  shows "wp (vspa_mem_initialization ok) Q s"
  using mem_init_up [OF assms(1,2), of ok] assms fq.rel_run [OF mem_init_quiet, of s ok]
  by (simp add: wp_iff_run fence_quiet_def)

text \<open>
  A VSPA probe while the fence is up never succeeds and never touches the link, whatever
  the kernel answers: the zeroise pass is refused by the transfer routine.
\<close>

theorem vspa_probe_fenced:
  assumes "\<forall>n. fence_at s n"
  shows "case run_state (vspa_probe e) s of (rc, t) \<Rightarrow> rc \<noteq> 0 \<and> bus t = bus s"
proof -
  have "wp (vspa_probe e) (\<lambda>rc t. rc \<noteq> 0 \<and> bus t = bus s) s"
    unfolding vspa_probe_def Let_def
    using assms
    by (intro wp_steps wp_ifI wp_optionI wp_read_up wp_write_up wp_mem_init_up)
      (simp_all add: errno_defs)
  then show ?thesis by (simp add: wp_def)
qed

text \<open>
  the fallback image loader does not give the firmware buffer back when the file cannot be
  loaded: on the cold-boot path without the file the buffer stays reserved and the next
  reservation is refused.
\<close>

theorem fallback_keeps_reservation:
  "case run_state (vspa_get_fw_image (Inl (- ENOENT))) (s\<lparr>fwi_busy := False\<rparr>) of (rc, t) \<Rightarrow>
     rc = - EFAULT \<and> fst (run_state la9310_dev_reserve_firmware t) = - EBUSY"
  by (simp add: vspa_get_fw_image_def la9310_dev_reserve_firmware_def la9310_udev_load_firmware_def
      VSPA_FW_NAME_def errno_defs)

theorem vspa_probe_fenced_witness:
  "fst (run_state (vspa_probe \<lparr>vdev_mem = True, vspa_virq = Some 40, vspa_irq_rc = 0, zero_mem = True,
     legacy_fw = Inl (- ENOENT)\<rparr>) (sample_base True)) \<noteq> 0"
  using vspa_probe_fenced [of "sample_base True" "\<lparr>vdev_mem = True, vspa_virq = Some 40,
     vspa_irq_rc = 0, zero_mem = True, legacy_fw = Inl (- ENOENT)\<rparr>"]
  by (simp add: split_beta)

end
