(* ===== verification/Boot.thy ===== *)
theory Boot
  imports Base
begin

text \<open>
  The boot of the endpoint's processor, la9310_boot.c: the RTOS image is staged in the DMA
  region for firmware, the boot header in the endpoint's memory is filled in with the preamble
  last, and two handshakes over a scratch register follow. The interrupt-driven variant of the
  reset handshake is modelled (the polling one is not compiled in); the time-out of the first
  wait is the environment's \<open>poll_reads\<close>.
\<close>

abbreviation scratch_reg :: waddr where "scratch_reg \<equiv> Ccsr ''scratchrw[BOOT_HSHAKE]''"

definition FIRMWARE_RTOS :: string where "FIRMWARE_RTOS = ''la9310.bin''"

definition la9310_wait_for_boot_scratch :: "u32 \<Rightarrow> ('a mmio_scheme, int) state" where
  "la9310_wait_for_boot_scratch expected = do {
     n \<leftarrow> gets poll_reads;
     readl_poll n (\<lambda>v. v = expected) scratch_reg
   }"

definition la9310_do_reset_handshake :: "platform \<Rightarrow> ('a mmio_scheme, int) state" where
  "la9310_do_reset_handshake p = do {
     raw_write scratch_reg (complete_clock_config p);
     scratch_val \<leftarrow> raw_read scratch_reg;
     if scratch_val \<noteq> start_driver_init p then ret (- EINVAL) else ret 0
   }"

definition la9310_load_rtos_img :: "platform \<Rightarrow> int + u8 list \<Rightarrow> ('a base_world_scheme, int) state" where
  "la9310_load_rtos_img p fw = do {
     raw_write (Ccsr ''AMBA_ERROR_RESPONSE_DEFAULT'') (amba_error_response p);
     r \<leftarrow> gets (la9310_get_dma_region LA9310_MEM_REGION_FW);
     rc \<leftarrow> la9310_dev_reserve_firmware;
     if rc \<noteq> 0 then ret rc
     else do {
       rc \<leftarrow> la9310_udev_load_firmware (mr_vaddr r) (mr_size r) FIRMWARE_RTOS fw;
       la9310_dev_free_firmware;
       if rc \<noteq> 0 then ret rc
       else do {
         fw_size \<leftarrow> gets fwi_size;
         raw_write (BootHdr ''bl_src_offset'') (ep_dma_phys_offset p (mr_phys_addr r));
         raw_write (BootHdr ''bl_size'') (word_of_nat fw_size);
         raw_write (BootHdr ''bl_dest'') (freertos_load_addr p);
         raw_write (BootHdr ''bl_entry'') (freertos_load_addr p);
         raw_write (BootHdr ''reserved'') (boot_rsvd_ctrl p);
         raw_write (BootHdr ''preamble'') (boot_preamble p);
         rc \<leftarrow> la9310_wait_for_boot_scratch (start_clock_config p);
         if rc \<noteq> 0 then ret (- EINVAL) else ret 0
       }
     }
   }"

section \<open>Properties\<close>

text \<open>The accesses that fill in the boot header for \<open>n\<close> bytes at the region's address: the
  ROM starts the image when it sees the preamble.\<close>

definition header_writes :: "platform \<Rightarrow> mem_region \<Rightarrow> nat \<Rightarrow> bus_op list" where
  "header_writes p r n =
     [Wr (BootHdr ''bl_src_offset'') (ep_dma_phys_offset p (mr_phys_addr r)),
      Wr (BootHdr ''bl_size'') (word_of_nat n), Wr (BootHdr ''bl_dest'') (freertos_load_addr p),
      Wr (BootHdr ''bl_entry'') (freertos_load_addr p), Wr (BootHdr ''reserved'') (boot_rsvd_ctrl p),
      Wr (BootHdr ''preamble'') (boot_preamble p)]"

lemma bus_step_base:
  fixes s t :: "'a base_world_scheme"
  shows "bus_step s t b \<Longrightarrow> bus t = bus s @ b \<and> hmem t = hmem s \<and> fwi_busy t = fwi_busy s"
  unfolding bus_step_def by (elim ssubst) simp

definition rtos_started ::
  "platform \<Rightarrow> u8 list \<Rightarrow> 'a base_world_scheme \<Rightarrow> int \<Rightarrow> 'a base_world_scheme \<Rightarrow> bool" where
  "rtos_started p d s rc t \<longleftrightarrow>
     (let r = la9310_get_dma_region LA9310_MEM_REGION_FW s in
      \<exists>b rc0.
        bus t = bus s @ Wr (Ccsr ''AMBA_ERROR_RESPONSE_DEFAULT'') (amba_error_response p) #
          header_writes p r (length d) @ b \<and>
        poll_trace scratch_reg (\<lambda>v. v = start_clock_config p) rc0 b \<and>
        rc = (if rc0 = 0 then 0 else - EINVAL) \<and>
        hmem t = mem_write (unat (mr_vaddr r)) d (hmem s) \<and> \<not> fwi_busy t)"

lemma load_rtos_run:
  assumes "\<not> fwi_busy s" and "length d \<le> mr_size (la9310_get_dma_region LA9310_MEM_REGION_FW s)"
  shows "wp (la9310_load_rtos_img p (Inr d)) (rtos_started p d s) s"
  using assms
  unfolding la9310_load_rtos_img_def la9310_dev_reserve_firmware_def la9310_udev_load_firmware_def
    la9310_dev_free_firmware_def la9310_wait_for_boot_scratch_def raw_write_def
  apply (simp add: wp_eqs la9310_get_dma_region_def FIRMWARE_RTOS_def)
  apply (rule wp_readl_poll_trace)
  apply (drule bus_step_base)
  apply (simp add: wp_eqs rtos_started_def Let_def la9310_get_dma_region_def header_writes_def)
  apply blast
  done

text \<open>
  Starting the endpoint's processor. With the firmware buffer in use or an image larger
  than the staging region the boot header is never touched. Otherwise the image's bytes are in
  the staging region, and the bus shows the header fields that describe them in order, the
  preamble last, and then only reads of the scratch register: the call succeeds exactly when
  the last of them shows the expected value. The firmware buffer is released again.
\<close>

theorem rtos_boot_order:
  "case run_state (la9310_load_rtos_img p (Inr d)) s of (rc, t) \<Rightarrow>
     (if fwi_busy s then rc = - EBUSY \<and> fwi_busy t \<and> hmem t = hmem s \<and>
        bus t = bus s @ [Wr (Ccsr ''AMBA_ERROR_RESPONSE_DEFAULT'') (amba_error_response p)]
      else if mr_size (la9310_get_dma_region LA9310_MEM_REGION_FW s) < length d then
        rc = - ENOBUFS \<and> \<not> fwi_busy t \<and> hmem t = hmem s \<and>
        bus t = bus s @ [Wr (Ccsr ''AMBA_ERROR_RESPONSE_DEFAULT'') (amba_error_response p)]
      else rtos_started p d s rc t)"
proof (cases "fwi_busy s \<or> mr_size (la9310_get_dma_region LA9310_MEM_REGION_FW s) < length d")
  case True
  then show ?thesis
    by (auto simp: la9310_load_rtos_img_def la9310_dev_reserve_firmware_def
        la9310_udev_load_firmware_def la9310_dev_free_firmware_def raw_write_def FIRMWARE_RTOS_def
        la9310_get_dma_region_def errno_defs)
next
  case False
  with load_rtos_run [of s d p] show ?thesis by (simp add: wp_def not_less)
qed

text \<open>
  The reset handshake acknowledges the clock configuration first and succeeds exactly
  when the scratch register then asks for the start of the driver.
\<close>

theorem reset_handshake_outcome:
  "case run_state (la9310_do_reset_handshake p) s of (rc, t) \<Rightarrow>
     \<exists>v. bus_step s t [Wr scratch_reg (complete_clock_config p), Rd scratch_reg v] \<and>
       rc = (if v = start_driver_init p then 0 else - EINVAL)"
  unfolding split_beta
  by (rule exI [of _ "dev_read s (tick s) scratch_reg"])
    (simp add: la9310_do_reset_handshake_def raw_write_def raw_read_def bus_step_def)

end
