(* ===== verification/Irq_Mux.thy ===== *)
theory Irq_Mux
  imports Boot
begin

text \<open>
  The virtual interrupt controller of la9310_irq_mux.c: one message interrupt of the endpoint
  stands for up to 255 events whose enable, status and clear bits are words of a block in the
  host interface; the handler demultiplexes them to virtual interrupts. Also the table of
  virtual interrupts a sub-driver gets (la9310_base.c).

  \<open>dispatched\<close> records the calls of \<open>generic_handle_irq\<close>. A pointer to the multiplexer can be
  null, live, or refer to memory that was given back.
\<close>

section \<open>Data\<close>

record virq_evt_map =
  evt :: nat
  virq :: int

record irq_mux_stats =
  num_virq_evt_raised :: u64
  num_hw_irq_recv :: u64
  num_msg_unit_irq_evt_raised :: u64

text \<open>The register pointers are word offsets into the event block.\<close>

record irq_mux_pram =
  irq_base :: int
  irq_evt_cfg_reg :: nat
  irq_evt_en_reg :: nat
  irq_evt_sts_reg :: nat
  irq_evt_clr_reg :: nat
  irq_stats :: irq_mux_stats
  num_irq :: nat
  virq_map :: "virq_evt_map list"

datatype irq_ptr = PNull | PLive irq_mux_pram | PFreed

text \<open>\<open>irq_tab\<close>, \<open>irq_count\<close> and \<open>dev_flags\<close> are the fields \<open>irq\<close>, \<open>irq_count\<close> and \<open>flags\<close> of
  the device (la9310_base.h); \<open>stats_nodes\<close> counts the nodes on the device's list of statistics; \<open>irq_descs\<close> is
  whether interrupt descriptors are allocated; \<open>mux_irq\<close> whether the message interrupt of the
  multiplexer is requested; \<open>uaf\<close> whether freed memory was used.\<close>

record irq_info =
  irq_val :: int
  msi_val :: int
  irq_free :: u32

record irq_world = base_world +
  irq_tab :: "irq_info list"
  irq_count :: int
  dev_flags :: u32
  irq_priv :: irq_ptr
  irq_descs :: bool
  mux_irq :: bool
  virq_leak :: nat
  stats_nodes :: nat
  dispatched :: "int list"
  uaf :: bool

text \<open>The number of events per word is taken to be the width of the words.\<close>

abbreviation EVT_BTS_PER_WRD :: nat where "EVT_BTS_PER_WRD \<equiv> 32"

abbreviation set_mux :: "(irq_mux_pram \<Rightarrow> irq_mux_pram) \<Rightarrow> ('a irq_world_scheme, unit) state" where
  "set_mux f \<equiv> modify (\<lambda>s. s\<lparr>irq_priv := (case irq_priv s of PLive m \<Rightarrow> PLive (f m) | q \<Rightarrow> q)\<rparr>)"

section \<open>Operations\<close>

definition nirq_of :: "u32 \<Rightarrow> nat" where
  "nirq_of cfg = unat (drop_bit 8 (cfg AND 0xff00))"

definition nwords_of :: "u32 \<Rightarrow> nat" where
  "nwords_of cfg = unat (cfg AND 0xff)"

text \<open>\<open>base\<close>: what \<open>irq_alloc_descs\<close> returns.\<close>

definition la9310_init_irq_mux :: "int \<Rightarrow> ('a irq_world_scheme, int) state" where
  "la9310_init_irq_mux base = do {
     cfg \<leftarrow> raw_read (IrqEvt 0);
     set_mux (\<lambda>m. m\<lparr>irq_evt_cfg_reg := 0, irq_evt_en_reg := 1, irq_evt_sts_reg := 1 + nwords_of cfg,
                    irq_evt_clr_reg := 1 + nwords_of cfg + nwords_of cfg, irq_base := base\<rparr>);
     modify (\<lambda>s. s\<lparr>irq_descs := (irq_descs s \<or> base \<ge> 0)\<rparr>);
     ret base
   }"

definition la9310_reset_irq_mux_stats :: "irq_mux_stats \<Rightarrow> irq_mux_stats" where
  "la9310_reset_irq_mux_stats st =
     st\<lparr>num_virq_evt_raised := 0, num_hw_irq_recv := 0, num_msg_unit_irq_evt_raised := 0\<rparr>"

definition la9310_set_imask :: "irq_mux_pram \<Rightarrow> int \<Rightarrow> bool \<Rightarrow> ('a mmio_scheme, unit) state" where
  "la9310_set_imask m irq set_flg =
     (let irq_bit = nat (irq - irq_base m);
          reg = IrqEvt (irq_evt_en_reg m + irq_bit div EVT_BTS_PER_WRD)
      in do {
        v \<leftarrow> raw_read reg;
        raw_write reg (if set_flg then set_bit (irq_bit mod EVT_BTS_PER_WRD) v
                       else unset_bit (irq_bit mod EVT_BTS_PER_WRD) v)
      })"

definition la9310_irq_mask :: "irq_mux_pram \<Rightarrow> int \<Rightarrow> ('a mmio_scheme, unit) state" where
  "la9310_irq_mask m irq = la9310_set_imask m irq False"

definition la9310_irq_unmask :: "irq_mux_pram \<Rightarrow> int \<Rightarrow> ('a mmio_scheme, unit) state" where
  "la9310_irq_unmask m irq = la9310_set_imask m irq True"

definition create_virq_bit_map :: "nat \<Rightarrow> irq_mux_pram \<Rightarrow> irq_mux_pram" where
  "create_virq_bit_map last_bit m =
     m\<lparr>virq_map :=
       fold (\<lambda>i vs. vs[i := \<lparr>evt = i, virq = irq_base m + int i\<rparr>]) [0..<min last_bit (num_irq m)]
         (virq_map m)\<rparr>"

text \<open>\<open>la9310_host_add_stats\<close> as seen from here: a node more, or -ENOMEM.\<close>

definition add_stats_node :: "bool \<Rightarrow> ('a irq_world_scheme, int) state" where
  "add_stats_node ok =
     (if ok then do { modify (\<lambda>s. s\<lparr>stats_nodes := stats_nodes s + 1\<rparr>); ret 0 }
      else ret (- ENOMEM))"

definition la9310_init_irq_stats :: "bool \<Rightarrow> ('a irq_world_scheme, int) state" where
  "la9310_init_irq_stats ok = add_stats_node ok"

text \<open>What the kernel answers while the multiplexer is set up.\<close>

record irq_env =
  mux_mem :: bool
  map_mem :: bool
  descs_base :: int
  stats_ok :: bool
  request_rc :: int

definition la9310_probe_irq_mux :: "platform \<Rightarrow> irq_env \<Rightarrow> ('a irq_world_scheme, int) state" where
  "la9310_probe_irq_mux p e = do {
     cfg \<leftarrow> raw_read (IrqEvt 0);
     let n = nirq_of cfg;
     if \<not> mux_mem e then ret (- ENOMEM)
     else if \<not> map_mem e then ret (- ENOMEM)
     else do {
       modify (\<lambda>s. s\<lparr>irq_priv := PLive
         \<lparr>irq_base = 0, irq_evt_cfg_reg = 0, irq_evt_en_reg = 0, irq_evt_sts_reg = 0,
          irq_evt_clr_reg = 0, irq_stats = \<lparr>num_virq_evt_raised = 0, num_hw_irq_recv = 0,
            num_msg_unit_irq_evt_raised = 0\<rparr>,
          num_irq = n, virq_map = replicate n \<lparr>evt = 0, virq = 0\<rparr>\<rparr>\<rparr>);
       base \<leftarrow> la9310_init_irq_mux (descs_base e);
       if base < 0 then do {
         modify (\<lambda>s. s\<lparr>irq_priv := PFreed\<rparr>);
         ret base
       }
       else do {
         set_mux (create_virq_bit_map (irq_evt_last_bit p));
         rc \<leftarrow> la9310_init_irq_stats (stats_ok e);
         if rc < 0 then do {
           modify (\<lambda>s. s\<lparr>irq_priv := PFreed\<rparr>);
           ret rc
         }
         else ret rc
       }
     }
   }"

definition la9310_irq_processed :: "irq_mux_pram \<Rightarrow> int \<Rightarrow> ('a irq_world_scheme, unit) state" where
  "la9310_irq_processed m irq =
     (let irq_bit = nat (irq - irq_base m);
          reg = IrqEvt (irq_evt_clr_reg m + irq_bit div EVT_BTS_PER_WRD)
      in do {
        v \<leftarrow> raw_read reg;
        raw_write reg (set_bit (irq_bit mod EVT_BTS_PER_WRD) v);
        raw_write (MsgUnitId ''LA9310_MSG_UNIT_1'') 0;
        set_mux (\<lambda>m. m\<lparr>irq_stats := (irq_stats m)\<lparr>num_msg_unit_irq_evt_raised :=
          num_msg_unit_irq_evt_raised (irq_stats m) + 1\<rparr>\<rparr>)
      })"

text \<open>The handler's two loops: bits of one word, words.\<close>

fun handle_bits :: "irq_mux_pram \<Rightarrow> int \<Rightarrow> u32 \<Rightarrow> u32 \<Rightarrow> nat list \<Rightarrow> ('a irq_world_scheme, unit) state" where
  "handle_bits m base sts en [] = ret ()"
| "handle_bits m base sts en (i # is) = do {
     (if bit sts i \<and> bit en i then do {
        modify (\<lambda>s. s\<lparr>dispatched := dispatched s @ [base + int i]\<rparr>);
        la9310_irq_processed m (base + int i);
        set_mux (\<lambda>m. m\<lparr>irq_stats := (irq_stats m)\<lparr>num_virq_evt_raised :=
          num_virq_evt_raised (irq_stats m) + 1\<rparr>\<rparr>)
      }
      else ret ());
     handle_bits m base sts en is
   }"

fun handle_words :: "irq_mux_pram \<Rightarrow> nat list \<Rightarrow> ('a irq_world_scheme, unit) state" where
  "handle_words m [] = ret ()"
| "handle_words m (j # js) = do {
     sts \<leftarrow> raw_read (IrqEvt (irq_evt_sts_reg m + j));
     en \<leftarrow> raw_read (IrqEvt (irq_evt_en_reg m + j));
     handle_bits m (irq_base m + int (j * EVT_BTS_PER_WRD)) sts en
       [0..<(if num_irq m < EVT_BTS_PER_WRD then num_irq m else EVT_BTS_PER_WRD)];
     handle_words m js
   }"

definition la9310_irq_handler :: "('a irq_world_scheme, unit) state" where
  "la9310_irq_handler = do {
     q \<leftarrow> gets irq_priv;
     (case q of
        PLive m \<Rightarrow> do {
          f \<leftarrow> rfnm_la9310_mmio_fenced;
          if f then ret ()
          else do {
            cfg \<leftarrow> raw_read (IrqEvt (irq_evt_cfg_reg m));
            set_mux (\<lambda>m. m\<lparr>irq_stats := (irq_stats m)\<lparr>num_hw_irq_recv :=
              num_hw_irq_recv (irq_stats m) + 1\<rparr>\<rparr>);
            handle_words m [0..<nwords_of cfg]
          }
        }
      | _ \<Rightarrow> modify (\<lambda>s. s\<lparr>uaf := True\<rparr>))
   }"

definition la9310_request_irq :: "platform \<Rightarrow> irq_env \<Rightarrow> ('a irq_world_scheme, int) state" where
  "la9310_request_irq p e = do {
     cfg \<leftarrow> raw_read (IrqEvt 0);
     _ \<leftarrow> la9310_create_outbound_msi p;
     if nirq_of cfg = 0 then ret (- EINVAL)
     else do {
       err \<leftarrow> la9310_probe_irq_mux p e;
       if err \<noteq> 0 then ret err
       else if request_rc e = 0 then do {
         modify (\<lambda>s. s\<lparr>mux_irq := True\<rparr>);
         ret 0
       }
       else do {
         modify (\<lambda>s. s\<lparr>irq_descs := False, irq_priv := PNull, virq_leak := virq_leak s + 1\<rparr>);
         ret (request_rc e)
       }
     }
   }"

definition la9310_clean_request_irq :: "('a irq_world_scheme, int) state" where
  "la9310_clean_request_irq = do {
     cfg \<leftarrow> raw_read (IrqEvt 0);
     q \<leftarrow> gets irq_priv;
     (case q of
        PNull \<Rightarrow> ret ()
      | PFreed \<Rightarrow> modify (\<lambda>s. s\<lparr>uaf := True\<rparr>)
      | PLive m \<Rightarrow> do {
          (if nirq_of cfg \<noteq> 0 \<and> irq_base m \<noteq> 0 then modify (\<lambda>s. s\<lparr>irq_descs := False\<rparr>) else ret ());
          modify (\<lambda>s. s\<lparr>irq_priv := PFreed\<rparr>)
        });
     ret 0
   }"

section \<open>The virtual interrupts of a sub-driver\<close>

datatype subdrv_type = SUBDRV_VSPA | SUBDRV_IPC | SUBDRV_WDOG | SUBDRV_V2H | SUBDRV_TEST

text \<open>The events of the multiplexer's table whose bit is in the mask.\<close>

definition subdrv_virqmap_masked :: "virq_evt_map list \<Rightarrow> nat \<Rightarrow> u32 \<Rightarrow> virq_evt_map list" where
  "subdrv_virqmap_masked vm n msk = filter (\<lambda>v. bit msk (evt v)) (take n vm)"

definition la9310_get_subdrv_virqmap ::
  "platform \<Rightarrow> (string \<Rightarrow> int) \<Rightarrow> irq_mux_pram \<Rightarrow> subdrv_type \<Rightarrow> virq_evt_map list" where
  "la9310_get_subdrv_virqmap p msi_irq m ty =
     (case ty of
        SUBDRV_IPC \<Rightarrow> subdrv_virqmap_masked (virq_map m) (num_irq m) (ipc_evt_mask p)
      | SUBDRV_VSPA \<Rightarrow> subdrv_virqmap_masked (virq_map m) (num_irq m) (vspa_evt_mask p)
      | SUBDRV_TEST \<Rightarrow> subdrv_virqmap_masked (virq_map m) (num_irq m) (test_evt_mask p)
      | SUBDRV_WDOG \<Rightarrow> [\<lparr>evt = irq_real_msi_bit p, virq = msi_irq ''MSI_IRQ_WDOG''\<rparr>]
      | SUBDRV_V2H \<Rightarrow> [\<lparr>evt = irq_real_msi_bit p, virq = msi_irq ''MSI_IRQ_V2H''\<rparr>])"

section \<open>Dispatch\<close>

definition pending :: "irq_mux_pram \<Rightarrow> nat \<Rightarrow> u32 \<Rightarrow> u32 \<Rightarrow> int list" where
  "pending m j sts en =
     map (\<lambda>i. irq_base m + int (j * EVT_BTS_PER_WRD) + int i)
       (filter (\<lambda>i. bit sts i \<and> bit en i) [0..<min (num_irq m) EVT_BTS_PER_WRD])"

text \<open>What the bus shows for a list of dispatched interrupts: the clear bit of each is set and
  the endpoint is told.\<close>

fun ack_trace :: "irq_mux_pram \<Rightarrow> int list \<Rightarrow> bus_op list \<Rightarrow> bool" where
  "ack_trace m [] b \<longleftrightarrow> b = []"
| "ack_trace m (q # qs) b \<longleftrightarrow>
     (let k = nat (q - irq_base m); r = IrqEvt (irq_evt_clr_reg m + k div EVT_BTS_PER_WRD) in
      \<exists>v c. b = Rd r v # Wr r (set_bit (k mod EVT_BTS_PER_WRD) v) # Wr (MsgUnitId ''LA9310_MSG_UNIT_1'') 0 # c \<and> ack_trace m qs c)"

fun words_trace :: "irq_mux_pram \<Rightarrow> nat list \<Rightarrow> bus_op list \<Rightarrow> int list \<Rightarrow> bool" where
  "words_trace m [] b d \<longleftrightarrow> b = [] \<and> d = []"
| "words_trace m (j # js) b d \<longleftrightarrow>
     (\<exists>sts en a c e.
        b = Rd (IrqEvt (irq_evt_sts_reg m + j)) sts # Rd (IrqEvt (irq_evt_en_reg m + j)) en # a @ c \<and>
        d = pending m j sts en @ e \<and> ack_trace m (pending m j sts en) a \<and> words_trace m js c e)"

lemma handle_bits_run:
  "\<exists>b. bus (snd (run_state (handle_bits m base sts en ks) s)) = bus s @ b \<and>
     dispatched (snd (run_state (handle_bits m base sts en ks) s)) =
       dispatched s @ map (\<lambda>i. base + int i) (filter (\<lambda>i. bit sts i \<and> bit en i) ks) \<and>
     ack_trace m (map (\<lambda>i. base + int i) (filter (\<lambda>i. bit sts i \<and> bit en i) ks)) b"
proof (induction ks arbitrary: s)
  case Nil
  show ?case by simp
next
  case (Cons i ks)
  show ?case
  proof (cases "bit sts i \<and> bit en i")
    case False
    with Cons.IH [of s] show ?thesis by auto
  next
    case True
    let ?k = "nat (base + int i - irq_base m)"
    let ?r = "IrqEvt (irq_evt_clr_reg m + ?k div EVT_BTS_PER_WRD)"
    let ?v = "dev_read s (tick s) ?r"
    let ?t = "snd (run_state (do {
        modify (\<lambda>s. s\<lparr>dispatched := dispatched s @ [base + int i]\<rparr>);
        la9310_irq_processed m (base + int i);
        set_mux (\<lambda>m. m\<lparr>irq_stats := (irq_stats m)\<lparr>num_virq_evt_raised :=
          num_virq_evt_raised (irq_stats m) + 1\<rparr>\<rparr>) }) s)"
    have t: "bus ?t = bus s @ [Rd ?r ?v, Wr ?r (set_bit (?k mod EVT_BTS_PER_WRD) ?v), Wr (MsgUnitId ''LA9310_MSG_UNIT_1'') 0]"
      "dispatched ?t = dispatched s @ [base + int i]"
      by (simp_all add: la9310_irq_processed_def Let_def raw_read_def raw_write_def)
    have run: "snd (run_state (handle_bits m base sts en (i # ks)) s) =
        snd (run_state (handle_bits m base sts en ks) ?t)"
      using True by (simp add: split_beta)
    from Cons.IH [of ?t] obtain b where b:
      "bus (snd (run_state (handle_bits m base sts en ks) ?t)) = bus ?t @ b"
      "dispatched (snd (run_state (handle_bits m base sts en ks) ?t)) =
         dispatched ?t @ map (\<lambda>i. base + int i) (filter (\<lambda>i. bit sts i \<and> bit en i) ks)"
      "ack_trace m (map (\<lambda>i. base + int i) (filter (\<lambda>i. bit sts i \<and> bit en i) ks)) b"
      by blast
    show ?thesis
      unfolding run b t using True b(3)
      by (intro exI [of _ "[Rd ?r ?v, Wr ?r (set_bit (?k mod EVT_BTS_PER_WRD) ?v), Wr (MsgUnitId ''LA9310_MSG_UNIT_1'') 0] @ b"])
        (simp add: Let_def)
  qed
qed

lemma handle_words_run:
  "\<exists>b d. bus (snd (run_state (handle_words m js) s)) = bus s @ b \<and>
     dispatched (snd (run_state (handle_words m js) s)) = dispatched s @ d \<and> words_trace m js b d"
proof (induction js arbitrary: s)
  case Nil
  show ?case by simp
next
  case (Cons j js)
  let ?s1 = "snd (run_state (raw_read (IrqEvt (irq_evt_sts_reg m + j))) s)"
  let ?sts = "dev_read s (tick s) (IrqEvt (irq_evt_sts_reg m + j))"
  let ?s2 = "snd (run_state (raw_read (IrqEvt (irq_evt_en_reg m + j))) ?s1)"
  let ?en = "dev_read ?s1 (tick ?s1) (IrqEvt (irq_evt_en_reg m + j))"
  let ?t = "snd (run_state (handle_bits m (irq_base m + int (j * EVT_BTS_PER_WRD)) ?sts ?en
       [0..<min (num_irq m) EVT_BTS_PER_WRD]) ?s2)"
  have lim: "(if num_irq m < EVT_BTS_PER_WRD then num_irq m else EVT_BTS_PER_WRD) =
      min (num_irq m) EVT_BTS_PER_WRD"
    by (simp add: min_def)
  have s2: "bus ?s2 = bus s @ [Rd (IrqEvt (irq_evt_sts_reg m + j)) ?sts, Rd (IrqEvt (irq_evt_en_reg m + j)) ?en]"
    "dispatched ?s2 = dispatched s"
    by (simp_all add: raw_read_def)
  have run: "snd (run_state (handle_words m (j # js)) s) = snd (run_state (handle_words m js) ?t)"
    unfolding handle_words.simps lim by (simp add: raw_read_def split_beta)
  obtain a where a: "bus ?t = bus ?s2 @ a" "dispatched ?t = dispatched ?s2 @ pending m j ?sts ?en"
    "ack_trace m (pending m j ?sts ?en) a"
    using handle_bits_run [of m "irq_base m + int (j * EVT_BTS_PER_WRD)" ?sts ?en
        "[0..<min (num_irq m) EVT_BTS_PER_WRD]" ?s2]
    unfolding pending_def by blast
  from Cons.IH [of ?t] obtain b d where b: "bus (snd (run_state (handle_words m js) ?t)) = bus ?t @ b"
    "dispatched (snd (run_state (handle_words m js) ?t)) = dispatched ?t @ d" "words_trace m js b d"
    by blast
  have "words_trace m (j # js)
      (Rd (IrqEvt (irq_evt_sts_reg m + j)) ?sts # Rd (IrqEvt (irq_evt_en_reg m + j)) ?en # a @ b)
      (pending m j ?sts ?en @ d)"
    unfolding words_trace.simps using a(3) b(3) by blast
  then show ?case
    unfolding run b(1,2) a(1,2) s2 by (metis append.assoc append_Cons append_Nil)
qed

section \<open>Properties\<close>

text \<open>
  C22: demultiplexing. When the fence is down the handler reads the number of words, then for
  each word its status and enable bits, dispatches exactly the interrupts whose status and
  enable bits are both set among the first \<open>min num_irq 32\<close> of the word, in order, and
  acknowledges each one (clear bit, message to the endpoint) before the next. When the fence
  is up it does nothing.
\<close>

theorem irq_dispatch:
  "case run_state la9310_irq_handler (s\<lparr>irq_priv := PLive m\<rparr>) of (_, t) \<Rightarrow>
     (if fence_at s (tick s) then
        t = s\<lparr>irq_priv := PLive m, tick := tick s + 1, fence_hits := fence_hits s + 1\<rparr>
      else
        \<exists>cfg b d. bus t = bus s @ Rd (IrqEvt (irq_evt_cfg_reg m)) cfg # b \<and>
          dispatched t = dispatched s @ d \<and> words_trace m [0..<nwords_of cfg] b d)"
proof (cases "fence_at s (tick s)")
  case True
  then show ?thesis by (simp add: la9310_irq_handler_def rfnm_la9310_mmio_fenced_def)
next
  case False
  let ?a = "IrqEvt (irq_evt_cfg_reg m)"
  let ?cfg = "dev_read s (tick s + 1) ?a"
  let ?m = "m\<lparr>irq_stats := (irq_stats m)\<lparr>num_hw_irq_recv := num_hw_irq_recv (irq_stats m) + 1\<rparr>\<rparr>"
  let ?s = "s\<lparr>tick := tick s + 2, bus := bus s @ [Rd ?a ?cfg], irq_priv := PLive ?m\<rparr>"
  have run: "run_state la9310_irq_handler (s\<lparr>irq_priv := PLive m\<rparr>) =
      run_state (handle_words m [0..<nwords_of ?cfg]) ?s"
    using False by (simp add: la9310_irq_handler_def rfnm_la9310_mmio_fenced_def raw_read_def)
  obtain b d where "bus (snd (run_state (handle_words m [0..<nwords_of ?cfg]) ?s)) = bus ?s @ b"
    "dispatched (snd (run_state (handle_words m [0..<nwords_of ?cfg]) ?s)) = dispatched ?s @ d"
    "words_trace m [0..<nwords_of ?cfg] b d"
    using handle_words_run by blast
  with False show ?thesis unfolding run split_beta by auto
qed

lemma fold_update_nth:
  "n \<le> length vs \<Longrightarrow> fold (\<lambda>i vs. vs[i := f i]) [0..<n] vs = map f [0..<n] @ drop n vs"
proof (induction n)
  case 0
  show ?case by simp
next
  case (Suc n)
  then show ?case
    by (simp add: list_update_append Cons_nth_drop_Suc [symmetric])
qed

text \<open>
  The table of virtual interrupts. It pairs event \<open>i\<close> with the i-th allocated descriptor for
  every event the driver knows, so a sub-driver is handed the events in its mask with their
  interrupt numbers, in order (and, beyond the known events, zeroed entries that count as event 0).
\<close>

theorem virq_map_correct:
  "let m' = create_virq_bit_map last_bit (m\<lparr>virq_map := replicate (num_irq m) \<lparr>evt = 0, virq = 0\<rparr>\<rparr>);
       k = min last_bit (num_irq m)
   in virq_map m' = map (\<lambda>i. \<lparr>evt = i, virq = irq_base m + int i\<rparr>) [0..<k] @
        replicate (num_irq m - k) \<lparr>evt = 0, virq = 0\<rparr> \<and>
      subdrv_virqmap_masked (virq_map m') (num_irq m) msk =
        map (\<lambda>i. \<lparr>evt = i, virq = irq_base m + int i\<rparr>) (filter (bit msk) [0..<k]) @
        (if bit msk 0 then replicate (num_irq m - k) \<lparr>evt = 0, virq = 0\<rparr> else [])"
  by (simp add: create_virq_bit_map_def fold_update_nth Let_def subdrv_virqmap_masked_def filter_map
      comp_def)

text \<open>
  Masking. Setting or clearing the mask bit of a virtual interrupt writes back the enable
  word it read with only that interrupt's bit changed.
\<close>

theorem imask_touches_one_bit:
  "case run_state (la9310_set_imask m irq flg) s of (_, t) \<Rightarrow>
     \<exists>r v w. bus t = bus s @ [Rd r v, Wr r w] \<and>
       r = IrqEvt (irq_evt_en_reg m + nat (irq - irq_base m) div EVT_BTS_PER_WRD) \<and>
       (\<forall>i. bit w i =
          (if i = nat (irq - irq_base m) mod EVT_BTS_PER_WRD then flg else bit v i))"
  by (simp add: la9310_set_imask_def Let_def raw_read_def raw_write_def bit_simps)

end
