(* ===== verification/Ipc.thy ===== *)
theory Ipc
  imports Irq_Mux
begin

text \<open>
  The IPC sub-driver, la9310_ipc.c: minor numbers, the character device, the ioctl that hands
  the memory map to user space, and the interrupt of a channel.

  The device structure comes from \<open>kmalloc\<close> and is not cleared, so a channel starts with
  unknown contents: the pointers of a channel are \<open>Uninit\<close> until they are set. \<open>ipc_fault\<close>
  records the use of such a pointer, of a freed one, or of a channel outside the array.
\<close>

section \<open>Data\<close>

datatype heap_ptr = Uninit | Null | Alloc | Freed

record ipc_chan =
  evt_fd_ctxt :: "int option"
  ch_irq_num :: int
  ch_msi_value :: int
  ch_irq_index :: int
  irq_num_txt :: heap_ptr
  ch_requested :: bool

record map_entry =
  host_phys :: u64
  modem_phys :: u32
  map_size :: u32

record sys_map =
  mhif_start :: map_entry
  hugepg_start :: map_entry
  tcml_start :: map_entry
  modem_ccsrbar :: map_entry
  nlm_ops :: map_entry

record ipc_dev =
  ipc_minor :: nat
  asyn_chans :: "ipc_chan list"
  ipc_sys_map :: "sys_map option"

record ipc_world = irq_world +
  ipc_priv :: "ipc_dev option"
  in_use_minor :: "bool list"
  ipc_minor_index :: nat
  class_devs :: "nat list"
  cdevs :: "nat list"
  ipc_fault :: bool

abbreviation IPC_NR_DEVICES :: nat where "IPC_NR_DEVICES \<equiv> 2"
abbreviation IPC_INIT_WAIT_RETRIES :: nat where "IPC_INIT_WAIT_RETRIES \<equiv> 1000"

definition fresh_chan :: ipc_chan where
  "fresh_chan = \<lparr>evt_fd_ctxt = None, ch_irq_num = 0, ch_msi_value = 0, ch_irq_index = 0,
     irq_num_txt = Uninit, ch_requested = False\<rparr>"

section \<open>Probe and remove\<close>

definition chk_hif_mod_rdy :: "platform \<Rightarrow> ('a mmio_scheme, bool) state" where
  "chk_hif_mod_rdy p = do {
     v \<leftarrow> raw_read (HifWord ''mod_ready'');
     ret (v AND mod_ready_ipc_lib p \<noteq> 0)
   }"

fun ipc_ready_wait :: "platform \<Rightarrow> nat \<Rightarrow> ('a mmio_scheme, unit) state" where
  "ipc_ready_wait p 0 = do { _ \<leftarrow> chk_hif_mod_rdy p; ret () }"
| "ipc_ready_wait p (Suc n) = do {
     r \<leftarrow> chk_hif_mod_rdy p;
     if r then ret () else ipc_ready_wait p n
   }"

text \<open>What the kernel answers: memory for the device structure, the class device (0 or an
  error), the character device.\<close>

record ipc_env =
  dev_mem :: bool
  class_rc :: int
  cdev_rc :: int

definition ipc_fail :: "nat \<Rightarrow> int \<Rightarrow> ('a ipc_world_scheme, int) state" where
  "ipc_fail i rc = do {
     modify (\<lambda>s. s\<lparr>class_devs := remove1 i (class_devs s)\<rparr>);
     ret rc
   }"

definition la9310_ipc_probe :: "platform \<Rightarrow> ipc_env \<Rightarrow> ('a ipc_world_scheme, int) state" where
  "la9310_ipc_probe p e = do {
     used \<leftarrow> gets in_use_minor;
     (case find (\<lambda>i. \<not> used ! i) [0..<IPC_NR_DEVICES] of
        None \<Rightarrow> ret (- ENODEV)
      | Some i \<Rightarrow> do {
          modify (\<lambda>s. s\<lparr>ipc_minor_index := i\<rparr>);
          if \<not> dev_mem e then ret (- ENOMEM)
          else if class_rc e \<noteq> 0 then ret (class_rc e)
          else do {
            modify (\<lambda>s. s\<lparr>class_devs := i # class_devs s\<rparr>);
            ipc_ready_wait p IPC_INIT_WAIT_RETRIES;
            ok \<leftarrow> chk_hif_mod_rdy p;
            if \<not> ok then ipc_fail i (- EBUSY)
            else if cdev_rc e \<noteq> 0 then ipc_fail i (cdev_rc e)
            else do {
              modify (\<lambda>s. s\<lparr>cdevs := i # cdevs s\<rparr>);
              modify (\<lambda>s. s\<lparr>ipc_priv := Some \<lparr>ipc_minor = i,
                asyn_chans = replicate (ipc_max_channels p) fresh_chan, ipc_sys_map = None\<rparr>\<rparr>);
              modify (\<lambda>s. s\<lparr>in_use_minor := (in_use_minor s)[i := True]\<rparr>);
              ret 0
            }
          }
        })
   }"

definition la9310_ipc_remove :: "('a ipc_world_scheme, int) state" where
  "la9310_ipc_remove = do {
     d \<leftarrow> gets ipc_priv;
     (case d of
        None \<Rightarrow> ret ()
      | Some d \<Rightarrow> modify (\<lambda>s. s\<lparr>
          cdevs := remove1 (ipc_minor d) (cdevs s), class_devs := remove1 (ipc_minor d) (class_devs s),
          in_use_minor := (in_use_minor s)[ipc_minor d := False], ipc_priv := None\<rparr>));
     ret 0
   }"

section \<open>Channels\<close>

definition la9310_dev_get_ipc_msi :: "platform \<Rightarrow> int \<Rightarrow> int" where
  "la9310_dev_get_ipc_msi p ch =
     (if ch = 0 then msi_irq_ipc_1 p else if ch = 1 then msi_irq_ipc_2 p else - 1)"

abbreviation set_chan :: "nat \<Rightarrow> (ipc_chan \<Rightarrow> ipc_chan) \<Rightarrow> ('a ipc_world_scheme, unit) state" where
  "set_chan k f \<equiv> modify (\<lambda>s. s\<lparr>ipc_priv := map_option
     (\<lambda>d. d\<lparr>asyn_chans := (asyn_chans d)[k := f (asyn_chans d ! k)]\<rparr>) (ipc_priv s)\<rparr>)"

text \<open>The answers for a registration: the event context behind the descriptor (\<open>None\<close> the null
  pointer), memory for the name, \<open>request_irq\<close>.\<close>

record chan_env =
  efd_ctx :: "int option"
  txt_mem :: bool
  chan_irq_rc :: int

definition register_ipc_channel_irq :: "platform \<Rightarrow> int \<Rightarrow> chan_env \<Rightarrow> ('a ipc_world_scheme, int) state" where
  "register_ipc_channel_irq p ch e =
     (if ch \<ge> int (ipc_max_channels p) then ret (- EINVAL)
      else do {
        d \<leftarrow> gets ipc_priv;
        tab \<leftarrow> gets irq_tab;
        if d = None then ret (- EINVAL)
        else do {
          let index = la9310_dev_get_ipc_msi p ch;
          if index \<ge> 0 \<and> index < msi_max_cnt p then do {
            set_chan (nat ch) (\<lambda>c. c\<lparr>ch_irq_num := irq_val (tab ! nat index),
              ch_msi_value := msi_val (tab ! nat index), ch_irq_index := index\<rparr>);
            set_chan (nat ch) (\<lambda>c. c\<lparr>evt_fd_ctxt := efd_ctx e\<rparr>);
            if efd_ctx e \<noteq> None then do {
              set_chan (nat ch) (\<lambda>c. c\<lparr>irq_num_txt := (if txt_mem e then Alloc else Null)\<rparr>);
              if \<not> txt_mem e then ret 0
              else if chan_irq_rc e < 0 then ret (chan_irq_rc e)
              else do {
                set_chan (nat ch) (\<lambda>c. c\<lparr>ch_requested := True\<rparr>);
                ret (chan_irq_rc e)
              }
            }
            else ret (- EINVAL)
          }
          else ret (- EBUSY)
        }
      })"

text \<open>No check of the channel number and none that the channel was registered.\<close>

definition deregister_ipc_channel_irq :: "int \<Rightarrow> ('a ipc_world_scheme, unit) state" where
  "deregister_ipc_channel_irq ch = do {
     d \<leftarrow> gets ipc_priv;
     (case d of
        None \<Rightarrow> modify (\<lambda>s. s\<lparr>ipc_fault := True\<rparr>)
      | Some d \<Rightarrow>
          if ch < 0 \<or> ch \<ge> int (length (asyn_chans d)) then modify (\<lambda>s. s\<lparr>ipc_fault := True\<rparr>)
          else do {
            let c = asyn_chans d ! nat ch;
            modify (\<lambda>s. s\<lparr>ipc_fault := (ipc_fault s \<or> irq_num_txt c \<in> {Uninit, Freed} \<or> \<not> ch_requested c)\<rparr>);
            set_chan (nat ch) (\<lambda>c. c\<lparr>irq_num_txt := Freed, ch_requested := False, ch_irq_index := 0\<rparr>)
          })
   }"

definition raise_msg_interrupt :: "string \<Rightarrow> u32 \<Rightarrow> ('a mmio_scheme, unit) state" where
  "raise_msg_interrupt unit_index ibs = raw_write (MsgUnitId unit_index) ibs"

section \<open>The ioctl\<close>

text \<open>A request with what \<open>copy_from_user\<close> delivered (\<open>None\<close> a fault) and whether
  \<open>copy_to_user\<close> succeeds. The size of the huge page is read a second time from user memory.\<close>

datatype ipc_cmd =
    GET_SYS_MAP "sys_map option" u32 bool
  | CHANNEL_REGISTER "int option" chan_env bool
  | CHANNEL_DEREGISTER "int option"
  | CHANNEL_RAISE_INTERRUPT "int option"
  | OTHER_CMD

text \<open>The map for user space. The offset of the operations region is a C \<open>int\<close>.\<close>

definition fill_sys_map :: "platform \<Rightarrow> 'a ipc_world_scheme \<Rightarrow> sys_map \<Rightarrow> u32 \<Rightarrow> sys_map" where
  "fill_sys_map p s m user_size =
     (let tcml = mem_regions s ! 1; ccsr = mem_regions s ! 0;
          r = la9310_get_dma_region LA9310_MEM_REGION_NLM_OPS s;
          offset = (signed_take_bit 31 (uint (mr_phys_addr r - ep_pcie_addr s)) :: int)
      in m\<lparr>mhif_start := (mhif_start m)\<lparr>host_phys := mr_phys_addr tcml + ep_hif_offset p,
             map_size := word_of_nat (ep_hif_size p)\<rparr>,
           hugepg_start := (hugepg_start m)\<lparr>modem_phys := ucast (huge_page_ep_addr p), map_size := user_size\<rparr>,
           tcml_start := (tcml_start m)\<lparr>host_phys := mr_phys_addr tcml, map_size := word_of_nat (mr_size tcml)\<rparr>,
           modem_ccsrbar := (modem_ccsrbar m)\<lparr>host_phys := mr_phys_addr ccsr, map_size := word_of_nat (mr_size ccsr)\<rparr>,
           nlm_ops := \<lparr>host_phys = mr_phys_addr (host_buf s) + word_of_int offset,
             modem_phys = ucast (mr_phys_addr r), map_size = word_of_nat (mr_size r)\<rparr>\<rparr>)"

definition ipc_ioctl :: "platform \<Rightarrow> ipc_cmd \<Rightarrow> ('a ipc_world_scheme, int) state" where
  "ipc_ioctl p cmd =
     (case cmd of
        GET_SYS_MAP None _ _ \<Rightarrow> ret (- EFAULT)
      | GET_SYS_MAP (Some m) user_size copy_ok \<Rightarrow> do {
          present \<leftarrow> gets has_dev;
          if \<not> present then ret (- ENODEV)
          else do {
            la9310_create_ipc_hugepage_outbound p (host_phys (hugepg_start m)) (map_size (hugepg_start m));
            m' \<leftarrow> gets (\<lambda>s. fill_sys_map p s m user_size);
            modify (\<lambda>s. s\<lparr>ipc_priv := map_option (\<lambda>d. d\<lparr>ipc_sys_map := Some m'\<rparr>) (ipc_priv s)\<rparr>);
            if \<not> copy_ok then ret (- EFAULT)
            else do { la9310_set_host_ready (hif_ipc_lib_ready p); ret 0 }
          }
        }
      | CHANNEL_REGISTER None _ _ \<Rightarrow> ret (- EFAULT)
      | CHANNEL_REGISTER (Some ch) e copy_ok \<Rightarrow> do {
          rc \<leftarrow> register_ipc_channel_irq p ch e;
          if rc < 0 then ret (- EFAULT) else if \<not> copy_ok then ret (- EFAULT) else ret 0
        }
      | CHANNEL_DEREGISTER None \<Rightarrow> ret (- EFAULT)
      | CHANNEL_DEREGISTER (Some ch) \<Rightarrow> do { deregister_ipc_channel_irq ch; ret 0 }
      | CHANNEL_RAISE_INTERRUPT None \<Rightarrow> ret (- EFAULT)
      | CHANNEL_RAISE_INTERRUPT (Some ch) \<Rightarrow>
          if ch \<ge> 32 then ret (- EINVAL)
          else do { raise_msg_interrupt ''LA9310_MSG_UNIT3'' (word_of_int ch); ret 0 }
      | OTHER_CMD \<Rightarrow> ret (- ENOTTY))"

section \<open>Properties\<close>

lemma chk_hif_mod_rdy_bus: "state_io_rel bus_rel (chk_hif_mod_rdy p)"
  unfolding chk_hif_mod_rdy_def by (intro br.rel_rules frame_rules)

lemma ipc_ready_wait_bus: "state_io_rel bus_rel (ipc_ready_wait p n)"
  by (induction n) (simp_all add: br.rel_rules chk_hif_mod_rdy_bus)

lemma bus_step_ipc:
  fixes s t :: "'a ipc_world_scheme"
  shows "bus_step s t b \<Longrightarrow> ipc_priv t = ipc_priv s \<and> in_use_minor t = in_use_minor s \<and>
     class_devs t = class_devs s \<and> cdevs t = cdevs s \<and> ipc_fault t = ipc_fault s"
  unfolding bus_step_def by (elim ssubst) simp

definition ipc_unchanged :: "'a ipc_world_scheme \<Rightarrow> 'a ipc_world_scheme \<Rightarrow> bool" where
  "ipc_unchanged s t \<longleftrightarrow>
     ipc_priv t = ipc_priv s \<and> in_use_minor t = in_use_minor s \<and> class_devs t = class_devs s \<and>
     cdevs t = cdevs s"

definition ipc_probed :: "platform \<Rightarrow> 'a ipc_world_scheme \<Rightarrow> 'a ipc_world_scheme \<Rightarrow> bool" where
  "ipc_probed p s t \<longleftrightarrow>
     (let i = (if in_use_minor s ! 0 then 1 else 0 :: nat) in
      \<not> in_use_minor s ! i \<and> in_use_minor t = (in_use_minor s)[i := True] \<and>
      ipc_priv t = Some \<lparr>ipc_minor = i, asyn_chans = replicate (ipc_max_channels p) fresh_chan,
        ipc_sys_map = None\<rparr> \<and>
      class_devs t = i # class_devs s \<and> cdevs t = i # cdevs s)"

lemma find_minor:
  "find (\<lambda>i. \<not> used ! i) [0..<IPC_NR_DEVICES] =
     (if used ! 0 \<and> used ! 1 then None else Some (if used ! 0 then 1 else 0))"
  by (simp add: upt_rec)

lemma ipc_probe_wp:
  "wp (la9310_ipc_probe p e)
     (\<lambda>rc t. rc = 0 \<and> ipc_probed p s t \<or> rc \<noteq> 0 \<and> ipc_unchanged s t) s"
  unfolding la9310_ipc_probe_def find_minor ipc_fail_def
  apply (intro wp_steps wp_optionI wp_ifI wp_bus_rel [OF chk_hif_mod_rdy_bus]
      wp_bus_rel [OF ipc_ready_wait_bus])
  apply (auto simp: ipc_unchanged_def ipc_probed_def errno_defs dest!: bus_step_ipc split: if_splits)
  done

text \<open>
  Probing the IPC sub-driver takes the lowest free minor number and then owns it, a class
  device and a character device of that number; a probe that fails for whatever reason (no
  free minor, no memory, no class device, an endpoint that never becomes ready, no character
  device) leaves all of these tables as they were.
\<close>

theorem ipc_probe_outcome:
  "case run_state (la9310_ipc_probe p e) s of (rc, t) \<Rightarrow>
     rc = 0 \<and> ipc_probed p s t \<or> rc \<noteq> 0 \<and> ipc_unchanged s t"
  using ipc_probe_wp [of p e s] by (simp add: wp_def)

text \<open>
  C30: removing the IPC sub-driver after a probe gives everything back: the minor number, the
  class device and the character device are as before the probe, whether it succeeded or not.
\<close>

theorem ipc_probe_remove_roundtrip:
  assumes "ipc_priv s = None" and "length (in_use_minor s) = IPC_NR_DEVICES"
  shows "ipc_unchanged s (snd (run_state (do { _ \<leftarrow> la9310_ipc_probe p e; la9310_ipc_remove }) s))"
proof -
  obtain rc t where t: "run_state (la9310_ipc_probe p e) s = (rc, t)" by force
  with ipc_probe_wp [of p e s] have "ipc_probed p s t \<or> ipc_unchanged s t"
    by (auto simp: wp_def)
  then have "ipc_unchanged s (snd (run_state la9310_ipc_remove t))"
  proof
    assume "ipc_unchanged s t"
    with assms(1) show ?thesis by (simp add: la9310_ipc_remove_def ipc_unchanged_def)
  next
    assume "ipc_probed p s t"
    with assms show ?thesis
      by (auto simp: la9310_ipc_remove_def ipc_unchanged_def ipc_probed_def Let_def
          list_update_same_conv split: if_splits)
  qed
  with t show ?thesis by simp
qed

text \<open>
  A channel interrupt that is deregistered right after the probe, without having been
  registered, makes the driver free a pointer it never set (or leave the channel array),
  whatever the channel number: the structure is not cleared and nothing is checked.
\<close>

theorem deregister_unregistered_faults:
  "ipc_fault (snd (run_state (ipc_ioctl p (CHANNEL_DEREGISTER (Some ch)))
     (s\<lparr>ipc_priv := Some \<lparr>ipc_minor = i, asyn_chans = replicate n fresh_chan, ipc_sys_map = None\<rparr>\<rparr>)))"
  by (auto simp: ipc_ioctl_def deregister_ipc_channel_irq_def Let_def fresh_chan_def nat_less_iff)

lemma region_off_nlm: "region_off p 5 < 2 ^ 31"
  by (simp add: region_off_def plan_off_def region_plan_def LA9310_FW_DMA_SIZE_def)

text \<open>
  The memory map that user space gets describes the operations region the endpoint uses:
  after the regions have been cut, the host address in the map is the scratch buffer's address
  plus the offset at which the endpoint finds the region in its own window.
\<close>

theorem sys_map_nlm_consistent:
  assumes "length (ep_bufs s) = LA9310_DMA_REGIONS"
  shows "let t = snd (run_state (la9310_init_subdrv_dma_buf p) s);
             n = nlm_ops (fill_sys_map p t m user_size)
         in host_phys n = mr_phys_addr (host_buf s) + word_of_nat (region_off p 5) \<and>
            modem_phys n = ucast (ep_pcie_addr s + word_of_nat (region_off p 5)) \<and>
            map_size n = word_of_nat LA9310_NLM_OPS_SIZE"
proof -
  let ?off = "region_off p 5"
  have "uint (word_of_nat ?off :: u64) = int ?off"
    using region_off_nlm [of p] by (simp add: uint_word_of_int_eq unsigned_of_nat take_bit_nat_eq_self)
  moreover have "signed_take_bit 31 (int ?off) = int ?off"
    using region_off_nlm [of p] by (intro signed_take_bit_int_eq_self) auto
  moreover have "la9310_get_dma_region LA9310_MEM_REGION_NLM_OPS
      (snd (run_state (la9310_init_subdrv_dma_buf p) s)) =
      \<lparr>mr_phys_addr = ep_pcie_addr s + word_of_nat ?off, mr_vaddr = mr_vaddr (host_buf s) + word_of_nat ?off,
       mr_size = LA9310_NLM_OPS_SIZE, mr_type = LA9310_MEM_REGION_NLM_OPS\<rparr>"
    using init_dma_bufs [OF assms, of 5 p]
    by (simp add: la9310_get_dma_region_def LA9310_SUBDRV_DMA_REGION_IDX_def region_plan_def)
  ultimately show ?thesis by (simp add: fill_sys_map_def Let_def init_dma_frame)
qed

section \<open>Witnesses\<close>

definition sample_ipc :: ipc_world where
  "sample_ipc =
     irq_world.extend (base_world.extend (sample_base False)
         (irq_world.fields [] 0 0 PNull False False 0 0 [] False))
       (ipc_world.fields None [False, False] 0 [] [] False)"

lemma sample_ipc_simps [simp]:
  "ipc_priv sample_ipc = None" "in_use_minor sample_ipc = [False, False]"
  "ep_bufs sample_ipc = replicate 7 no_region" "ep_pcie_addr sample_ipc = 0xA0000000"
  "host_buf sample_ipc = no_region\<lparr>mr_vaddr := 0x10000000\<rparr>"
  "class_devs sample_ipc = []" "cdevs sample_ipc = []"
  by (simp_all add: sample_ipc_def sample_base_def sample_reg_def sample_world_def vspa_world.defs
      reg_world.defs base_world.defs irq_world.defs ipc_world.defs)

theorem ipc_probe_remove_roundtrip_witness:
  "in_use_minor (snd (run_state (do { _ \<leftarrow> la9310_ipc_probe sample_platform \<lparr>dev_mem = True, class_rc = 0, cdev_rc = 0\<rparr>;
     la9310_ipc_remove }) sample_ipc)) = [False, False]"
  using ipc_probe_remove_roundtrip [of sample_ipc sample_platform "\<lparr>dev_mem = True, class_rc = 0, cdev_rc = 0\<rparr>"]
  by (simp add: ipc_unchanged_def)

definition blank_map :: sys_map where
  "blank_map =
     (let z = \<lparr>host_phys = 0, modem_phys = 0, map_size = 0\<rparr>
      in \<lparr>mhif_start = z, hugepg_start = z, tcml_start = z, modem_ccsrbar = z, nlm_ops = z\<rparr>)"

theorem sys_map_nlm_consistent_witness:
  "host_phys (nlm_ops (fill_sys_map sample_platform
     (snd (run_state (la9310_init_subdrv_dma_buf sample_platform) sample_ipc)) blank_map 0)) =
     word_of_nat (region_off sample_platform 5)"
  using sys_map_nlm_consistent [of sample_ipc sample_platform blank_map 0] by (simp add: no_region_def Let_def)

end
