(* ===== verification/Wdog.thy ===== *)
theory Wdog
  imports Ipc
begin

text \<open>
  The watchdog device of la9310_wdog.c: the two reset lines of the modem, the watchdog
  interrupt, and a character device over which user space learns of a reset and asks for one.

  What the driver holds is kept in ledgers: requested lines, requested interrupts, the device
  number range, the class, the character devices and the device nodes. \<open>wdog_fault\<close> records a use
  of the device structure when there is none or when it was given back, an access outside its
  array, and the release of an interrupt that is not held.
\<close>

section \<open>Data\<close>

record wdog_priv =
  wd_irq :: int
  irq_status_flag :: int
  gpio_hrst :: int
  gpio_trst :: int
  wdog_id :: int
  wdog_modem_status :: int
  domain_nr :: int
  wdog_event_status :: int

text \<open>\<open>wdog_gdev\<close> holds the array \<open>wdog_pd\<close> of the device structure.\<close>

datatype wdog_ptr = WNull | WLive "wdog_priv list" | WFreed

record wdog_world = ipc_world +
  wdog_msi_irq :: int
  wdog_gdev :: wdog_ptr
  gpios :: "int list"
  gpio_values :: "(int \<times> bool) list"
  wdog_irqs :: "int list"
  wdog_region :: bool
  wdog_class :: bool
  wdog_cdevs :: "nat list"
  wdog_nodes :: "nat list"
  wdog_fault :: bool

abbreviation WDOG_ID_MAX :: nat where "WDOG_ID_MAX \<equiv> 1"
abbreviation WDOG_MODEM_NOT_READY :: int where "WDOG_MODEM_NOT_READY \<equiv> 0"
abbreviation WDOG_MODEM_READY :: int where "WDOG_MODEM_READY \<equiv> 1"
abbreviation PCI_DOMAIN_NR_INVALID :: int where "PCI_DOMAIN_NR_INVALID \<equiv> - 1"
abbreviation POLLIN :: u32 where "POLLIN \<equiv> 0x1"
abbreviation POLLRDNORM :: u32 where "POLLRDNORM \<equiv> 0x40"

text \<open>Reading and writing the structure of one watchdog through the global pointer.\<close>

definition wdog_pd :: "nat \<Rightarrow> 'a wdog_world_scheme \<Rightarrow> wdog_priv option" where
  "wdog_pd i s = (case wdog_gdev s of
     WLive pds \<Rightarrow> if i < length pds then Some (pds ! i) else None | _ \<Rightarrow> None)"

abbreviation wfault :: "('a wdog_world_scheme, unit) state" where
  "wfault \<equiv> modify (\<lambda>s. s\<lparr>wdog_fault := True\<rparr>)"

definition set_pd :: "nat \<Rightarrow> (wdog_priv \<Rightarrow> wdog_priv) \<Rightarrow> ('a wdog_world_scheme, unit) state" where
  "set_pd i f = modify (\<lambda>s. case wdog_gdev s of
     WLive pds \<Rightarrow> if i < length pds then s\<lparr>wdog_gdev := WLive (pds[i := f (pds ! i)])\<rparr>
                  else s\<lparr>wdog_fault := True\<rparr>
   | _ \<Rightarrow> s\<lparr>wdog_fault := True\<rparr>)"

section \<open>Interrupt and reset lines\<close>

definition get_wdog_msi :: "int \<Rightarrow> 'a wdog_world_scheme \<Rightarrow> int" where
  "get_wdog_msi i s = (if i = 0 then wdog_msi_irq s else 0)"

definition wdog_irq_handler :: "nat \<Rightarrow> ('a wdog_world_scheme, unit) state" where
  "wdog_irq_handler i =
     set_pd i (\<lambda>d. d\<lparr>wdog_modem_status := WDOG_MODEM_NOT_READY, wdog_event_status := 1\<rparr>)"

text \<open>\<open>req\<close>: what \<open>request_irq\<close> answers.\<close>

definition wdog_register_irq :: "int \<Rightarrow> nat \<Rightarrow> ('a wdog_world_scheme, int) state" where
  "wdog_register_irq req i = do {
     pd \<leftarrow> gets (wdog_pd i);
     (case pd of
        None \<Rightarrow> do { wfault; ret 0 }
      | Some d \<Rightarrow> do {
          irq \<leftarrow> gets (get_wdog_msi (wdog_id d));
          set_pd i (\<lambda>d. d\<lparr>wdog_event_status := 0, wd_irq := irq\<rparr>);
          if irq \<noteq> 0 then
            (if irq_status_flag d = 0 then
               (if req < 0 then ret req
                else do {
                  modify (\<lambda>s. s\<lparr>wdog_irqs := irq # wdog_irqs s\<rparr>);
                  set_pd i (\<lambda>d. d\<lparr>irq_status_flag := 1\<rparr>);
                  ret req
                })
             else ret 0)
          else ret (- EINVAL)
        })
   }"

definition free_wdog_irq :: "int \<Rightarrow> ('a wdog_world_scheme, unit) state" where
  "free_wdog_irq irq = modify (\<lambda>s. s\<lparr>wdog_irqs := remove1 irq (wdog_irqs s),
     wdog_fault := (wdog_fault s \<or> irq \<notin> set (wdog_irqs s))\<rparr>)"

definition wdog_deregister_irq :: "nat \<Rightarrow> ('a wdog_world_scheme, unit) state" where
  "wdog_deregister_irq i = do {
     pd \<leftarrow> gets (wdog_pd i);
     (case pd of
        None \<Rightarrow> wfault
      | Some d \<Rightarrow>
          if irq_status_flag d \<noteq> 0 then do {
            set_pd i (\<lambda>d. d\<lparr>irq_status_flag := 0\<rparr>);
            free_wdog_irq (wd_irq d)
          }
          else ret ())
   }"

definition gpio_free :: "int \<Rightarrow> ('a wdog_world_scheme, unit) state" where
  "gpio_free g = modify (\<lambda>s. s\<lparr>gpios := remove1 g (gpios s)\<rparr>)"

definition gpio_set :: "int \<Rightarrow> bool \<Rightarrow> ('a wdog_world_scheme, unit) state" where
  "gpio_set g v = modify (\<lambda>s. s\<lparr>gpio_values := gpio_values s @ [(g, v)]\<rparr>)"

text \<open>The kernel's answers for the two lines of one watchdog: the numbers from the device tree
  (\<open>gpio_is_valid\<close> accepts the ones that are not negative), request and direction of each.\<close>

record gpio_env =
  dt_trst :: int
  dt_hrst :: int
  req_trst :: int
  dir_trst :: int
  req_hrst :: int
  dir_hrst :: int

definition wdog_gpio_config :: "gpio_env \<Rightarrow> int \<Rightarrow> int \<Rightarrow> ('a wdog_world_scheme, int) state" where
  "wdog_gpio_config e trst hrst =
     (if req_trst e \<noteq> 0 then ret (req_trst e)
      else do {
        modify (\<lambda>s. s\<lparr>gpios := trst # gpios s\<rparr>);
        if dir_trst e < 0 then do { gpio_free trst; ret (dir_trst e) }
        else do {
          gpio_set trst True;
          if req_hrst e \<noteq> 0 then do { gpio_free trst; ret (req_hrst e) }
          else do {
            modify (\<lambda>s. s\<lparr>gpios := hrst # gpios s\<rparr>);
            if dir_hrst e < 0 then do { gpio_free hrst; gpio_free trst; ret (dir_hrst e) }
            else do { gpio_set hrst True; ret 0 }
          }
        }
      })"

definition wdog_reset_modem :: "nat \<Rightarrow> ('a wdog_world_scheme, unit) state" where
  "wdog_reset_modem i = do {
     pd \<leftarrow> gets (wdog_pd i);
     (case pd of
        None \<Rightarrow> wfault
      | Some d \<Rightarrow> do {
          gpio_set (gpio_trst d) False;
          gpio_set (gpio_hrst d) False;
          gpio_set (gpio_trst d) True;
          gpio_set (gpio_hrst d) True
        })
   }"

section \<open>Status\<close>

text \<open>A negative number passes the range check and indexes before the array.\<close>

definition wdog_set_status :: "int \<Rightarrow> (wdog_priv \<Rightarrow> wdog_priv) \<Rightarrow> ('a wdog_world_scheme, int) state" where
  "wdog_set_status i f =
     (if i \<ge> int WDOG_ID_MAX then ret (- ENODEV)
      else do {
        g \<leftarrow> gets wdog_gdev;
        if g = WNull then ret (- ENODEV)
        else do { (if i < 0 then wfault else set_pd (nat i) f); ret 0 }
      })"

definition wdog_set_modem_status :: "int \<Rightarrow> int \<Rightarrow> ('a wdog_world_scheme, int) state" where
  "wdog_set_modem_status i status = wdog_set_status i (\<lambda>d. d\<lparr>wdog_modem_status := status\<rparr>)"

definition wdog_set_pci_domain_nr :: "int \<Rightarrow> int \<Rightarrow> ('a wdog_world_scheme, int) state" where
  "wdog_set_pci_domain_nr i nr = wdog_set_status i (\<lambda>d. d\<lparr>domain_nr := nr\<rparr>)"

definition wdog_dev_poll :: "nat \<Rightarrow> ('a wdog_world_scheme, u32) state" where
  "wdog_dev_poll i = do {
     pd \<leftarrow> gets (wdog_pd i);
     (case pd of
        None \<Rightarrow> do { wfault; ret 0 }
      | Some d \<Rightarrow>
          if wdog_event_status d \<noteq> 0 then do {
            set_pd i (\<lambda>d. d\<lparr>wdog_event_status := 0\<rparr>);
            ret (POLLIN OR POLLRDNORM)
          }
          else ret 0)
   }"

text \<open>The structure that travels between user space and the ioctl. A request comes with what
  \<open>copy_from_user\<close> delivered and whether \<open>copy_to_user\<close> succeeds; the reply is returned.\<close>

record wdog_arg =
  wa_modem_status :: int
  wa_domain_nr :: int

datatype wdog_cmd =
    WDOG_REGISTER int
  | WDOG_DEREGISTER
  | WDOG_RESET
  | WDOG_GET_STATUS bool
  | WDOG_GET_DOMAIN bool
  | WDOG_OTHER

definition wdog_reply ::
  "bool \<Rightarrow> nat \<Rightarrow> (wdog_priv \<Rightarrow> wdog_arg) \<Rightarrow> ('a wdog_world_scheme, int \<times> wdog_arg option) state" where
  "wdog_reply out i f = do {
     pd \<leftarrow> gets (wdog_pd i);
     (case pd of
        None \<Rightarrow> do { wfault; ret (0, None) }
      | Some d \<Rightarrow> ret (if out then (0, Some (f d)) else (- EFAULT, None)))
   }"

definition wdog_dev_ioctl ::
  "nat \<Rightarrow> wdog_cmd \<Rightarrow> wdog_arg option \<Rightarrow> ('a wdog_world_scheme, int \<times> wdog_arg option) state" where
  "wdog_dev_ioctl i cmd arg =
     (if cmd = WDOG_OTHER then ret (- ENOTTY, None)
      else (case arg of
        None \<Rightarrow> ret (- EFAULT, None)
      | Some a \<Rightarrow>
          (case cmd of
             WDOG_REGISTER req \<Rightarrow> do { rc \<leftarrow> wdog_register_irq req i; ret (rc, None) }
           | WDOG_DEREGISTER \<Rightarrow> do { wdog_deregister_irq i; ret (0, None) }
           | WDOG_RESET \<Rightarrow> do { wdog_reset_modem i; ret (0, None) }
           | WDOG_GET_STATUS out \<Rightarrow> wdog_reply out i (\<lambda>d. a\<lparr>wa_modem_status := wdog_modem_status d\<rparr>)
           | WDOG_GET_DOMAIN out \<Rightarrow> wdog_reply out i (\<lambda>d. a\<lparr>wa_domain_nr := domain_nr d\<rparr>)
           | WDOG_OTHER \<Rightarrow> ret (- ENOTTY, None))))"

section \<open>Module init and exit\<close>

record cdev_env =
  chr_rc :: int
  class_ok :: bool
  add_rc :: "nat \<Rightarrow> int"
  node_ok :: "nat \<Rightarrow> bool"

abbreviation del_cdev :: "nat \<Rightarrow> ('a wdog_world_scheme, unit) state" where
  "del_cdev i \<equiv> modify (\<lambda>s. s\<lparr>wdog_cdevs := remove1 i (wdog_cdevs s)\<rparr>)"

abbreviation destroy_node :: "nat \<Rightarrow> ('a wdog_world_scheme, unit) state" where
  "destroy_node i \<equiv> modify (\<lambda>s. s\<lparr>wdog_nodes := remove1 i (wdog_nodes s)\<rparr>)"

fun destroy_all :: "nat list \<Rightarrow> ('a wdog_world_scheme, unit) state" where
  "destroy_all [] = ret ()"
| "destroy_all (i # is) = do { destroy_node i; del_cdev i; destroy_all is }"

definition cdevs_fail :: "nat \<Rightarrow> ('a wdog_world_scheme, int) state" where
  "cdevs_fail i = do {
     destroy_all [0..<i];
     modify (\<lambda>s. s\<lparr>wdog_class := False\<rparr>);
     modify (\<lambda>s. s\<lparr>wdog_region := False\<rparr>);
     ret (- 1)
   }"

fun add_cdevs :: "cdev_env \<Rightarrow> nat list \<Rightarrow> ('a wdog_world_scheme, int) state" where
  "add_cdevs e [] = ret 0"
| "add_cdevs e (i # is) =
     (if add_rc e i \<noteq> 0 then cdevs_fail i
      else do {
        modify (\<lambda>s. s\<lparr>wdog_cdevs := i # wdog_cdevs s\<rparr>);
        if \<not> node_ok e i then do { del_cdev i; cdevs_fail i }
        else do {
          modify (\<lambda>s. s\<lparr>wdog_nodes := i # wdog_nodes s\<rparr>);
          add_cdevs e is
        }
      })"

definition create_wdog_cdevs :: "cdev_env \<Rightarrow> ('a wdog_world_scheme, int) state" where
  "create_wdog_cdevs e =
     (if chr_rc e < 0 then ret (- 1)
      else do {
        modify (\<lambda>s. s\<lparr>wdog_region := True\<rparr>);
        if \<not> class_ok e then do { modify (\<lambda>s. s\<lparr>wdog_region := False\<rparr>); ret (- 1) }
        else do {
          modify (\<lambda>s. s\<lparr>wdog_class := True\<rparr>);
          add_cdevs e [0..<WDOG_ID_MAX]
        }
      })"

definition destroy_wdog_cdevs :: "('a wdog_world_scheme, int) state" where
  "destroy_wdog_cdevs = do {
     destroy_all [0..<WDOG_ID_MAX];
     modify (\<lambda>s. s\<lparr>wdog_class := False\<rparr>);
     modify (\<lambda>s. s\<lparr>wdog_region := False\<rparr>);
     ret 0
   }"

text \<open>The structure comes from \<open>kmalloc\<close> with unknown contents \<open>junk\<close>; \<open>None\<close> is no memory.
  \<open>dt_node\<close> says whether the device tree has the watchdog.\<close>

record wdog_env =
  junk :: "wdog_priv list option"
  dt_node :: bool
  gpio_env :: "nat \<Rightarrow> gpio_env"
  cdev_env :: cdev_env

text \<open>The error path of \<open>wdog_init\<close> after \<open>i\<close> watchdogs were set up.\<close>

fun free_lines :: "nat list \<Rightarrow> ('a wdog_world_scheme, unit) state" where
  "free_lines [] = ret ()"
| "free_lines (j # js) = do {
     pd \<leftarrow> gets (wdog_pd j);
     (case pd of
        None \<Rightarrow> wfault
      | Some d \<Rightarrow> do { gpio_free (gpio_trst d); gpio_free (gpio_hrst d) });
     free_lines js
   }"

definition wdog_init_fail :: "nat \<Rightarrow> int \<Rightarrow> ('a wdog_world_scheme, int) state" where
  "wdog_init_fail i rc = do {
     free_lines [0..<i];
     modify (\<lambda>s. s\<lparr>wdog_gdev := WNull\<rparr>);
     ret rc
   }"

fun init_pds :: "wdog_env \<Rightarrow> nat list \<Rightarrow> ('a wdog_world_scheme, (nat \<times> int) option) state" where
  "init_pds e [] = ret None"
| "init_pds e (i # is) = do {
     let g = gpio_env e i;
     set_pd i (\<lambda>d. d\<lparr>gpio_trst := dt_trst g\<rparr>);
     if dt_trst g < 0 then ret (Some (i, - EINVAL))
     else do {
       set_pd i (\<lambda>d. d\<lparr>gpio_hrst := dt_hrst g\<rparr>);
       if dt_hrst g < 0 then ret (Some (i, - EINVAL))
       else do {
         rc \<leftarrow> wdog_gpio_config g (dt_trst g) (dt_hrst g);
         if rc \<noteq> 0 then ret (Some (i, - EINVAL))
         else do {
           set_pd i (\<lambda>d. d\<lparr>irq_status_flag := 0, wdog_id := int i,
             wdog_modem_status := WDOG_MODEM_NOT_READY, domain_nr := PCI_DOMAIN_NR_INVALID\<rparr>);
           init_pds e is
         }
       }
     }
   }"

definition wdog_init :: "wdog_env \<Rightarrow> ('a wdog_world_scheme, int) state" where
  "wdog_init e = (case junk e of
     None \<Rightarrow> ret (- ENOMEM)
   | Some pds \<Rightarrow> do {
       modify (\<lambda>s. s\<lparr>wdog_gdev := WLive pds\<rparr>);
       if \<not> dt_node e then ret (- ENODEV)
       else do {
         r \<leftarrow> init_pds e [0..<WDOG_ID_MAX];
         (case r of
            Some (i, rc) \<Rightarrow> wdog_init_fail i rc
          | None \<Rightarrow> do {
              rc \<leftarrow> create_wdog_cdevs (cdev_env e);
              if rc < 0 then wdog_init_fail WDOG_ID_MAX rc else ret rc
            })
       }
     })"

fun exit_pds :: "nat list \<Rightarrow> ('a wdog_world_scheme, unit) state" where
  "exit_pds [] = ret ()"
| "exit_pds (i # is) = do {
     pd \<leftarrow> gets (wdog_pd i);
     (case pd of
        None \<Rightarrow> wfault
      | Some d \<Rightarrow> do {
          gpio_free (gpio_trst d);
          gpio_free (gpio_hrst d);
          (if irq_status_flag d \<noteq> 0 then free_wdog_irq (wd_irq d) else ret ())
        });
     exit_pds is
   }"

definition wdog_exit :: "('a wdog_world_scheme, int) state" where
  "wdog_exit = do {
     _ \<leftarrow> destroy_wdog_cdevs;
     exit_pds [0..<WDOG_ID_MAX];
     modify (\<lambda>s. s\<lparr>wdog_gdev := WFreed\<rparr>);
     ret 0
   }"


section \<open>Resources\<close>

text \<open>Everything the watchdog holds, apart from its interrupt.\<close>

definition wdog_ledger ::
  "'a wdog_world_scheme \<Rightarrow> int list \<times> bool \<times> bool \<times> nat list \<times> nat list" where
  "wdog_ledger s = (gpios s, wdog_region s, wdog_class s, wdog_cdevs s, wdog_nodes s)"

definition wdog_up :: "int list \<Rightarrow> 'a wdog_world_scheme \<Rightarrow> 'a wdog_world_scheme \<Rightarrow> wdog_priv \<Rightarrow> bool" where
  "wdog_up base s t d \<longleftrightarrow>
     wdog_gdev t = WLive [d] \<and> gpios t = gpio_hrst d # gpio_trst d # gpios s \<and>
     wdog_region t \<and> wdog_class t \<and> wdog_cdevs t = 0 # wdog_cdevs s \<and> wdog_nodes t = 0 # wdog_nodes s \<and>
     wdog_id d = 0 \<and> wdog_fault t = wdog_fault s \<and> wdog_msi_irq t = wdog_msi_irq s \<and>
     wdog_irqs t = (if irq_status_flag d \<noteq> 0 then wd_irq d # base else base) \<and>
     (irq_status_flag d \<noteq> 0 \<longrightarrow> wd_irq d = wdog_msi_irq s)"

lemmas wdog_steps = set_pd_def wdog_pd_def gpio_free_def gpio_set_def free_wdog_irq_def cdevs_fail_def
  create_wdog_cdevs_def destroy_wdog_cdevs_def wdog_gpio_config_def wdog_init_fail_def

text \<open>A call is described by what holds after it on each of its ways out.\<close>

lemma wp_create_cdevs:
  assumes "Q 0 (s\<lparr>wdog_region := True, wdog_class := True, wdog_cdevs := 0 # wdog_cdevs s,
               wdog_nodes := 0 # wdog_nodes s\<rparr>)"
    and "Q (- 1) s" and "Q (- 1) (s\<lparr>wdog_region := False\<rparr>)"
    and "Q (- 1) (s\<lparr>wdog_class := False, wdog_region := False\<rparr>)"
  shows "wp (create_wdog_cdevs e) Q s"
  using assms by (simp add: wdog_steps wp_eqs)

lemma wp_gpio_config:
  assumes "\<And>v. Q 0 (s\<lparr>gpios := b # a # gpios s, gpio_values := v\<rparr>)"
    and "\<And>rc. rc \<noteq> 0 \<Longrightarrow> Q rc s" and "\<And>rc v. rc \<noteq> 0 \<Longrightarrow> Q rc (s\<lparr>gpio_values := v\<rparr>)"
  shows "wp (wdog_gpio_config e a b) Q s"
  using assms by (simp add: wdog_gpio_config_def gpio_free_def gpio_set_def wp_eqs)

lemma wp_init_pds:
  assumes "\<And>d v. wdog_id d = 0 \<Longrightarrow> irq_status_flag d = 0 \<Longrightarrow> wdog_modem_status d = WDOG_MODEM_NOT_READY \<Longrightarrow>
      domain_nr d = PCI_DOMAIN_NR_INVALID \<Longrightarrow>
      Q None (s\<lparr>gpios := gpio_hrst d # gpio_trst d # gpios s, gpio_values := v, wdog_gdev := WLive [d]\<rparr>)"
    and "\<And>d. Q (Some (0, - EINVAL)) (s\<lparr>wdog_gdev := WLive [d]\<rparr>)"
    and "\<And>d v. Q (Some (0, - EINVAL)) (s\<lparr>wdog_gdev := WLive [d], gpio_values := v\<rparr>)"
  shows "wp (init_pds e [0]) Q (s\<lparr>wdog_gdev := WLive [d]\<rparr>)"
  using assms(2,3) assms(1) [of "d\<lparr>gpio_trst := dt_trst (gpio_env e 0), gpio_hrst := dt_hrst (gpio_env e 0),
      irq_status_flag := 0, wdog_id := 0, wdog_modem_status := WDOG_MODEM_NOT_READY,
      domain_nr := PCI_DOMAIN_NR_INVALID\<rparr>"]
  by (simp add: Let_def set_pd_def wp_eqs) (intro impI wp_gpio_config; simp add: set_pd_def wp_eqs)

definition init_result ::
  "bool \<Rightarrow> wdog_priv \<Rightarrow> 'a wdog_world_scheme \<Rightarrow> int \<Rightarrow> 'a wdog_world_scheme \<Rightarrow> bool" where
  "init_result node d s rc t \<longleftrightarrow>
    rc = 0 \<and> (\<exists>d. wdog_up (wdog_irqs s) s t d \<and> irq_status_flag d = 0 \<and>
      wdog_modem_status d = WDOG_MODEM_NOT_READY \<and> domain_nr d = PCI_DOMAIN_NR_INVALID) \<or>
    rc < 0 \<and> wdog_ledger t = wdog_ledger s \<and> wdog_irqs t = wdog_irqs s \<and> wdog_fault t = wdog_fault s \<and>
    wdog_gdev t = (if node then WNull else WLive [d])"

lemma wp_init_fail:
  assumes "wdog_pd 0 t = Some d"
    and "Q rc (t\<lparr>gpios := remove1 (gpio_hrst d) (remove1 (gpio_trst d) (gpios t)), wdog_gdev := WNull\<rparr>)"
  shows "wp (wdog_init_fail (Suc 0) rc) Q t"
  using assms by (simp add: wdog_init_fail_def gpio_free_def wp_eqs)

lemma init_wp:
  assumes "junk e = Some [d]" and "\<not> wdog_region s" and "\<not> wdog_class s"
  shows "wp (wdog_init e) (init_result (dt_node e) d s) s"
proof (cases "dt_node e")
  case False
  with assms(1) show ?thesis
    by (simp add: wdog_init_def wp_eqs init_result_def wdog_ledger_def errno_defs)
next
  case True
  have fail: "wp (wdog_init_fail 0 (- EINVAL)) (init_result True d s) (s\<lparr>wdog_gdev := WLive [d'], gpio_values := v\<rparr>)"
    "wp (wdog_init_fail 0 (- EINVAL)) (init_result True d s) (s\<lparr>wdog_gdev := WLive [d']\<rparr>)" for d' v
    by (simp_all add: wdog_init_fail_def wp_eqs init_result_def wdog_ledger_def errno_defs)
  have "wp (create_wdog_cdevs (cdev_env e))
      (\<lambda>rc. wp (if rc < 0 then wdog_init_fail 1 rc else ret rc) (init_result True d s))
      (s\<lparr>gpios := gpio_hrst d' # gpio_trst d' # gpios s, gpio_values := v, wdog_gdev := WLive [d']\<rparr>)"
    if "wdog_id d' = 0" "irq_status_flag d' = 0" "wdog_modem_status d' = WDOG_MODEM_NOT_READY"
      "domain_nr d' = PCI_DOMAIN_NR_INVALID" for d' v
    using that assms(2,3)
    by (intro wp_create_cdevs)
      (auto simp: wp_eqs init_result_def wdog_up_def wdog_ledger_def wdog_pd_def intro!: wp_init_fail)
  with True assms(1) fail show ?thesis
    unfolding wdog_init_def by (simp add: wp_eqs del: init_pds.simps) (rule wp_init_pds; simp add: wp_eqs)
qed

text \<open>
  Loading the watchdog is all or nothing. Whatever the device tree and the kernel answer,
  a failed start gives back every line, the device numbers, the class and the device nodes and
  leaves no structure behind, except when the device tree has no watchdog: then the global
  pointer keeps the uninitialised structure. A successful start holds exactly the two lines, one
  character device and one node, with the modem marked as not ready.
\<close>

theorem wdog_init_outcome:
  assumes "junk e = Some [d]" and "\<not> wdog_region s" and "\<not> wdog_class s"
  shows "case run_state (wdog_init e) s of (rc, t) \<Rightarrow> init_result (dt_node e) d s rc t"
  using init_wp [OF assms] by (simp add: wp_def)

section \<open>The device in use\<close>

datatype wdog_op =
    OpIrq
  | OpPoll
  | OpIoctl wdog_cmd "wdog_arg option"
  | OpStatus int int
  | OpDomain int int

fun wdog_exec :: "wdog_op \<Rightarrow> 'a wdog_world_scheme \<Rightarrow> 'a wdog_world_scheme" where
  "wdog_exec OpIrq s = snd (run_state (wdog_irq_handler 0) s)"
| "wdog_exec OpPoll s = snd (run_state (wdog_dev_poll 0) s)"
| "wdog_exec (OpIoctl c a) s = snd (run_state (wdog_dev_ioctl 0 c a) s)"
| "wdog_exec (OpStatus i v) s = snd (run_state (wdog_set_modem_status i v) s)"
| "wdog_exec (OpDomain i v) s = snd (run_state (wdog_set_pci_domain_nr i v) s)"

text \<open>The callers in the driver pass identifiers that are not negative.\<close>

fun op_ok :: "wdog_op \<Rightarrow> bool" where
  "op_ok (OpStatus i v) \<longleftrightarrow> i \<ge> 0"
| "op_ok (OpDomain i v) \<longleftrightarrow> i \<ge> 0"
| "op_ok _ \<longleftrightarrow> True"

inductive wdog_reach :: "'a wdog_world_scheme \<Rightarrow> 'a wdog_world_scheme \<Rightarrow> bool" for s where
  refl: "wdog_reach s s"
| step: "wdog_reach s t \<Longrightarrow> op_ok a \<Longrightarrow> wdog_reach s (wdog_exec a t)"

lemma up_pd: "wdog_up b s t d \<Longrightarrow> wdog_pd 0 t = Some d \<and> wdog_gdev t = WLive [d]"
  by (simp add: wdog_up_def wdog_pd_def)

lemma up_upd:
  assumes "wdog_up b s t d" and "wdog_id (f d) = wdog_id d" and "irq_status_flag (f d) = irq_status_flag d"
    and "irq_status_flag d \<noteq> 0 \<Longrightarrow> wd_irq (f d) = wd_irq d"
    and "gpio_hrst (f d) = gpio_hrst d" and "gpio_trst (f d) = gpio_trst d"
  shows "wdog_up b s (snd (run_state (set_pd 0 f) t)) (f d)"
  using assms by (auto simp: wdog_up_def set_pd_def)

lemma up_register:
  assumes "wdog_up b s t d"
  shows "\<exists>d. wdog_up b s (snd (run_state (wdog_register_irq req 0) t)) d"
proof -
  let ?d = "d\<lparr>wdog_event_status := 0, wd_irq := wdog_msi_irq t\<rparr>"
  let ?r = "wdog_msi_irq t \<noteq> 0 \<and> irq_status_flag d = 0 \<and> \<not> req < 0"
  have "wdog_up b s (snd (run_state (wdog_register_irq req 0) t))
    (if ?r then ?d\<lparr>irq_status_flag := 1\<rparr> else ?d)"
    using assms
    by (simp add: wdog_register_irq_def wdog_up_def set_pd_def get_wdog_msi_def wdog_pd_def)
  then show ?thesis by blast
qed

lemma up_deregister:
  assumes "wdog_up b s t d"
  shows "\<exists>d. wdog_up b s (snd (run_state (wdog_deregister_irq 0) t)) d"
proof -
  have "wdog_up b s (snd (run_state (wdog_deregister_irq 0) t)) (d\<lparr>irq_status_flag := 0\<rparr>)"
    using assms by (simp add: wdog_deregister_irq_def wdog_up_def set_pd_def free_wdog_irq_def wdog_pd_def)
  then show ?thesis by blast
qed

lemma up_quiet:
  assumes "wdog_up b s t d"
  shows "wdog_up b s (t\<lparr>gpio_values := v\<rparr>) d"
  using assms by (simp add: wdog_up_def)

lemma up_ioctl:
  assumes "wdog_up b s t d"
  shows "\<exists>d. wdog_up b s (snd (run_state (wdog_dev_ioctl 0 c a) t)) d"
  using assms up_register [OF assms] up_deregister [OF assms] up_quiet [OF assms]
  by (cases c; cases a)
    (auto simp: wdog_dev_ioctl_def wdog_reply_def wdog_reset_modem_def up_pd gpio_set_def split_beta)

lemma up_status:
  assumes "wdog_up b s t d" and "i \<ge> 0" and "\<And>d. wdog_id (f d) = wdog_id d"
    and "\<And>d. irq_status_flag (f d) = irq_status_flag d" and "\<And>d. wd_irq (f d) = wd_irq d"
    and "\<And>d. gpio_hrst (f d) = gpio_hrst d" and "\<And>d. gpio_trst (f d) = gpio_trst d"
  shows "\<exists>d. wdog_up b s (snd (run_state (wdog_set_status i f) t)) d"
  using assms up_upd [OF assms(1), of f] by (auto simp: wdog_set_status_def up_pd split_beta)

lemma up_exec:
  assumes "wdog_up b s t d" and "op_ok a"
  shows "\<exists>d. wdog_up b s (wdog_exec a t) d"
proof (cases a)
  case OpIrq
  show ?thesis unfolding OpIrq wdog_exec.simps wdog_irq_handler_def
    by (rule exI, rule up_upd [OF assms(1)]) simp_all
next
  case OpPoll
  have "wdog_up b s (snd (run_state (set_pd 0 (wdog_event_status_update (\<lambda>_. 0))) t))
    (d\<lparr>wdog_event_status := 0\<rparr>)" by (rule up_upd [OF assms(1)]) simp_all
  with assms(1) show ?thesis by (auto simp: OpPoll wdog_dev_poll_def up_pd split_beta)
next
  case (OpIoctl c x)
  show ?thesis using up_ioctl [OF assms(1)] by (simp add: OpIoctl)
next
  case (OpStatus i v)
  with assms show ?thesis by (auto simp: wdog_set_modem_status_def intro!: up_status)
next
  case (OpDomain i v)
  with assms show ?thesis by (auto simp: wdog_set_pci_domain_nr_def intro!: up_status)
qed

lemma up_reach:
  assumes "wdog_reach t u" and "wdog_up b s t d"
  shows "\<exists>d. wdog_up b s u d"
  using assms by (induction) (auto dest: up_exec)

lemma up_exit:
  assumes "wdog_up b s t d" and "\<not> wdog_region s" and "\<not> wdog_class s"
  shows "wdog_ledger (snd (run_state wdog_exit t)) = wdog_ledger s \<and>
    wdog_irqs (snd (run_state wdog_exit t)) = b \<and>
    wdog_fault (snd (run_state wdog_exit t)) = wdog_fault s \<and>
    fst (run_state wdog_exit t) = 0 \<and> wdog_gdev (snd (run_state wdog_exit t)) = WFreed"
  using assms
  by (auto simp: wdog_exit_def wdog_steps wdog_up_def wdog_ledger_def split_beta)


text \<open>
  Registering a second time replaces the recorded interrupt number even though the first
  request is kept. When the number changed in between, as it may after the endpoint was probed
  again, the next deregistration releases an interrupt that is not held and the one that is held
  is never released.
\<close>

theorem wdog_stale_irq:
  assumes "wdog_pd 0 s = Some d" and "wdog_id d = 0" and "irq_status_flag d \<noteq> 0"
    and "wdog_msi_irq s \<noteq> 0" and "wdog_msi_irq s \<notin> set (wdog_irqs s)"
  shows "case run_state (do { rc \<leftarrow> wdog_register_irq req 0; wdog_deregister_irq 0; ret rc }) s of
    (rc, t) \<Rightarrow> rc = 0 \<and> wdog_fault t \<and> wdog_irqs t = wdog_irqs s"
  using assms
  by (auto simp: wdog_register_irq_def wdog_deregister_irq_def set_pd_def get_wdog_msi_def
      free_wdog_irq_def wdog_pd_def remove1_idem split: wdog_ptr.splits if_splits)

section \<open>Witnesses\<close>

definition sample_wdog :: wdog_world where
  "sample_wdog = ipc_world.extend sample_ipc \<lparr>wdog_msi_irq = 7, wdog_gdev = WNull, gpios = [],
     gpio_values = [], wdog_irqs = [], wdog_region = False, wdog_class = False, wdog_cdevs = [],
     wdog_nodes = [], wdog_fault = False\<rparr>"

lemma sample_wdog_simps [simp]:
  "wdog_msi_irq sample_wdog = 7" "wdog_gdev sample_wdog = WNull" "gpios sample_wdog = []"
  "wdog_irqs sample_wdog = []" "\<not> wdog_region sample_wdog" "\<not> wdog_class sample_wdog"
  "wdog_cdevs sample_wdog = []" "wdog_nodes sample_wdog = []" "\<not> wdog_fault sample_wdog"
  by (simp_all add: sample_wdog_def ipc_world.defs)

definition sample_pd :: wdog_priv where
  "sample_pd = \<lparr>wd_irq = 0, irq_status_flag = 9, gpio_hrst = 0, gpio_trst = 0, wdog_id = 0,
     wdog_modem_status = 5, domain_nr = 0, wdog_event_status = 1\<rparr>"

definition sample_wdog_env :: "bool \<Rightarrow> wdog_env" where
  "sample_wdog_env node = \<lparr>junk = Some [sample_pd], dt_node = node,
     gpio_env = (\<lambda>i. \<lparr>dt_trst = 11, dt_hrst = 12, req_trst = 0, dir_trst = 0, req_hrst = 0, dir_hrst = 0\<rparr>),
     cdev_env = \<lparr>chr_rc = 0, class_ok = True, add_rc = (\<lambda>i. 0), node_ok = (\<lambda>i. True)\<rparr>\<rparr>"

lemma sample_init_run:
  "run_state (wdog_init (sample_wdog_env True)) sample_wdog =
     (0, snd (run_state (wdog_init (sample_wdog_env True)) sample_wdog))"
  by (simp add: wdog_init_def sample_wdog_env_def wdog_steps split_beta)

theorem wdog_init_outcome_witness:
  "wdog_gdev (snd (run_state (wdog_init (sample_wdog_env False)) sample_wdog)) = WLive [sample_pd]"
  using wdog_init_outcome [of "sample_wdog_env False" sample_pd sample_wdog]
  by (auto simp: split_beta init_result_def wdog_init_def sample_wdog_env_def wdog_up_def errno_defs)


theorem wdog_stale_irq_witness:
  "wdog_fault (snd (run_state (do { rc \<leftarrow> wdog_register_irq 0 0; wdog_deregister_irq 0; ret rc })
     (sample_wdog\<lparr>wdog_gdev := WLive [sample_pd\<lparr>wd_irq := 5\<rparr>], wdog_irqs := [5]\<rparr>)))"
  using wdog_stale_irq [of "sample_wdog\<lparr>wdog_gdev := WLive [sample_pd\<lparr>wd_irq := 5\<rparr>], wdog_irqs := [5]\<rparr>"
      "sample_pd\<lparr>wd_irq := 5\<rparr>" 0]
  by (simp add: split_beta wdog_pd_def sample_pd_def)

end
