(* ===== verification/Base_Probe.thy ===== *)
theory Base_Probe
  imports Vspa_Probe Wdog
begin

text \<open>
  Bring-up and tear-down of the whole endpoint, the middle of la9310_base.c: the stages of
  \<open>la9310_base_probe\<close>, the unwinding of \<open>la9310_base_deinit\<close>, \<open>la9310_base_remove\<close> and the table of
  sub-drivers, with the sysfs and statistics set-up they call (la9310_sysfs.c) and the module
  hooks of the IPC sub-driver (la9310_ipc.c).

  The resources are ledgers: \<open>sysfs_group\<close> the attribute group, \<open>hs_irq\<close> the handshake interrupt,
  \<open>ipc_region\<close> the device numbers of the IPC driver; \<open>irq_fault\<close> records the release of an
  interrupt that is not held, and \<open>msi_on\<close> whether the kernel has message interrupts enabled.
\<close>

section \<open>Data\<close>

record probe_world = wdog_world +
  la_id :: int
  sysfs_group :: bool
  hs_irq :: bool
  stats_control :: u32
  subdrv_cnt :: nat
  ipc_region :: bool
  irq_fault :: bool
  msi_on :: bool

datatype init_stage =
    LA9310_SCRATCH_DMA_INIT_STAGE
  | LA9310_SYSFS_INIT_STAGE
  | LA9310_HANDSHAKE_INIT_STAGE
  | LA9310_IRQ_INIT_STAGE
  | LA9310_SUBDRV_PROBE_STAGE

text \<open>The table \<open>sub_drvs_g\<close>; the last entry is empty and has no hooks.\<close>

datatype subdrv = SubIpc | SubVspa | SubNone

definition sub_drvs_g :: "subdrv list" where
  "sub_drvs_g = [SubIpc, SubVspa, SubNone]"

text \<open>Bits 0, 1, 2, 4, 5, 6 and 7.\<close>

definition LA9310_STATS_DEFAULT_ENABLE_MASK :: u32 where
  "LA9310_STATS_DEFAULT_ENABLE_MASK =
     push_bit 0 1 OR push_bit 1 1 OR push_bit 2 1 OR push_bit 4 1 OR push_bit 5 1 OR push_bit 6 1 OR push_bit 7 1"

text \<open>What the kernel, the firmware loader and the device tree answer during a probe.\<close>

record probe_env =
  scratch_va :: "u64 option"
  sysfs_rc :: int
  ep_stats_mem :: bool
  rtos_fw :: "int + u8 list"
  mux_env :: irq_env
  hs_rc :: int
  pci_domain :: int
  ipc_answers :: ipc_env
  vspa_answers :: vspa_env

section \<open>Sysfs and statistics\<close>

definition la9310_init_sysfs :: "int \<Rightarrow> ('a probe_world_scheme, int) state" where
  "la9310_init_sysfs rc =
     (if rc \<noteq> 0 then ret rc
      else do {
        modify (\<lambda>s. s\<lparr>sysfs_group := True\<rparr>);
        modify (\<lambda>s. s\<lparr>stats_nodes := 0\<rparr>);
        ret 0
      })"

definition la9310_remove_sysfs :: "('a probe_world_scheme, unit) state" where
  "la9310_remove_sysfs = modify (\<lambda>s. s\<lparr>sysfs_group := False\<rparr>)"

definition la9310_remove_stats :: "('a irq_world_scheme, unit) state" where
  "la9310_remove_stats = modify (\<lambda>s. s\<lparr>stats_nodes := 0\<rparr>)"

definition la9310_register_ep_stats_ops :: "bool \<Rightarrow> ('a irq_world_scheme, int) state" where
  "la9310_register_ep_stats_ops ok = add_stats_node ok"

section \<open>Interrupts of the device\<close>

definition la9310_get_msi_irq :: "nat \<Rightarrow> 'a irq_world_scheme \<Rightarrow> int" where
  "la9310_get_msi_irq ty s = irq_val (irq_tab s ! ty)"

definition free_mux_irq :: "('a probe_world_scheme, unit) state" where
  "free_mux_irq = do {
     held \<leftarrow> gets mux_irq;
     modify (\<lambda>s. s\<lparr>mux_irq := False\<rparr>);
     modify (\<lambda>s. s\<lparr>irq_fault := (irq_fault s \<or> \<not> held)\<rparr>)
   }"

definition free_hs_irq :: "('a probe_world_scheme, unit) state" where
  "free_hs_irq =
     modify (\<lambda>s. s\<lparr>hs_irq := False, irq_fault := (irq_fault s \<or> \<not> hs_irq s)\<rparr>)"

section \<open>Sub-drivers\<close>

text \<open>The table of virtual interrupts a sub-driver is handed; a null pointer when it is empty.\<close>

definition subdrv_virqs :: "platform \<Rightarrow> subdrv_type \<Rightarrow> ('a irq_world_scheme, virq_evt_map list) state" where
  "subdrv_virqs p ty = do {
     q \<leftarrow> gets irq_priv;
     tab \<leftarrow> gets irq_tab;
     (case q of
        PLive m \<Rightarrow> ret (la9310_get_subdrv_virqmap p
          (\<lambda>n. irq_val (tab ! (if n = ''MSI_IRQ_WDOG'' then msi_irq_wdog p else msi_irq_v2h p))) m ty)
      | _ \<Rightarrow> do { modify (\<lambda>s. s\<lparr>uaf := True\<rparr>); ret [] })
   }"

fun subdrv_probe :: "platform \<Rightarrow> probe_env \<Rightarrow> subdrv \<Rightarrow> ('a probe_world_scheme, int) state" where
  "subdrv_probe p e SubIpc = do {
     _ \<leftarrow> subdrv_virqs p SUBDRV_IPC;
     la9310_ipc_probe p (ipc_answers e)
   }"
| "subdrv_probe p e SubVspa = do {
     vs \<leftarrow> subdrv_virqs p SUBDRV_VSPA;
     vspa_probe ((vspa_answers e)\<lparr>vspa_virq := (case vs of [] \<Rightarrow> None | v # _ \<Rightarrow> Some (virq v))\<rparr>)
   }"
| "subdrv_probe p e SubNone = ret 0"

fun subdrv_remove :: "subdrv \<Rightarrow> ('a probe_world_scheme, int) state" where
  "subdrv_remove SubIpc = la9310_ipc_remove"
| "subdrv_remove SubVspa = vspa_remove"
| "subdrv_remove SubNone = ret 0"

text \<open>The loop of the probe: the index of the sub-driver that failed comes with its code.\<close>

fun probe_subdrvs ::
  "platform \<Rightarrow> probe_env \<Rightarrow> nat list \<Rightarrow> ('a probe_world_scheme, (nat \<times> int) option) state" where
  "probe_subdrvs p e [] = ret None"
| "probe_subdrvs p e (i # is) = do {
     rc \<leftarrow> subdrv_probe p e (sub_drvs_g ! i);
     if rc \<noteq> 0 then ret (Some (i, rc)) else probe_subdrvs p e is
   }"

fun remove_subdrvs :: "nat list \<Rightarrow> ('a probe_world_scheme, int) state" where
  "remove_subdrvs [] = ret 0"
| "remove_subdrvs (i # is) = do {
     rc \<leftarrow> subdrv_remove (sub_drvs_g ! i);
     rc' \<leftarrow> remove_subdrvs is;
     ret (if is = [] then rc else rc')
   }"

definition la9310_base_cleanup_subdrv :: "nat \<Rightarrow> ('a probe_world_scheme, int) state" where
  "la9310_base_cleanup_subdrv drv_index = remove_subdrvs (rev [0..<Suc drv_index])"

definition la9310_subdrv_remove :: "('a probe_world_scheme, unit) state" where
  "la9310_subdrv_remove = do {
     n \<leftarrow> gets subdrv_cnt;
     _ \<leftarrow> remove_subdrvs [0..<n];
     ret ()
   }"

section \<open>Probe, unwinding, remove\<close>

text \<open>\<open>iounmap\<close> of a null pointer is allowed.\<close>

definition unmap_scratch :: "('a base_world_scheme, unit) state" where
  "unmap_scratch = do {
     v \<leftarrow> gets (\<lambda>s. mr_vaddr (host_buf s));
     if v = 0 then ret () else iounmap_host
   }"

fun stage_rank :: "init_stage \<Rightarrow> nat" where
  "stage_rank LA9310_SCRATCH_DMA_INIT_STAGE = 0"
| "stage_rank LA9310_SYSFS_INIT_STAGE = 1"
| "stage_rank LA9310_HANDSHAKE_INIT_STAGE = 2"
| "stage_rank LA9310_IRQ_INIT_STAGE = 3"
| "stage_rank LA9310_SUBDRV_PROBE_STAGE = 4"

text \<open>The cases of the switch fall through from the reached stage down to the first.
  \<open>deinit_from k\<close>: the cases below the one for the sub-drivers.\<close>

definition deinit_from :: "nat \<Rightarrow> ('a probe_world_scheme, unit) state" where
  "deinit_from k = do {
     (if k \<ge> 3 then do { _ \<leftarrow> la9310_clean_request_irq; ret () } else ret ());
     (if k \<ge> 2 then do { free_hs_irq; free_mux_irq } else ret ());
     (if k \<ge> 1 then la9310_remove_sysfs else ret ());
     unmap_scratch
   }"

definition la9310_base_deinit :: "init_stage \<Rightarrow> nat \<Rightarrow> ('a probe_world_scheme, unit) state" where
  "la9310_base_deinit stage drv_index = do {
     (if stage = LA9310_SUBDRV_PROBE_STAGE then do { _ \<leftarrow> la9310_base_cleanup_subdrv drv_index; ret () }
      else ret ());
     deinit_from (stage_rank stage)
   }"

definition base_fail :: "init_stage \<Rightarrow> nat \<Rightarrow> int \<Rightarrow> ('a probe_world_scheme, int) state" where
  "base_fail stage i rc = do { la9310_base_deinit stage i; ret rc }"

text \<open>The pointers to the message units (\<open>la9310_init_msg_unit_ptrs\<close>) are not state here: a doorbell is
  named by its index. From the handshake on: the answer of the handshake interrupt's request is not looked at.\<close>

definition base_probe_late :: "platform \<Rightarrow> probe_env \<Rightarrow> ('a probe_world_scheme, int) state" where
  "base_probe_late p e = do {
     modify (\<lambda>s. s\<lparr>hs_irq := (hs_rc e = 0)\<rparr>);
     rc \<leftarrow> la9310_do_reset_handshake p;
     if rc \<noteq> 0 then base_fail LA9310_HANDSHAKE_INIT_STAGE 0 rc
     else do {
       rc \<leftarrow> la9310_verify_hif_compatibility p;
       if rc \<noteq> 0 then base_fail LA9310_HANDSHAKE_INIT_STAGE 0 rc
       else do {
         modify (\<lambda>s. s\<lparr>wdog_msi_irq := la9310_get_msi_irq (msi_irq_wdog p) s\<rparr>);
         raw_write (Ccsr ''PCIE_ABSERR'') (pcie_abserr_setting p);
         i \<leftarrow> gets la_id;
         _ \<leftarrow> wdog_set_pci_domain_nr i (pci_domain e);
         _ \<leftarrow> wdog_set_modem_status 0 WDOG_MODEM_READY;
         n \<leftarrow> gets subdrv_cnt;
         r \<leftarrow> probe_subdrvs p e [0..<n];
         (case r of
            Some (i, rc) \<Rightarrow> base_fail LA9310_SUBDRV_PROBE_STAGE i rc
          | None \<Rightarrow> ret 0)
       }
     }
   }"

definition la9310_base_probe :: "platform \<Rightarrow> probe_env \<Rightarrow> ('a probe_world_scheme, int) state" where
  "la9310_base_probe p e = do {
     modify (\<lambda>s. s\<lparr>stats_control := LA9310_STATS_DEFAULT_ENABLE_MASK\<rparr>);
     rc \<leftarrow> la9310_scratch_dma_buf p (scratch_va e);
     if rc \<noteq> 0 then base_fail LA9310_SCRATCH_DMA_INIT_STAGE 0 rc
     else do {
       la9310_create_rfnm_iqflood_outbound p;
       rc \<leftarrow> la9310_init_hif p;
       if rc \<noteq> 0 then base_fail LA9310_SCRATCH_DMA_INIT_STAGE 0 rc
       else do {
         la9310_init_ep_logger p;
         rc \<leftarrow> la9310_init_sysfs (sysfs_rc e);
         if rc \<noteq> 0 then base_fail LA9310_SCRATCH_DMA_INIT_STAGE 0 rc
         else do {
           rc \<leftarrow> la9310_register_ep_stats_ops (ep_stats_mem e);
           if rc \<noteq> 0 then base_fail LA9310_SYSFS_INIT_STAGE 0 rc
           else do {
             rc \<leftarrow> la9310_load_rtos_img p (rtos_fw e);
             if rc \<noteq> 0 then base_fail LA9310_SYSFS_INIT_STAGE 0 rc
             else do {
               rc \<leftarrow> la9310_request_irq p (mux_env e);
               if rc \<noteq> 0 then base_fail LA9310_SYSFS_INIT_STAGE 0 rc
               else base_probe_late p e
             }
           }
         }
       }
     }
   }"

definition la9310_base_remove :: "('a probe_world_scheme, int) state" where
  "la9310_base_remove = do {
     unmap_scratch;
     modify (\<lambda>s. s\<lparr>host_buf := (host_buf s)\<lparr>mr_vaddr := 0\<rparr>\<rparr>);
     la9310_subdrv_remove;
     _ \<leftarrow> la9310_clean_request_irq;
     free_mux_irq;
     free_hs_irq;
     modify (\<lambda>s. s\<lparr>msi_on := False\<rparr>);
     la9310_remove_sysfs;
     la9310_remove_stats;
     ret 0
   }"

section \<open>Module hooks\<close>

definition la9310_ipc_init :: "int \<Rightarrow> ('a probe_world_scheme, int) state" where
  "la9310_ipc_init rc = do {
     modify (\<lambda>s. s\<lparr>ipc_minor_index := 0\<rparr>);
     if rc < 0 then ret rc
     else do { modify (\<lambda>s. s\<lparr>ipc_region := True\<rparr>); ret rc }
   }"

definition la9310_ipc_exit :: "('a probe_world_scheme, int) state" where
  "la9310_ipc_exit = do { modify (\<lambda>s. s\<lparr>ipc_region := False\<rparr>); ret 0 }"

text \<open>Only the IPC entry of the table has module hooks.\<close>

fun init_subdrvs :: "int \<Rightarrow> subdrv list \<Rightarrow> ('a probe_world_scheme, int) state" where
  "init_subdrvs chr [] = ret 0"
| "init_subdrvs chr (d # ds) = do {
     rc \<leftarrow> (if d = SubIpc then la9310_ipc_init chr else ret 0);
     if rc \<noteq> 0 then ret rc else init_subdrvs chr ds
   }"

definition la9310_subdrv_mod_init :: "int \<Rightarrow> ('a probe_world_scheme, int) state" where
  "la9310_subdrv_mod_init chr = do {
     modify (\<lambda>s. s\<lparr>subdrv_cnt := length sub_drvs_g\<rparr>);
     init_subdrvs chr sub_drvs_g
   }"

fun exit_subdrvs :: "subdrv list \<Rightarrow> ('a probe_world_scheme, unit) state" where
  "exit_subdrvs [] = ret ()"
| "exit_subdrvs (d # ds) = do {
     _ \<leftarrow> (if d = SubIpc then la9310_ipc_exit else ret 0);
     exit_subdrvs ds
   }"

definition la9310_subdrv_mod_exit :: "('a probe_world_scheme, unit) state" where
  "la9310_subdrv_mod_exit = do {
     n \<leftarrow> gets subdrv_cnt;
     exit_subdrvs (take n sub_drvs_g)
   }"


section \<open>Resources\<close>

text \<open>The resources of a probed device, in four groups; a step of the probe changes one of them.\<close>

definition same_base :: "'a probe_world_scheme \<Rightarrow> 'a probe_world_scheme \<Rightarrow> bool" where
  "same_base s t \<longleftrightarrow> mapped t = mapped s \<and> host_buf t = host_buf s"

definition same_vspa :: "'a probe_world_scheme \<Rightarrow> 'a probe_world_scheme \<Rightarrow> bool" where
  "same_vspa s t \<longleftrightarrow> vspa_irq_held t = vspa_irq_held s \<and> has_vspa t = has_vspa s"

definition same_irq :: "'a probe_world_scheme \<Rightarrow> 'a probe_world_scheme \<Rightarrow> bool" where
  "same_irq s t \<longleftrightarrow> mux_irq t = mux_irq s \<and> irq_priv t = irq_priv s"

definition same_top :: "'a probe_world_scheme \<Rightarrow> 'a probe_world_scheme \<Rightarrow> bool" where
  "same_top s t \<longleftrightarrow> sysfs_group t = sysfs_group s \<and> hs_irq t = hs_irq s \<and> subdrv_cnt t = subdrv_cnt s"

lemmas same_defs = same_base_def same_vspa_def same_irq_def same_top_def ipc_unchanged_def


section \<open>What the parts leave alone\<close>

text \<open>
  The firmware loaders, the boot of the VSPA and every register access stay inside the loader's
  and the registry's state: under \<open>base_frame\<close> the resources are untouched.
\<close>

definition base_frame :: "'a probe_world_scheme \<Rightarrow> 'a probe_world_scheme \<Rightarrow> bool" where
  "base_frame s t \<longleftrightarrow> same_base s t \<and> same_irq s t \<and> same_top s t \<and> ipc_unchanged s t \<and>
     vspa_irq_held t = vspa_irq_held s \<and> (has_vspa s \<longrightarrow> has_vspa t)"

interpretation bf: run_rel base_frame
  by unfold_locales (auto simp: base_frame_def same_defs)

named_theorems base_rules "computations that keep the base's resources"

lemma vspa_more_eq:
  assumes "vspa_world.more t = vspa_world.more s"
  shows "t = s\<lparr>tick := tick t, fence_at := fence_at t, dev_read := dev_read t, poll_reads := poll_reads t,
    fence_hits := fence_hits t, bus := bus t, vd := vd t, hmem := hmem t, ovl := ovl t, dma_id := dma_id t,
    vfault := vfault t\<rparr>"
  using assms by (cases s rule: vspa_world.cases_scheme; cases t rule: vspa_world.cases_scheme) simp

lemma core_base: "core_frame s t \<Longrightarrow> base_frame s t"
  unfolding core_frame_def by (elim conjE, drule vspa_more_eq, erule ssubst) (simp add: base_frame_def same_defs)

lemma bus_step_base_frame: "bus_step s t b \<Longrightarrow> base_frame s t"
  unfolding bus_step_def by (elim ssubst) (simp add: base_frame_def same_defs)

lemma core_rel_base: "state_io_rel core_frame m \<Longrightarrow> state_io_rel base_frame m"
  by (auto simp: state_io_rel_def intro: core_base)

lemma bus_rel_base: "state_io_rel bus_rel m \<Longrightarrow> state_io_rel base_frame m"
  by (auto simp: state_io_rel_def bus_rel_def intro: bus_step_base_frame)

lemmas window_base [base_rules] = raw_write_frame [THEN bus_rel_base] raw_read_frame [THEN bus_rel_base]
  reg_write_frame [THEN bus_rel_base] reg_read_frame [THEN bus_rel_base]
  readl_poll_frame [THEN bus_rel_base] swap_forensics_bus [THEN bus_rel_base]

lemmas loader_base [base_rules] = startup_core [THEN core_rel_base] load_image_core [THEN core_rel_base]
  set_vd_core [THEN core_rel_base]

lemma modify_base [base_rules]:
  "state_io_rel base_frame (modify (\<lambda>s :: 'a probe_world_scheme. s\<lparr>hmem := f1 s\<rparr>))"
  "state_io_rel base_frame (modify (\<lambda>s :: 'a probe_world_scheme. s\<lparr>ovl := f2 s\<rparr>))"
  "state_io_rel base_frame (modify (\<lambda>s :: 'a probe_world_scheme. s\<lparr>vfault := f3 s\<rparr>))"
  "state_io_rel base_frame (modify (\<lambda>s :: 'a probe_world_scheme. s\<lparr>running := f4 s\<rparr>))"
  "state_io_rel base_frame (modify (\<lambda>s :: 'a probe_world_scheme. s\<lparr>selected := f5 s\<rparr>))"
  "state_io_rel base_frame (modify (\<lambda>s :: 'a probe_world_scheme. s\<lparr>boot_gen := f6 s\<rparr>))"
  "state_io_rel base_frame (modify (\<lambda>s :: 'a probe_world_scheme. s\<lparr>loader_busy := f7 s\<rparr>))"
  "state_io_rel base_frame (modify (\<lambda>s :: 'a probe_world_scheme. s\<lparr>has_vspa := True\<rparr>))"
  "state_io_rel base_frame (modify (\<lambda>s :: 'a probe_world_scheme. s\<lparr>vspa_freed := f9 s\<rparr>))"
  "state_io_rel base_frame (modify (\<lambda>s :: 'a probe_world_scheme. s\<lparr>fwi_busy := g1 s\<rparr>))"
  "state_io_rel base_frame (modify (\<lambda>s :: 'a probe_world_scheme. s\<lparr>fwi_name := g2 s\<rparr>))"
  "state_io_rel base_frame (modify (\<lambda>s :: 'a probe_world_scheme. s\<lparr>fwi_size := g3 s\<rparr>))"
  "state_io_rel base_frame (modify (\<lambda>s :: 'a probe_world_scheme. s\<lparr>vd := g4 s\<rparr>))"
  "state_io_rel base_frame (modify (\<lambda>s :: 'a probe_world_scheme. s\<lparr>stats_mem := g5 s\<rparr>))"
  by (simp_all add: state_io_rel_def base_frame_def same_defs)

lemma park_wait_base [base_rules]: "state_io_rel base_frame (park_wait n)"
  by (induction n) (simp_all add: bf.rel_rules base_rules)

lemma copy_blob_base [base_rules]: "state_io_rel base_frame (copy_blob e r a)"
  unfolding copy_blob_def by (simp add: state_io_rel_def base_frame_def same_defs split: option.splits)

lemma read_all_base [base_rules]: "state_io_rel base_frame (read_all as)"
  by (induction "as") (simp_all add: bf.rel_rules base_rules)

lemma boot_tail_base [base_rules]: "state_io_rel base_frame rfnm_vspa_boot_tail"
  unfolding rfnm_vspa_boot_tail_def la9310_set_host_ready_def by (intro bf.rel_rules base_rules)

lemma boot_image_base [base_rules]: "state_io_rel base_frame (rfnm_vspa_boot_image_locked i)"
  unfolding rfnm_vspa_boot_image_locked_def boot_fail_def by (intro bf.rel_rules base_rules)

lemma probe_boot_base [base_rules]: "state_io_rel base_frame rfnm_vspa_probe_boot"
  unfolding rfnm_vspa_probe_boot_def by (intro bf.rel_rules base_rules)

lemma firmware_base [base_rules]:
  "state_io_rel base_frame la9310_dev_reserve_firmware"
  "state_io_rel base_frame la9310_dev_free_firmware"
  "state_io_rel base_frame (la9310_udev_load_firmware b n name fw)"
proof -
  show "state_io_rel base_frame la9310_dev_reserve_firmware"
    unfolding la9310_dev_reserve_firmware_def by (intro bf.rel_rules base_rules)
  show "state_io_rel base_frame la9310_dev_free_firmware"
    by (simp add: la9310_dev_free_firmware_def state_io_rel_def base_frame_def same_defs)
  show "state_io_rel base_frame (la9310_udev_load_firmware b n name fw)"
    unfolding la9310_udev_load_firmware_def
    by (cases fw) (simp_all add: bf.rel_rules base_rules)
qed

lemma get_fw_image_base [base_rules]: "state_io_rel base_frame (vspa_get_fw_image fw)"
  unfolding vspa_get_fw_image_def by (intro bf.rel_rules base_rules)

lemma load_rtos_base [base_rules]: "state_io_rel base_frame (la9310_load_rtos_img p fw)"
  unfolding la9310_load_rtos_img_def la9310_wait_for_boot_scratch_def by (intro bf.rel_rules base_rules)

lemma ep_logger_base [base_rules]: "state_io_rel base_frame (la9310_init_ep_logger p)"
proof -
  have "state_io_rel base_frame (modify (\<lambda>s :: 'a probe_world_scheme.
    s\<lparr>ep_log_buf := a, ep_log_len := b, ep_log_offset := 0\<rparr>))" for a b
    by (simp add: state_io_rel_def base_frame_def same_defs)
  then show ?thesis unfolding la9310_init_ep_logger_def by (intro bf.rel_rules base_rules)
qed

lemma zero_words_base [base_rules]: "state_io_rel base_frame (zero_words is)"
  by (induction "is") (simp_all add: bf.rel_rules base_rules)

lemma register_setup_base [base_rules]:
  "state_io_rel base_frame (la9310_init_hif p)"
  "state_io_rel base_frame (la9310_verify_hif_compatibility p)"
  "state_io_rel base_frame (la9310_do_reset_handshake p)"
  "state_io_rel base_frame (la9310_create_rfnm_iqflood_outbound p)"
  "state_io_rel base_frame (la9310_create_outbound_msi p)"
  unfolding la9310_init_hif_def la9310_verify_hif_compatibility_def la9310_do_reset_handshake_def
    la9310_create_rfnm_iqflood_outbound_def la9310_create_outbound_msi_def ls_pcie_iatu_outbound_set_def
  by (intro bf.rel_rules base_rules)+

lemma zeroise_base [base_rules]: "state_io_rel base_frame (zeroise_loop hw r v cc)"
proof (induction hw r v cc rule: zeroise_loop.induct)
  case (1 hw r v cc)
  have "state_io_rel base_frame (stage_copy r' bs)" for r' bs
    by (rule core_rel_base [OF stage_copy_core])
  moreover have "state_io_rel base_frame (dma_raw_transmit d)" for d
    by (rule bus_rel_base [OF dma_raw_transmit_frame])
  ultimately show ?case
    using 1 by (subst zeroise_loop.simps) (auto intro!: bf.rel_rules base_rules split: option.splits)
qed

lemma mem_init_base [base_rules]: "state_io_rel base_frame (vspa_mem_initialization ok)"
  unfolding vspa_mem_initialization_def by (intro bf.rel_rules base_rules)

lemma wp_base:
  "state_io_rel base_frame m \<Longrightarrow> (\<And>r t. base_frame s t \<Longrightarrow> Q r t) \<Longrightarrow> wp m Q s"
  by (simp add: state_io_rel_def wp_iff_run)

section \<open>Sub-drivers\<close>

text \<open>Inside the VSPA probe: the other resources are those of \<open>s\<close>, and \<open>h\<close> says whether the
  interrupt is held.\<close>

definition other_same :: "'a probe_world_scheme \<Rightarrow> 'a probe_world_scheme \<Rightarrow> bool" where
  "other_same s t \<longleftrightarrow> same_base s t \<and> same_irq s t \<and> same_top s t \<and> ipc_unchanged s t"

definition in_vspa :: "'a probe_world_scheme \<Rightarrow> bool \<Rightarrow> 'a probe_world_scheme \<Rightarrow> bool" where
  "in_vspa s h t \<longleftrightarrow> other_same s t \<and> has_vspa t \<and> vspa_irq_held t = h"

lemma wp_in_vspa:
  assumes "in_vspa s h u" and "state_io_rel base_frame m" and "\<And>r t. in_vspa s h t \<Longrightarrow> Q r t"
  shows "wp m Q u"
  using assms(1)
  by (intro wp_base [OF assms(2)] assms(3)) (auto simp: in_vspa_def other_same_def base_frame_def same_defs)

text \<open>A VSPA probe: the interrupt is held after success, and never without the device structure.\<close>

definition vspa_probed :: "'a probe_world_scheme \<Rightarrow> int \<Rightarrow> 'a probe_world_scheme \<Rightarrow> bool" where
  "vspa_probed s rc t \<longleftrightarrow> other_same s t \<and> (rc = 0 \<longrightarrow> vspa_irq_held t) \<and> (vspa_irq_held t \<longrightarrow> has_vspa t)"

lemma probed_in: "in_vspa s h t \<Longrightarrow> rc \<noteq> 0 \<or> h \<Longrightarrow> vspa_probed s rc t"
  by (auto simp: in_vspa_def vspa_probed_def)

lemma probed_held: "in_vspa s True t \<Longrightarrow> vspa_probed s rc t"
  by (rule probed_in [where h = True]) simp_all

lemma errno_nonzero [simp]:
  "ENOMEM \<noteq> 0" "EINVAL \<noteq> 0" "EADDRNOTAVAIL \<noteq> 0" "EFAULT \<noteq> 0" "EBADRQC \<noteq> 0"
  by (simp_all add: errno_defs)

lemma in_vspa_steps:
  "\<not> vspa_irq_held s \<Longrightarrow> in_vspa s False (s\<lparr>vd := x, has_vspa := True, vspa_freed := False\<rparr>)"
  "in_vspa s h t \<Longrightarrow> in_vspa s h (t\<lparr>vd := x\<rparr>)"
  "in_vspa s h t \<Longrightarrow> in_vspa s h (t\<lparr>vfault := b\<rparr>)"
  "in_vspa s h t \<Longrightarrow> in_vspa s True (t\<lparr>vspa_irq_held := True\<rparr>)"
  by (simp_all add: in_vspa_def other_same_def same_defs)

lemma vspa_probe_wp:
  assumes "\<not> vspa_irq_held s"
  shows "wp (vspa_probe e) (vspa_probed s) s"
proof -
  have none: "rc \<noteq> 0 \<Longrightarrow> vspa_probed s rc s" for rc
    using assms by (simp add: vspa_probed_def other_same_def same_defs)
  have late: "wp m (vspa_probed s) u" if "state_io_rel base_frame m" "in_vspa s True u" for m u
    using that by (auto intro: wp_in_vspa probed_held)
  note frame = wp_in_vspa [OF _ base_rules(1)] wp_in_vspa [OF _ reg_read_frame [THEN bus_rel_base]]
    wp_in_vspa [OF _ reg_write_frame [THEN bus_rel_base]]
  show ?thesis
    unfolding vspa_probe_def Let_def
    apply (intro wp_ifI wp_steps)
       apply (simp add: none)
      apply (simp add: none)
     apply (rule probed_in, (rule in_vspa_steps)+, rule assms, simp)
    apply (rule frame, (rule in_vspa_steps)+, rule assms)
    apply (rule wp_steps | (rule frame, (assumption | ((rule in_vspa_steps)+, assumption))))+
    apply (rule wp_optionI)
     apply (intro wp_steps)
     apply (rule probed_in, (rule in_vspa_steps)+, assumption, simp)
    apply (intro wp_ifI wp_steps)
     apply (rule probed_in, assumption, simp)
    apply (rule frame, (rule in_vspa_steps)+, assumption)
    apply (intro wp_steps)
    apply (rule wp_in_vspa [OF _ mem_init_base], rule in_vspa_steps, assumption)
    apply (rule late)
     apply (intro bf.rel_rules base_rules)
    apply assumption
    done
qed

text \<open>The other steps of a probe, each with the group of resources it changes.\<close>

definition not_base :: "'a probe_world_scheme \<Rightarrow> 'a probe_world_scheme \<Rightarrow> bool" where
  "not_base s t \<longleftrightarrow> same_irq s t \<and> same_top s t \<and> ipc_unchanged s t \<and> same_vspa s t"

lemma scratch_wp:
  assumes "va \<noteq> Some 0"
  shows "wp (la9310_scratch_dma_buf p va)
    (\<lambda>rc t. not_base s t \<and> (rc = 0 \<longrightarrow> mapped t \<and> mr_vaddr (host_buf t) \<noteq> 0) \<and>
      (rc \<noteq> 0 \<longrightarrow> \<not> mapped t)) s"
proof -
  have carve: "wp (carve rs off) (\<lambda>r t. not_base u t \<and> mapped t = mapped u \<and> host_buf t = host_buf u) u"
    for rs off and u :: "'a probe_world_scheme"
    by (induction rs off arbitrary: u rule: carve.induct)
      (auto simp: wp_iff_run run_region not_base_def same_defs)
  have out: "wp (la9310_scratch_outbound_create p)
     (\<lambda>r t. r = 0 \<and> not_base u t \<and> mapped t = mapped u \<and> host_buf t = host_buf u) u"
    for u :: "'a probe_world_scheme"
    by (simp add: wp_iff_run la9310_scratch_outbound_create_def ls_pcie_iatu_outbound_set_def raw_write_def
        not_base_def same_defs)
  show ?thesis
    unfolding la9310_scratch_dma_buf_def la9310_init_subdrv_dma_buf_def
    using assms
    apply (intro wp_steps wp_ifI)
      apply (simp add: wp_eqs not_base_def same_defs errno_defs)
     apply (simp add: wp_eqs iounmap_host_def not_base_def same_defs errno_defs)
    apply (rule wp_mono [OF out], intro wp_ifI wp_steps)
     apply simp
    apply (rule wp_mono [OF carve])
    apply (auto simp: wp_eqs not_base_def same_defs)
    done
qed

definition all_same :: "'a probe_world_scheme \<Rightarrow> 'a probe_world_scheme \<Rightarrow> bool" where
  "all_same s t \<longleftrightarrow> same_base s t \<and> not_base s t"

definition not_irq :: "'a probe_world_scheme \<Rightarrow> 'a probe_world_scheme \<Rightarrow> bool" where
  "not_irq s t \<longleftrightarrow> same_base s t \<and> same_top s t \<and> ipc_unchanged s t \<and> same_vspa s t"

lemmas group_defs = all_same_def not_base_def not_irq_def other_same_def same_defs

interpretation asm: run_rel all_same
  by unfold_locales (auto simp: group_defs)

lemma bus_step_all: "bus_step s t b \<Longrightarrow> all_same s t"
  unfolding bus_step_def by (elim ssubst) (simp add: group_defs)

lemma wp_bus_all:
  fixes s :: "'a probe_world_scheme"
  assumes "state_io_rel bus_rel m" and "\<And>r t. all_same s t \<Longrightarrow> Q r t"
  shows "wp m Q s"
  by (rule wp_bus_rel [OF assms(1)], rule assms(2), rule bus_step_all)

lemma register_setup_bus:
  "state_io_rel bus_rel (la9310_do_reset_handshake p)"
  "state_io_rel bus_rel (la9310_verify_hif_compatibility p)"
  "state_io_rel bus_rel (la9310_create_rfnm_iqflood_outbound p)"
  "state_io_rel bus_rel (la9310_create_outbound_msi p)"
  unfolding la9310_verify_hif_compatibility_def la9310_do_reset_handshake_def
    la9310_create_rfnm_iqflood_outbound_def la9310_create_outbound_msi_def ls_pcie_iatu_outbound_set_def
  by (intro br.rel_rules frame_rules)+

lemma init_hif_bus: "state_io_rel bus_rel (la9310_init_hif p)"
proof -
  have "state_io_rel bus_rel (zero_words is)" for "is"
    by (induction "is") (simp_all add: br.rel_rules frame_rules)
  then show ?thesis unfolding la9310_init_hif_def by (intro br.rel_rules)
qed

lemma request_irq_wp:
  "wp (la9310_request_irq p e)
    (\<lambda>rc t. not_irq s t \<and> (rc = 0 \<longrightarrow> mux_irq t \<and> irq_priv t \<noteq> PNull) \<and>
      (rc \<noteq> 0 \<longrightarrow> mux_irq t = mux_irq s)) s"
proof -
  have read: "wp (raw_read a) (\<lambda>r. all_same u) u" for a and u :: "'a probe_world_scheme"
    by (rule wp_bus_all [OF raw_read_frame])
  have init: "wp (la9310_init_irq_mux b) (\<lambda>r t. not_irq u t \<and> mux_irq t = mux_irq u \<and>
      (irq_priv u \<noteq> PNull \<longrightarrow> irq_priv t \<noteq> PNull)) u"
    for b and u :: "'a probe_world_scheme"
    unfolding la9310_init_irq_mux_def
    by (intro wp_steps wp_mono [OF read]) (auto simp: group_defs split: irq_ptr.splits)
  have probe: "wp (la9310_probe_irq_mux p e) (\<lambda>rc t. not_irq u t \<and> mux_irq t = mux_irq u \<and>
      (rc = 0 \<longrightarrow> irq_priv t \<noteq> PNull)) u" for u :: "'a probe_world_scheme"
    unfolding la9310_probe_irq_mux_def Let_def la9310_init_irq_stats_def add_stats_node_def
    apply (intro wp_steps wp_mono [OF read] wp_ifI wp_mono [OF init])
    apply (auto simp: wp_eqs group_defs errno_defs split: irq_ptr.splits)
    done
  show ?thesis
    unfolding la9310_request_irq_def
    apply (intro wp_steps wp_mono [OF read] wp_ifI wp_mono [OF probe]
        wp_bus_all [OF register_setup_bus(4)])
    apply (auto simp: group_defs errno_defs)
    done
qed

definition not_ipc :: "'a probe_world_scheme \<Rightarrow> 'a probe_world_scheme \<Rightarrow> bool" where
  "not_ipc s t \<longleftrightarrow> same_base s t \<and> same_irq s t \<and> same_top s t \<and> same_vspa s t"

lemmas ipc_group_defs = not_ipc_def group_defs

lemma ipc_wp:
  "wp (la9310_ipc_probe p e)
    (\<lambda>rc t. not_ipc s t \<and> (rc = 0 \<and> ipc_probed p s t \<or> rc \<noteq> 0 \<and> ipc_unchanged s t)) s"
proof -
  have "wp (la9310_ipc_probe p e) (\<lambda>rc. not_ipc s) s"
    unfolding la9310_ipc_probe_def find_minor ipc_fail_def
    by (intro wp_steps wp_optionI wp_ifI wp_bus_all [OF chk_hif_mod_rdy_bus]
        wp_bus_all [OF ipc_ready_wait_bus])
      (auto simp: ipc_group_defs)
  from wp_conj [OF this ipc_probe_wp] show ?thesis by (rule wp_mono) auto
qed

lemma ipc_remove_wp:
  assumes "ipc_priv s = None" and "length (in_use_minor s) = IPC_NR_DEVICES"
    and "ipc_probed p s u \<or> ipc_unchanged s u"
  shows "wp la9310_ipc_remove (\<lambda>rc t. not_ipc u t \<and> ipc_unchanged s t) u"
proof -
  have "wp la9310_ipc_remove (\<lambda>rc. not_ipc u) u"
    by (auto simp: la9310_ipc_remove_def ipc_group_defs wp_eqs split: option.splits)
  moreover have "wp la9310_ipc_remove (\<lambda>rc. ipc_unchanged s) u"
    using assms(3)
  proof
    assume "ipc_unchanged s u"
    with assms(1) show ?thesis by (simp add: la9310_ipc_remove_def ipc_unchanged_def wp_eqs)
  next
    assume "ipc_probed p s u"
    with assms(1,2) show ?thesis
      by (auto simp: la9310_ipc_remove_def ipc_unchanged_def ipc_probed_def Let_def wp_eqs
          list_update_same_conv split: if_splits)
  qed
  ultimately show ?thesis by (rule wp_conj)
qed

lemma vspa_remove_wp:
  assumes "vspa_irq_held u \<longrightarrow> has_vspa u"
  shows "wp vspa_remove (\<lambda>rc t. other_same u t \<and> \<not> vspa_irq_held t) u"
  using assms by (auto simp: vspa_remove_def wp_eqs group_defs)

lemma clean_irq_wp: "wp la9310_clean_request_irq (\<lambda>rc t. not_irq u t \<and> mux_irq t = mux_irq u) u"
  unfolding la9310_clean_request_irq_def
  by (intro wp_steps wp_bus_all [OF raw_read_frame]) (auto simp: wp_eqs group_defs split: irq_ptr.splits)

lemma wdog_status_wp: "wp (wdog_set_status i f) (\<lambda>rc. all_same u) u"
  by (auto simp: wdog_set_status_def set_pd_def wp_eqs group_defs split: wdog_ptr.splits)

section \<open>The probe as a whole\<close>

text \<open>A device before its probe: nothing held.\<close>

definition fresh_device :: "'a probe_world_scheme \<Rightarrow> bool" where
  "fresh_device s \<longleftrightarrow> \<not> mapped s \<and> \<not> vspa_irq_held s \<and> \<not> mux_irq s \<and> \<not> sysfs_group s \<and> \<not> hs_irq s \<and>
     ipc_priv s = None \<and> length (in_use_minor s) = IPC_NR_DEVICES \<and> subdrv_cnt s = length sub_drvs_g"

definition all_released :: "'a probe_world_scheme \<Rightarrow> 'a probe_world_scheme \<Rightarrow> bool" where
  "all_released s t \<longleftrightarrow> \<not> mapped t \<and> \<not> vspa_irq_held t \<and> \<not> mux_irq t \<and> \<not> sysfs_group t \<and> \<not> hs_irq t \<and>
     ipc_unchanged s t"

definition all_held :: "platform \<Rightarrow> probe_env \<Rightarrow> 'a probe_world_scheme \<Rightarrow> 'a probe_world_scheme \<Rightarrow> bool" where
  "all_held p e s t \<longleftrightarrow> mapped t \<and> mr_vaddr (host_buf t) \<noteq> 0 \<and> vspa_irq_held t \<and> has_vspa t \<and> mux_irq t \<and>
     irq_priv t \<noteq> PNull \<and> sysfs_group t \<and> hs_irq t = (hs_rc e = 0) \<and> ipc_probed p s t \<and>
     subdrv_cnt t = subdrv_cnt s"

text \<open>In the middle of a probe: which of the device's own resources are held.\<close>

definition midway :: "'a probe_world_scheme \<Rightarrow> bool \<Rightarrow> bool \<Rightarrow> bool \<Rightarrow> 'a probe_world_scheme \<Rightarrow> bool" where
  "midway s sys mux hs u \<longleftrightarrow>
     (mapped u \<longrightarrow> mr_vaddr (host_buf u) \<noteq> 0) \<and> sysfs_group u = sys \<and> mux_irq u = mux \<and> hs_irq u = hs"

lemma release_wp:
  assumes "midway s sys mux hs u" and "ipc_unchanged s u" and "\<not> vspa_irq_held u"
    and "sys \<Longrightarrow> 1 \<le> k" and "mux \<or> hs \<Longrightarrow> 2 \<le> k"
  shows "wp (deinit_from k) (\<lambda>r. all_released s) u"
  unfolding deinit_from_def
  using assms
  by (intro wp_steps wp_ifI wp_mono [OF clean_irq_wp])
    (auto simp: wp_eqs free_hs_irq_def free_mux_irq_def la9310_remove_sysfs_def unmap_scratch_def
      iounmap_host_def midway_def all_released_def group_defs)

lemma fail_wp:
  assumes "midway s sys mux hs u" and "ipc_unchanged s u" and "\<not> vspa_irq_held u"
    and "sys \<Longrightarrow> 1 \<le> stage_rank st" and "mux \<or> hs \<Longrightarrow> 2 \<le> stage_rank st" and "st \<noteq> LA9310_SUBDRV_PROBE_STAGE"
    and "rc \<noteq> 0"
  shows "wp (base_fail st i rc) (\<lambda>r t. r \<noteq> 0 \<and> all_released s t) u"
  using release_wp [OF assms(1-5)] assms(6,7)
  by (auto simp: base_fail_def la9310_base_deinit_def wp_eqs elim: wp_mono)

lemma cleanup_wp:
  assumes "fresh_device s" and "midway s True True hs u" and "i < 2"
    and "i = 0 \<Longrightarrow> ipc_unchanged s u \<and> \<not> vspa_irq_held u"
    and "i = 1 \<Longrightarrow> ipc_probed p s u \<and> (vspa_irq_held u \<longrightarrow> has_vspa u)"
  shows "wp (la9310_base_cleanup_subdrv i)
    (\<lambda>r t. midway s True True hs t \<and> ipc_unchanged s t \<and> \<not> vspa_irq_held t) u"
proof -
  have ipc: "wp la9310_ipc_remove (\<lambda>r t. midway s True True hs t \<and> ipc_unchanged s t \<and> \<not> vspa_irq_held t) v"
    if "midway s True True hs v" "\<not> vspa_irq_held v" "ipc_probed p s v \<or> ipc_unchanged s v" for v
    using assms(1) that(1,2)
    by (intro wp_mono [OF ipc_remove_wp [OF _ _ that(3)]]) (auto simp: fresh_device_def midway_def ipc_group_defs)
  have "i = 0 \<or> i = 1" using assms(3) by auto
  then show ?thesis
  proof
    assume "i = 0"
    with assms(4) ipc [OF assms(2)] show ?thesis
      by (simp add: la9310_base_cleanup_subdrv_def sub_drvs_g_def wp_eqs)
  next
    assume i: "i = 1"
    have keep: "ipc_probed p s u \<Longrightarrow> other_same u v \<Longrightarrow> ipc_probed p s v" for v
      by (simp add: group_defs ipc_probed_def)
    show ?thesis
      using i assms(2,5)
      by (simp add: la9310_base_cleanup_subdrv_def sub_drvs_g_def wp_eqs upt_rec)
        (intro wp_mono [OF vspa_remove_wp] ipc; auto simp: midway_def group_defs keep)
  qed
qed

lemma subdrv_fail_wp:
  assumes "fresh_device s" and "midway s True True hs u" and "i < 2" and "rc \<noteq> 0"
    and "i = 0 \<Longrightarrow> ipc_unchanged s u \<and> \<not> vspa_irq_held u"
    and "i = 1 \<Longrightarrow> ipc_probed p s u \<and> (vspa_irq_held u \<longrightarrow> has_vspa u)"
  shows "wp (base_fail LA9310_SUBDRV_PROBE_STAGE i rc) (\<lambda>r t. r \<noteq> 0 \<and> all_released s t) u"
proof -
  have "wp (la9310_base_deinit LA9310_SUBDRV_PROBE_STAGE i) (\<lambda>r. all_released s) u"
    unfolding la9310_base_deinit_def
    by (simp add: wp_eqs)
      (rule wp_mono [OF cleanup_wp [OF assms(1-3,5,6)]], auto intro: release_wp)
  then show ?thesis
    unfolding base_fail_def using assms(4) by (simp add: wp_eqs) (erule wp_mono, simp add: wp_eqs)
qed

lemma virqs_wp: "wp (subdrv_virqs p ty) (\<lambda>r. all_same u) u"
  by (auto simp: subdrv_virqs_def wp_eqs group_defs split: irq_ptr.splits)

text \<open>The state a sub-driver's probe starts from, \<open>s\<close> being the device before its probe.\<close>

definition ready :: "platform \<Rightarrow> 'a probe_world_scheme \<Rightarrow> bool \<Rightarrow> 'a probe_world_scheme \<Rightarrow> bool" where
  "ready p s hs u \<longleftrightarrow> midway s True True hs u \<and> mapped u \<and> irq_priv u \<noteq> PNull \<and> subdrv_cnt u = subdrv_cnt s"

lemma ready_same: "all_same u v \<Longrightarrow> ready p s hs u \<Longrightarrow> ready p s hs v"
  by (simp add: ready_def midway_def group_defs)

lemma ipc_step_wp:
  assumes "ready p s hs u" and "ipc_unchanged s u" and "\<not> vspa_irq_held u"
  shows "wp (subdrv_probe p e SubIpc) (\<lambda>rc t. ready p s hs t \<and> \<not> vspa_irq_held t \<and>
    (rc = 0 \<and> ipc_probed p s t \<or> rc \<noteq> 0 \<and> ipc_unchanged s t)) u"
  unfolding subdrv_probe.simps
proof (intro wp_steps wp_mono [OF virqs_wp] wp_mono [OF ipc_wp], goal_cases)
  case (1 r v rc t)
  with assms have "ipc_unchanged s v" "ready p s hs v" "\<not> vspa_irq_held v"
    by (simp_all add: ready_same) (simp_all add: group_defs)
  with 1(2) show ?case
    by (simp add: ready_def midway_def ipc_group_defs ipc_probed_def)
qed

lemma vspa_step_wp:
  assumes "ready p s hs u" and "ipc_probed p s u" and "\<not> vspa_irq_held u"
  shows "wp (subdrv_probe p e SubVspa) (\<lambda>rc t. ready p s hs t \<and> ipc_probed p s t \<and>
    (rc = 0 \<longrightarrow> vspa_irq_held t) \<and> (vspa_irq_held t \<longrightarrow> has_vspa t)) u"
  unfolding subdrv_probe.simps
proof (intro wp_steps wp_mono [OF virqs_wp], goal_cases)
  case (1 vs v)
  with assms have v: "ipc_probed p s v" "ready p s hs v" "\<not> vspa_irq_held v"
    by (simp_all add: ready_same) (simp_all add: group_defs ipc_probed_def)
  show ?case
    by (rule wp_mono [OF vspa_probe_wp [OF v(3)]], insert v)
      (simp add: vspa_probed_def ready_def midway_def group_defs ipc_probed_def)
qed

definition probe_result :: "platform \<Rightarrow> probe_env \<Rightarrow> 'a probe_world_scheme \<Rightarrow> int \<Rightarrow> 'a probe_world_scheme \<Rightarrow> bool" where
  "probe_result p e s rc t \<longleftrightarrow> rc = 0 \<and> all_held p e s t \<or> rc \<noteq> 0 \<and> all_released s t"

lemma sub_drvs_nth [simp]:
  "sub_drvs_g ! 0 = SubIpc" "sub_drvs_g ! Suc 0 = SubVspa" "sub_drvs_g ! Suc (Suc 0) = SubNone"
  by (simp_all add: sub_drvs_g_def)

lemma subdrvs_wp:
  assumes "fresh_device s" and "ready p s (hs_rc e = 0) u" and "ipc_unchanged s u" and "\<not> vspa_irq_held u"
  shows "wp (do {
      r \<leftarrow> probe_subdrvs p e [0..<length sub_drvs_g];
      (case r of Some (i, rc) \<Rightarrow> base_fail LA9310_SUBDRV_PROBE_STAGE i rc | None \<Rightarrow> ret 0)
    }) (probe_result p e s) u"
proof -
  have fail: "wp (base_fail LA9310_SUBDRV_PROBE_STAGE i rc) (probe_result p e s) v"
    if "ready p s (hs_rc e = 0) v" "i < 2" "rc \<noteq> 0" "i = 0 \<Longrightarrow> ipc_unchanged s v \<and> \<not> vspa_irq_held v"
      "i = 1 \<Longrightarrow> ipc_probed p s v \<and> (vspa_irq_held v \<longrightarrow> has_vspa v)" for i rc v
    using that by (intro wp_mono [OF subdrv_fail_wp [OF assms(1)]])
      (auto simp: ready_def probe_result_def)
  have vspa: "wp (subdrv_probe p e SubVspa) (\<lambda>rc. wp (if rc \<noteq> 0 then ret (Some (Suc 0, rc))
        else probe_subdrvs p e [Suc (Suc 0)])
      (\<lambda>r. wp (case r of Some (i, rc) \<Rightarrow> base_fail LA9310_SUBDRV_PROBE_STAGE i rc | None \<Rightarrow> ret 0)
        (probe_result p e s))) v"
    if "ready p s (hs_rc e = 0) v" "ipc_probed p s v" "\<not> vspa_irq_held v" for v
    by (rule wp_mono [OF vspa_step_wp [OF that]])
      (auto simp: wp_eqs fail probe_result_def all_held_def ready_def midway_def)
  show ?thesis
    apply (simp add: sub_drvs_g_def [THEN arg_cong [where f = length]] upt_rec wp_eqs
        del: subdrv_probe.simps)
    apply (rule wp_mono [OF ipc_step_wp [OF assms(2-4)]])
    apply (auto simp: wp_eqs fail simp del: subdrv_probe.simps intro!: vspa)
    done
qed

lemma probe_late_wp:
  assumes "fresh_device s" and "ready p s hs u" and "ipc_unchanged s u" and "\<not> vspa_irq_held u"
  shows "wp (base_probe_late p e) (probe_result p e s) u"
proof -
  let ?hs = "hs_rc e = 0"
  have cnt: "subdrv_cnt s = length sub_drvs_g"
    using assms(1) by (simp add: fresh_device_def)
  define in_late where "in_late v \<longleftrightarrow> ready p s ?hs v \<and> ipc_unchanged s v \<and> \<not> vspa_irq_held v" for v
  have start: "in_late (u\<lparr>hs_irq := ?hs\<rparr>)"
    using assms(2-4) by (simp add: in_late_def ready_def midway_def ipc_unchanged_def)
  have step: "in_late v \<Longrightarrow> all_same v w \<Longrightarrow> in_late w" for v w
    by (auto simp: in_late_def ready_same) (simp_all add: group_defs)
  have msi: "in_late v \<Longrightarrow> in_late (v\<lparr>wdog_msi_irq := x\<rparr>)" for v x
    by (erule step) (simp add: group_defs)
  have fail: "in_late v \<Longrightarrow> rc \<noteq> 0 \<Longrightarrow>
      wp (base_fail LA9310_HANDSHAKE_INIT_STAGE i rc) (probe_result p e s) v" for v rc i
    by (rule wp_mono [OF fail_wp [where sys = True and mux = True and hs = ?hs and s = s]])
      (auto simp: in_late_def ready_def probe_result_def)
  have bus: "wp m Q v" if "state_io_rel bus_rel m" "in_late v" "\<And>r t. in_late t \<Longrightarrow> Q r t" for m Q v
    by (rule wp_bus_all [OF that(1)], rule that(3), rule step [OF that(2)])
  have wdog: "wp (wdog_set_status i f) Q v" if "in_late v" "\<And>r t. in_late t \<Longrightarrow> Q r t" for i f Q v
    by (rule wp_mono [OF wdog_status_wp], rule that(2), rule step [OF that(1)])
  have last: "in_late v \<Longrightarrow> wp (do {
      r \<leftarrow> probe_subdrvs p e [0..<subdrv_cnt v];
      (case r of Some (i, rc) \<Rightarrow> base_fail LA9310_SUBDRV_PROBE_STAGE i rc | None \<Rightarrow> ret 0)
    }) (probe_result p e s) v" for v
    using subdrvs_wp [OF assms(1), of p e v] cnt by (simp add: in_late_def ready_def)
  show ?thesis
    unfolding base_probe_late_def wdog_set_pci_domain_nr_def wdog_set_modem_status_def
    apply (rule wp_steps)+
    apply (rule bus, rule register_setup_bus, rule start)
    apply (rule wp_ifI, rule fail, assumption, assumption)
    apply (rule wp_steps)+
    apply (rule bus, rule register_setup_bus, assumption)
    apply (rule wp_ifI, rule fail, assumption, assumption)
    apply (rule wp_steps)+
    apply (rule bus, rule raw_write_frame, rule msi, assumption)
    apply (rule wp_steps)+
    apply (rule wdog, assumption)
    apply (rule wp_steps)+
    apply (rule wdog, assumption)
    apply (rule wp_steps)+
    apply (rule last [unfolded wp_bind], assumption)
    done
qed

text \<open>The early part: nothing but the scratch mapping, later the attribute group, is held.\<close>

definition early :: "'a probe_world_scheme \<Rightarrow> bool \<Rightarrow> 'a probe_world_scheme \<Rightarrow> bool" where
  "early s sys u \<longleftrightarrow> midway s sys False False u \<and> mapped u \<and> ipc_unchanged s u \<and> \<not> vspa_irq_held u \<and>
     subdrv_cnt u = subdrv_cnt s"

lemma probe_wp:
  assumes "fresh_device s" and "scratch_va e \<noteq> Some 0"
  shows "wp (la9310_base_probe p e) (probe_result p e s) s"
proof -
  have start: "fresh_device (s\<lparr>stats_control := x\<rparr>)" for x
    using assms(1) by (simp add: fresh_device_def)
  have scratch: "wp (la9310_scratch_dma_buf p (scratch_va e)) (\<lambda>rc t. if rc = 0 then early s False t
      else midway s False False False t \<and> ipc_unchanged s t \<and> \<not> vspa_irq_held t) (s\<lparr>stats_control := x\<rparr>)" for x
    by (rule wp_mono [OF scratch_wp [OF assms(2)]])
      (use assms(1) in \<open>auto simp: early_def midway_def fresh_device_def group_defs\<close>)
  have fail: "wp (base_fail st i rc) (probe_result p e s) v"
    if "midway s sys False False v" "ipc_unchanged s v" "\<not> vspa_irq_held v" "rc \<noteq> 0"
      "sys \<Longrightarrow> 1 \<le> stage_rank st" "st \<noteq> LA9310_SUBDRV_PROBE_STAGE" for st i rc v sys
    by (rule wp_mono [OF fail_wp [OF that(1-3,5) _ that(6,4)]]) (auto simp: probe_result_def)
  have fail0: "early s False v \<Longrightarrow> rc \<noteq> 0 \<Longrightarrow>
      wp (base_fail LA9310_SCRATCH_DMA_INIT_STAGE i rc) (probe_result p e s) v" for v rc i
    by (rule fail [where sys = False]) (auto simp: early_def)
  have fail1: "early s True v \<Longrightarrow> rc \<noteq> 0 \<Longrightarrow>
      wp (base_fail LA9310_SYSFS_INIT_STAGE i rc) (probe_result p e s) v" for v rc i
    by (rule fail [where sys = True]) (auto simp: early_def)
  have step: "early s b v \<Longrightarrow> base_frame v w \<Longrightarrow> early s b w" for b v w
    by (simp add: early_def midway_def base_frame_def group_defs)
  have base: "wp m Q v" if "early s b v" "state_io_rel base_frame m" "\<And>r t. early s b t \<Longrightarrow> Q r t" for m Q v b
    by (rule wp_base [OF that(2)], rule that(3), rule step [OF that(1)])
  have sysfs: "wp (la9310_init_sysfs rc) Q v"
    if "early s False v" "\<And>t. early s True t \<Longrightarrow> Q 0 t" "rc \<noteq> 0 \<Longrightarrow> Q rc v" for rc Q v
    using that by (auto simp: la9310_init_sysfs_def wp_eqs early_def midway_def ipc_unchanged_def)
  have stats: "wp (la9310_register_ep_stats_ops ok) Q v"
    if "early s True v" "\<And>r t. early s True t \<Longrightarrow> Q r t" for ok Q v
    using that by (auto simp: la9310_register_ep_stats_ops_def add_stats_node_def wp_eqs early_def midway_def
        ipc_unchanged_def)
  have irq: "wp (la9310_request_irq p x) Q v"
    if "early s True v" "\<And>r t. r \<noteq> 0 \<Longrightarrow> early s True t \<Longrightarrow> Q r t"
      "\<And>t. ready p s False t \<Longrightarrow> ipc_unchanged s t \<Longrightarrow> \<not> vspa_irq_held t \<Longrightarrow> Q 0 t" for x Q v
    by (rule wp_mono [OF request_irq_wp], case_tac "r = 0")
      (use that in \<open>auto simp: early_def ready_def midway_def group_defs\<close>)
  show ?thesis
    unfolding la9310_base_probe_def
    apply (rule wp_steps)+
    apply (rule wp_mono [OF scratch], rule wp_ifI)
     apply (rule fail [where sys = False], (simp; fail)+)
    apply (rule wp_steps, rule base, simp, rule base_rules)
    apply (rule wp_steps, rule base, assumption, rule base_rules)
    apply (rule wp_ifI, rule fail0, assumption, assumption)
    apply (rule wp_steps, rule base, assumption, rule base_rules)
    apply (rule wp_steps, rule sysfs, assumption)
     apply (simp only: simp_thms if_False if_True)
     apply (rule wp_steps, rule stats, assumption)
     apply (rule wp_ifI, rule fail1, assumption, assumption)
     apply (rule wp_steps, rule base, assumption, rule base_rules)
     apply (rule wp_ifI, rule fail1, assumption, assumption)
     apply (rule wp_steps, rule irq, assumption)
      apply (rule wp_ifI, rule fail1, assumption, assumption, simp)
     apply (simp only: simp_thms if_False if_True)
     apply (rule probe_late_wp [OF assms(1)], assumption, assumption, assumption)
    apply (simp only: simp_thms if_False if_True)
    apply (rule fail0, assumption, assumption)
    done
qed


lemma remove_wp:
  assumes "fresh_device s" and "all_held p e s u"
  shows "wp la9310_base_remove (\<lambda>rc t. rc = 0 \<and> all_released s t \<and> stats_nodes t = 0 \<and> \<not> msi_on t) u"
proof -
  define gone where "gone v \<longleftrightarrow> \<not> mapped v \<and> ipc_unchanged s v" for v
  have cnt: "subdrv_cnt u = Suc (Suc (Suc 0))"
    using assms by (simp add: fresh_device_def all_held_def sub_drvs_g_def)
  have ipc: "wp la9310_ipc_remove (\<lambda>r t. gone t \<and> (vspa_irq_held t \<longrightarrow> has_vspa t)) v"
    if "\<not> mapped v" "vspa_irq_held v \<longrightarrow> has_vspa v" "ipc_probed p s v" for v
    using assms(1) that
    by (intro wp_mono [OF ipc_remove_wp [where s = s and p = p]])
      (auto simp: fresh_device_def gone_def ipc_group_defs)
  have vspa: "wp vspa_remove (\<lambda>r t. gone t \<and> \<not> vspa_irq_held t) v"
    if "gone v" "vspa_irq_held v \<longrightarrow> has_vspa v" for v
    using that by (intro wp_mono [OF vspa_remove_wp]) (auto simp: gone_def group_defs)
  have rest: "wp (do {
      _ \<leftarrow> la9310_clean_request_irq;
      free_mux_irq;
      free_hs_irq;
      modify (\<lambda>s. s\<lparr>msi_on := False\<rparr>);
      la9310_remove_sysfs;
      la9310_remove_stats;
      ret 0
    }) (\<lambda>rc t. rc = 0 \<and> all_released s t \<and> stats_nodes t = 0 \<and> \<not> msi_on t) v" if "gone v" "\<not> vspa_irq_held v" for v
    using that
    by (intro wp_steps wp_mono [OF clean_irq_wp])
      (simp add: free_mux_irq_def free_hs_irq_def la9310_remove_sysfs_def la9310_remove_stats_def wp_eqs
        gone_def all_released_def group_defs)
  have drop: "wp la9310_subdrv_remove (\<lambda>r t. gone t \<and> \<not> vspa_irq_held t) v"
    if "\<not> mapped v" "vspa_irq_held v \<longrightarrow> has_vspa v" "ipc_probed p s v" "subdrv_cnt v = Suc (Suc (Suc 0))" for v
    using that
    by (simp add: la9310_subdrv_remove_def upt_rec wp_eqs)
      (rule wp_mono [OF ipc], auto simp: wp_eqs intro!: wp_mono [OF vspa])
  show ?thesis
    unfolding la9310_base_remove_def
    apply (rule wp_steps)
    apply (simp add: unmap_scratch_def iounmap_host_def wp_eqs)
    apply (rule conjI impI)+
    using assms(2) apply (simp add: all_held_def)
    apply (rule impI)
    apply (rule wp_mono [OF drop])
        apply simp
       apply (use assms(2) in \<open>simp_all add: all_held_def ipc_probed_def cnt\<close>)
    apply (erule conjE, drule (1) rest, simp add: wp_eqs)
    done
qed


section \<open>Module hooks\<close>

text \<open>Loading the module takes the device numbers and fixes the number of sub-drivers; when they are
  refused nothing is held.\<close>

lemma mod_init_exit:
  "case run_state (la9310_subdrv_mod_init chr) s of (rc, t) \<Rightarrow>
     rc = chr \<and> subdrv_cnt t = length sub_drvs_g \<and>
     (chr < 0 \<longrightarrow> ipc_region t = ipc_region s) \<and> (chr \<ge> 0 \<longrightarrow> ipc_region t) \<and>
     \<not> ipc_region (snd (run_state la9310_subdrv_mod_exit t))"
  by (simp add: la9310_subdrv_mod_init_def sub_drvs_g_def la9310_ipc_init_def la9310_subdrv_mod_exit_def
      la9310_ipc_exit_def)

section \<open>Witnesses\<close>

text \<open>A platform with a small host interface and an endpoint that answers everything.\<close>

definition small_platform :: platform where
  "small_platform = sample_platform\<lparr>sizeof_hif := 1, start_clock_config := 3, vspa_evt_mask := 1\<rparr>"

definition willing :: "waddr \<Rightarrow> u32" where
  "willing a = (case a of
     HifWord n \<Rightarrow> (if n = ''hif_ver'' then 0x10000 else 1)
   | Ccsr n \<Rightarrow> 3
   | IrqEvt k \<Rightarrow> 0x0101
   | VReg k \<Rightarrow> (if k = DMA_COMP_STAT_REG_OFFSET then 0xFFFFFFFF else 0)
   | _ \<Rightarrow> 0)"

definition sample_probe :: probe_world where
  "sample_probe = wdog_world.extend (sample_wdog\<lparr>dev_read := (\<lambda>n. willing), mapped := False,
      mem_regions := replicate 3 (no_region\<lparr>mr_vaddr := 0x20000000\<rparr>), irq_tab := replicate 8 \<lparr>irq_val = 9,
      msi_val = 0, irq_free = 0\<rparr>, mux_irq := False\<rparr>)
     \<lparr>la_id = 0, sysfs_group = False, hs_irq = False, stats_control = 0, subdrv_cnt = 3,
      ipc_region = True, irq_fault = False, msi_on = True\<rparr>"

definition sample_answers :: probe_env where
  "sample_answers = \<lparr>scratch_va = Some 0x10000000, sysfs_rc = 0, ep_stats_mem = True, rtos_fw = Inr [1, 2, 3],
     mux_env = \<lparr>mux_mem = True, map_mem = True, descs_base = 40, stats_ok = True, request_rc = 0\<rparr>,
     hs_rc = 0, pci_domain = 0, ipc_answers = \<lparr>dev_mem = True, class_rc = 0, cdev_rc = 0\<rparr>,
     vspa_answers = \<lparr>vdev_mem = True, vspa_virq = None, vspa_irq_rc = 0, zero_mem = True,
       legacy_fw = Inl (- ENOENT)\<rparr>\<rparr>"

lemma sample_probe_simps [simp]:
  "\<not> mapped sample_probe" "\<not> vspa_irq_held sample_probe" "\<not> mux_irq sample_probe" "\<not> sysfs_group sample_probe"
  "\<not> hs_irq sample_probe" "ipc_priv sample_probe = None" "in_use_minor sample_probe = [False, False]"
  "subdrv_cnt sample_probe = 3" "fence_at sample_probe = (\<lambda>n. False)" "dev_read sample_probe = (\<lambda>n. willing)"
  "scratch_buf_size sample_probe = 0x4000000" "poll_reads sample_probe = 0" "reg sample_probe = []"
  "length (ep_bufs sample_probe) = 7" "selected sample_probe = -1" "fwi_busy sample_probe = False"
  "mem_regions sample_probe = replicate 3 (no_region\<lparr>mr_vaddr := 0x20000000\<rparr>)"
  "irq_tab sample_probe = replicate 8 \<lparr>irq_val = 9, msi_val = 0, irq_free = 0\<rparr>"
  by (simp_all add: sample_probe_def sample_wdog_def sample_ipc_def sample_base_def sample_reg_def
      sample_world_def wdog_world.defs ipc_world.defs irq_world.defs base_world.defs reg_world.defs vspa_world.defs)

lemma sample_fresh: "fresh_device sample_probe"
  by (simp add: fresh_device_def sub_drvs_g_def)



end
