(* ===== verification/Pci.thy ===== *)
theory Pci
  imports Base_Probe
begin

text \<open>
  The PCI driver, la9310_pci.c: the probe and the removal of an endpoint around the bring-up of
  Base_Probe, and the module's own start and end. The hard reprobe of the same file is in
  Reprobe.

  The world of one endpoint is the component \<open>dev\<close>; around it the state of the PCI core is a
  ledger: whether the device is enabled, its regions requested, its driver data set. \<open>lost_maps\<close>
  and \<open>lost_nodes\<close> count the BAR mappings and statistics nodes a freed device still had. The
  value of the fence, which the rest of the development takes as given, is \<open>fence\<close> here: only
  this file writes it, and \<open>on_dev\<close> shows it to the code of the endpoint. \<open>rc_down\<close> is whether
  the root complex is suspended; \<open>steps\<close> records, after each step of a hard reprobe, the fence,
  the state of the root complex and the number of accesses that have gone over the link.
\<close>

section \<open>Data\<close>

text \<open>The device table \<open>la9310_pcidev_ids\<close>.\<close>

datatype pci_id = ID_LA9310 | ID_LA9310_DISABLE_CIP | ID_LS1043A | ID_LS1046A

datatype int_mode = PCI_INT_MODE_NONE | PCI_INT_MODE_LEGACY | PCI_INT_MODE_MSI | PCI_INT_MODE_MSIX
  | PCI_INT_MODE_MULTIPLE_MSI

datatype reprobe_step = StFence | StRemove | StRc | StReset | StRescan

record pci_world =
  dev :: probe_world
  fence :: bool
  ep :: "pci_id option"
  bound :: bool
  drvdata :: bool
  pci_on :: bool
  pci_res :: bool
  bus_master :: bool
  dev_names :: "string list"
  la9310_dev_id_g :: nat
  lost_maps :: nat
  lost_nodes :: nat
  pci_command :: u16
  rc_devctl :: u16
  ep_devctl :: u16
  soc_regs :: "(nat \<times> u32) list"
  la_class :: bool
  registered :: bool
  rc_down :: bool
  refs :: int
  irqs_off :: "int list"
  scans :: nat
  steps :: "(reprobe_step \<times> bool \<times> bool \<times> nat) list"

abbreviation MAX_MODEM_INSTANCES :: nat where "MAX_MODEM_INSTANCES \<equiv> 1"
abbreviation LA9310_FLG_PCI_MSI_EN :: u32 where "LA9310_FLG_PCI_MSI_EN \<equiv> 1"
abbreviation LA931XA_MSI_IRQ_FREE :: u32 where "LA931XA_MSI_IRQ_FREE \<equiv> 0x45455246"
abbreviation PCI_COMMAND_MEMORY :: u16 where "PCI_COMMAND_MEMORY \<equiv> 2"
abbreviation PCI_EXP_DEVCAP_PAYLOAD :: u16 where "PCI_EXP_DEVCAP_PAYLOAD \<equiv> 0x7"
abbreviation PCI_EXP_DEVCTL_PAYLOAD :: u16 where "PCI_EXP_DEVCTL_PAYLOAD \<equiv> 0xe0"
abbreviation RFNM_IMX8MP_PCIE_OB1_LOWER_TARGET :: nat where "RFNM_IMX8MP_PCIE_OB1_LOWER_TARGET \<equiv> 0x33B00214"
abbreviation RFNM_LA9310_BAR0_FIX_BASE :: nat where "RFNM_LA9310_BAR0_FIX_BASE \<equiv> 0x1B400010"
abbreviation RFNM_LA9310_BAR0_FIX_LIMIT :: nat where "RFNM_LA9310_BAR0_FIX_LIMIT \<equiv> 0x1B401010"
abbreviation RFNM_LA9310_BAR0_TEMP_TARGET :: u32 where "RFNM_LA9310_BAR0_TEMP_TARGET \<equiv> 0x10000000"
abbreviation RFNM_LA9310_BAR0_TARGET :: u32 where "RFNM_LA9310_BAR0_TARGET \<equiv> 0x18000000"
abbreviation RFNM_LA9310_BAR0_LIMIT :: u32 where "RFNM_LA9310_BAR0_LIMIT \<equiv> 0x03FFFFFF"

text \<open>The index \<open>MSI_IRQ_MUX\<close> comes from a header shared with the endpoint's firmware.\<close>

record pci_env =
  enable_rc :: int
  fix_mapped :: bool
  regions_rc :: int
  dma64_rc :: int
  dma32_rc :: int
  under_root :: bool
  both_pcie :: bool
  rc_devcap :: u16
  ep_devcap :: u16
  kz_mem :: bool
  pname :: string
  bar_start :: "nat \<Rightarrow> u64"
  bar_len :: "nat \<Rightarrow> nat"
  bar_map :: "nat \<Rightarrow> u64 option"
  msi_vectors :: int
  msi_rc :: int
  vector :: "nat \<Rightarrow> int"
  legacy_irq :: int
  msi_irq_mux :: nat
  answers :: probe_env

text \<open>Code of the endpoint, run under the present value of the fence.\<close>

definition on_dev :: "(probe_world, 'r) state \<Rightarrow> (pci_world, 'r) state" where
  "on_dev m = State (\<lambda>s. case run_state m ((dev s)\<lparr>fence_at := (\<lambda>n. fence s)\<rparr>) of (r, d) \<Rightarrow> (r, s\<lparr>dev := d\<rparr>))"

section \<open>The table of devices\<close>

fun name_index :: "string \<Rightarrow> string list \<Rightarrow> nat option" where
  "name_index n [] = None"
| "name_index n (m # ms) = (if n = m then Some 0 else map_option Suc (name_index n ms))"

definition get_la9310_dev_id_pcidevname :: "string \<Rightarrow> (pci_world, int) state" where
  "get_la9310_dev_id_pcidevname n = do {
     names \<leftarrow> gets dev_names;
     (case name_index n (take MAX_MODEM_INSTANCES names) of
        Some i \<Rightarrow> ret (int i)
      | None \<Rightarrow> do {
          g \<leftarrow> gets la9310_dev_id_g;
          if g \<ge> MAX_MODEM_INSTANCES then ret (- 1)
          else do { modify (\<lambda>s. s\<lparr>la9310_dev_id_g := g + 1\<rparr>); ret (int g) }
        })
   }"

text \<open>The name is the prefix and the number, a single digit.\<close>

definition la_name :: "int \<Rightarrow> string" where
  "la_name i = ''nlm'' @ [char_of (48 + nat i)]"

text \<open>With one device at most, its list is empty or has the one entry.\<close>

definition get_la9310_dev_byname :: "string \<Rightarrow> pci_world \<Rightarrow> bool" where
  "get_la9310_dev_byname n s \<longleftrightarrow> has_dev (dev s) \<and> n = la_name (la_id (dev s))"

section \<open>Interrupt vectors\<close>

definition la9310_dev_reset_interrupt_capability :: "(probe_world, unit) state" where
  "la9310_dev_reset_interrupt_capability = do {
     f \<leftarrow> gets dev_flags;
     if f AND LA9310_FLG_PCI_MSI_EN \<noteq> 0 then do {
       modify (\<lambda>s. s\<lparr>msi_on := False\<rparr>);
       modify (\<lambda>s. s\<lparr>dev_flags := dev_flags s AND NOT LA9310_FLG_PCI_MSI_EN\<rparr>)
     }
     else ret ()
   }"

definition enable_all_msi :: "(probe_world, unit) state" where
  "enable_all_msi = do {
     _ \<leftarrow> raw_read (Ccsr ''PCIE_MSI_BASE'');
     raw_write (Ccsr ''PCIE_MSI_CONTROL'') 0xb6;
     _ \<leftarrow> raw_read (Ccsr ''PCIE_MSI_BASE'');
     ret ()
   }"

abbreviation set_msi_flag :: "(probe_world, unit) state" where
  "set_msi_flag \<equiv> modify (\<lambda>s. s\<lparr>dev_flags := dev_flags s OR LA9310_FLG_PCI_MSI_EN\<rparr>)"

text \<open>One entry of the interrupt table; the other fields keep their values.\<close>

definition set_irq :: "nat \<Rightarrow> (irq_info \<Rightarrow> irq_info) \<Rightarrow> (probe_world, unit) state" where
  "set_irq i f = modify (\<lambda>s. s\<lparr>irq_tab := (irq_tab s)[i := f (irq_tab s ! i)]\<rparr>)"

fun fill_irqs :: "pci_env \<Rightarrow> nat list \<Rightarrow> (probe_world, unit) state" where
  "fill_irqs e [] = ret ()"
| "fill_irqs e (i # is) = do {
     set_irq i (\<lambda>q. \<lparr>irq_val = vector e i, msi_val = int i, irq_free = LA931XA_MSI_IRQ_FREE\<rparr>);
     fill_irqs e is
   }"

definition legacy_mode :: "pci_env \<Rightarrow> (probe_world, int) state" where
  "legacy_mode e = do {
     set_irq (msi_irq_mux e) (\<lambda>q. q\<lparr>irq_val := legacy_irq e, irq_free := LA931XA_MSI_IRQ_FREE\<rparr>);
     modify (\<lambda>s. s\<lparr>irq_count := 1\<rparr>);
     ret 0
   }"

text \<open>The case for one message interrupt falls through to the legacy case.\<close>

definition msi_mode :: "pci_env \<Rightarrow> (probe_world, int) state" where
  "msi_mode e =
     (if msi_rc e = 0 then do {
        modify (\<lambda>s. s\<lparr>msi_on := True\<rparr>);
        set_msi_flag;
        set_irq (msi_irq_mux e) (\<lambda>q. q\<lparr>irq_val := vector e (msi_irq_mux e), irq_free := LA931XA_MSI_IRQ_FREE\<rparr>);
        modify (\<lambda>s. s\<lparr>irq_count := 1\<rparr>);
        legacy_mode e
      }
      else ret (- EINTR))"

definition la9310_dev_set_interrupt_capability ::
  "platform \<Rightarrow> pci_env \<Rightarrow> int_mode \<Rightarrow> (probe_world, int) state" where
  "la9310_dev_set_interrupt_capability p e mode = (case mode of
     PCI_INT_MODE_MULTIPLE_MSI \<Rightarrow> do {
       enable_all_msi;
       modify (\<lambda>s. s\<lparr>msi_on := (msi_on s \<or> msi_vectors e > 0)\<rparr>);
       if msi_vectors e < msi_max_cnt p then ret (- EINTR)
       else do {
         set_msi_flag;
         fill_irqs e [0..<nat (msi_max_cnt p)];
         modify (\<lambda>s. s\<lparr>irq_count := msi_max_cnt p\<rparr>);
         ret 0
       }
     }
   | PCI_INT_MODE_MSIX \<Rightarrow> msi_mode e
   | PCI_INT_MODE_MSI \<Rightarrow> msi_mode e
   | PCI_INT_MODE_LEGACY \<Rightarrow> legacy_mode e
   | PCI_INT_MODE_NONE \<Rightarrow> ret 0)"

section \<open>Probe and removal\<close>

definition clear_and_set :: "u16 \<Rightarrow> u16 \<Rightarrow> u16 \<Rightarrow> u16" where
  "clear_and_set w clr v = (w AND NOT clr) OR v"

definition pcidev_tune_caps :: "pci_env \<Rightarrow> (pci_world, int) state" where
  "pcidev_tune_caps e =
     (if \<not> under_root e then ret (- EINVAL)
      else if \<not> both_pcie e then ret (- EINVAL)
      else do {
        let rc_sup = rc_devcap e AND PCI_EXP_DEVCAP_PAYLOAD;
        let ep_sup = ep_devcap e AND PCI_EXP_DEVCAP_PAYLOAD;
        let sup = (if rc_sup > ep_sup then ep_sup else rc_sup);
        modify (\<lambda>s. s\<lparr>rc_devctl := clear_and_set (rc_devctl s) PCI_EXP_DEVCTL_PAYLOAD (push_bit 5 sup)\<rparr>);
        modify (\<lambda>s. s\<lparr>ep_devctl := clear_and_set (ep_devctl s) PCI_EXP_DEVCTL_PAYLOAD (push_bit 5 sup)\<rparr>);
        ret 0
      })"

text \<open>Each store is read back, which has no effect on the model.\<close>

definition soc_write :: "nat \<Rightarrow> u32 \<Rightarrow> (pci_world, unit) state" where
  "soc_write a v = modify (\<lambda>s. s\<lparr>soc_regs := soc_regs s @ [(a, v)]\<rparr>)"

definition la9310_fix_imx8mp_bar0_window :: "pci_env \<Rightarrow> (pci_world, int) state" where
  "la9310_fix_imx8mp_bar0_window e =
     (if \<not> fix_mapped e then ret (- ENOMEM)
      else do {
        modify (\<lambda>s. s\<lparr>pci_command := pci_command s OR PCI_COMMAND_MEMORY\<rparr>);
        soc_write RFNM_IMX8MP_PCIE_OB1_LOWER_TARGET RFNM_LA9310_BAR0_TEMP_TARGET;
        soc_write RFNM_LA9310_BAR0_FIX_LIMIT RFNM_LA9310_BAR0_LIMIT;
        soc_write RFNM_LA9310_BAR0_FIX_BASE RFNM_LA9310_BAR0_TARGET;
        soc_write RFNM_IMX8MP_PCIE_OB1_LOWER_TARGET RFNM_LA9310_BAR0_TARGET;
        ret 0
      })"

text \<open>\<open>kzalloc\<close> of the device structure: every field is zero.\<close>

definition zero_region :: mem_region where
  "zero_region = \<lparr>mr_phys_addr = 0, mr_vaddr = 0, mr_size = 0, mr_type = 0\<rparr>"

definition kzalloc_dev :: "platform \<Rightarrow> (probe_world, unit) state" where
  "kzalloc_dev p = do {
     modify (\<lambda>s. s\<lparr>mem_regions := replicate LA9310_MEM_REGION_BAR_END zero_region, host_buf := zero_region,
       ep_pcie_addr := 0, ep_bufs := replicate LA9310_DMA_REGIONS zero_region\<rparr>);
     modify (\<lambda>s. s\<lparr>fwi_name := [], fwi_busy := False, fwi_size := 0\<rparr>);
     modify (\<lambda>s. s\<lparr>ep_log_buf := 0, ep_log_len := 0, ep_log_offset := 0, win_start := 0, win_current := 0,
       win_limit := 0\<rparr>);
     modify (\<lambda>s. s\<lparr>irq_tab := replicate (nat (msi_max_cnt p)) \<lparr>irq_val = 0, msi_val = 0, irq_free = 0\<rparr>,
       irq_count := 0, dev_flags := 0, irq_priv := PNull, stats_nodes := 0\<rparr>);
     modify (\<lambda>s. s\<lparr>has_vspa := False, vspa_freed := False\<rparr>);
     modify (\<lambda>s. s\<lparr>ipc_priv := None\<rparr>);
     modify (\<lambda>s. s\<lparr>la_id := 0, stats_control := 0\<rparr>)
   }"

text \<open>\<open>kfree\<close> of the device structure, with what it still referred to.\<close>

definition live_bars :: "probe_world \<Rightarrow> nat" where
  "live_bars d = length (filter (\<lambda>m. mr_vaddr m \<noteq> 0) (take LA9310_MEM_REGION_BAR_END (mem_regions d)))"

definition kfree_dev :: "(pci_world, unit) state" where
  "kfree_dev = modify (\<lambda>s. s\<lparr>lost_maps := lost_maps s + live_bars (dev s),
     lost_nodes := lost_nodes s + stats_nodes (dev s)\<rparr>)"

definition la9310_dev_free :: "(pci_world, unit) state" where
  "la9310_dev_free = do {
     on_dev (modify (\<lambda>d. d\<lparr>has_dev := False\<rparr>));
     modify (\<lambda>s. s\<lparr>drvdata := False\<rparr>);
     kfree_dev
   }"

definition set_bars :: "pci_env \<Rightarrow> (probe_world, unit) state" where
  "set_bars e = modify (\<lambda>s. s\<lparr>mem_regions :=
     map (\<lambda>i. (mem_regions s ! i)\<lparr>mr_phys_addr := bar_start e i, mr_size := bar_len e i\<rparr>)
       [0..<LA9310_MEM_REGION_BAR_END]\<rparr>)"

text \<open>A null pointer is \<open>False\<close>.\<close>

definition priv_init_fail :: "(pci_world, bool) state" where
  "priv_init_fail = do { on_dev la9310_unmap_mem_regions; kfree_dev; ret False }"

definition la9310_pci_priv_init :: "platform \<Rightarrow> pci_env \<Rightarrow> (pci_world, bool) state" where
  "la9310_pci_priv_init p e =
     (if \<not> kz_mem e then ret False
      else do {
        on_dev (kzalloc_dev p);
        i \<leftarrow> get_la9310_dev_id_pcidevname (pname e);
        if i = - 1 then do { kfree_dev; ret False }
        else do {
          on_dev (modify (\<lambda>d. d\<lparr>la_id := i\<rparr>));
          modify (\<lambda>s. s\<lparr>dev_names := (dev_names s)[nat i := pname e]\<rparr>);
          on_dev (set_bars e);
          rc \<leftarrow> on_dev (la9310_map_mem_regions (bar_map e));
          if rc \<noteq> 0 then priv_init_fail
          else do {
            rc \<leftarrow> on_dev (la9310_dev_set_interrupt_capability p e PCI_INT_MODE_MULTIPLE_MSI);
            if rc < 0 then priv_init_fail
            else do { on_dev (modify (\<lambda>d. d\<lparr>has_dev := True\<rparr>)); ret True }
          }
        }
      })"

text \<open>The labels of the error path, from the last to the first.\<close>

definition err2 :: "int \<Rightarrow> (pci_world, int) state" where
  "err2 rc = do { modify (\<lambda>s. s\<lparr>pci_on := False, bus_master := False\<rparr>); ret rc }"

definition err3 :: "int \<Rightarrow> (pci_world, int) state" where
  "err3 rc = do { modify (\<lambda>s. s\<lparr>pci_res := False\<rparr>); err2 rc }"

definition err5 :: "int \<Rightarrow> (pci_world, int) state" where
  "err5 rc = do { on_dev la9310_dev_reset_interrupt_capability; la9310_dev_free; err3 rc }"

definition la9310_pcidev_probe :: "platform \<Rightarrow> pci_env \<Rightarrow> (pci_world, int) state" where
  "la9310_pcidev_probe p e =
     (if enable_rc e \<noteq> 0 then ret (enable_rc e)
      else do {
        modify (\<lambda>s. s\<lparr>pci_on := True\<rparr>);
        rc \<leftarrow> la9310_fix_imx8mp_bar0_window e;
        if rc \<noteq> 0 then err2 rc
        else if regions_rc e \<noteq> 0 then err2 (regions_rc e)
        else do {
          modify (\<lambda>s. s\<lparr>pci_res := True\<rparr>);
          modify (\<lambda>s. s\<lparr>bus_master := True\<rparr>);
          if dma64_rc e \<noteq> 0 \<and> dma32_rc e \<noteq> 0 then err3 (dma32_rc e)
          else do {
            _ \<leftarrow> pcidev_tune_caps e;
            ok \<leftarrow> la9310_pci_priv_init p e;
            if \<not> ok then err3 (- ENOMEM)
            else do {
              rc \<leftarrow> on_dev (la9310_base_probe p (answers e));
              if rc \<noteq> 0 then err5 rc
              else do { modify (\<lambda>s. s\<lparr>drvdata := True\<rparr>); ret rc }
            }
          }
        }
      })"

definition la9310_pcidev_remove :: "(pci_world, unit) state" where
  "la9310_pcidev_remove = do {
     live \<leftarrow> gets drvdata;
     if \<not> live then ret ()
     else do {
       _ \<leftarrow> on_dev la9310_base_remove;
       on_dev la9310_unmap_mem_regions;
       on_dev la9310_dev_reset_interrupt_capability;
       la9310_dev_free;
       modify (\<lambda>s. s\<lparr>pci_res := False\<rparr>);
       modify (\<lambda>s. s\<lparr>pci_on := False, bus_master := False\<rparr>)
     }
   }"

section \<open>Module\<close>

text \<open>
  Registering the driver offers it the endpoint that is already there, unregistering takes it
  away. \<open>cls\<close>, \<open>chr\<close> and \<open>reg_rc\<close> are the kernel's answers; \<open>max_scratch\<close> is
  \<open>LA9310_MAX_SCRATCH_BUF_SIZE\<close>, from a header that is not part of the sources.
\<close>

definition la9310_pcidev_init ::
  "platform \<Rightarrow> int \<Rightarrow> int \<Rightarrow> u64 \<Rightarrow> int \<Rightarrow> int \<Rightarrow> int \<Rightarrow> pci_env \<Rightarrow> (pci_world, int) state" where
  "la9310_pcidev_init p max_scratch sz phys cls chr reg_rc pe =
     (if \<not> (sz \<noteq> 0 \<and> phys \<noteq> 0) then ret (- EINVAL)
      else if sz \<le> int LA9310_VSPA_FW_SIZE \<or> sz > max_scratch then ret (- EINVAL)
      else if cls \<noteq> 0 then ret cls
      else do {
        modify (\<lambda>s. s\<lparr>la_class := True\<rparr>);
        on_dev (modify (\<lambda>d. d\<lparr>scratch_buf_size := nat sz, scratch_buf_phys_addr := phys\<rparr>));
        err \<leftarrow> on_dev (la9310_subdrv_mod_init chr);
        if err \<noteq> 0 then ret err
        else if reg_rc \<noteq> 0 then ret reg_rc
        else do {
          modify (\<lambda>s. s\<lparr>registered := True\<rparr>);
          d \<leftarrow> gets ep;
          (if d = None then ret ()
           else do {
             rc \<leftarrow> la9310_pcidev_probe p pe;
             modify (\<lambda>s. s\<lparr>bound := (rc = 0)\<rparr>)
           });
          ret 0
        }
      })"

definition la9310_pcidev_exit :: "(pci_world, unit) state" where
  "la9310_pcidev_exit = do {
     b \<leftarrow> gets bound;
     (if b then la9310_pcidev_remove else ret ());
     modify (\<lambda>s. s\<lparr>bound := False, registered := False\<rparr>);
     on_dev la9310_subdrv_mod_exit;
     modify (\<lambda>s. s\<lparr>la_class := False\<rparr>)
   }"


section \<open>What the bring-up keeps\<close>

text \<open>
  Nothing below the PCI driver writes the BAR mappings, the table of interrupt vectors, the
  flags of the device or its place on the device list.
\<close>

definition kept :: "'a probe_world_scheme \<Rightarrow> 'a probe_world_scheme \<Rightarrow> bool" where
  "kept s t \<longleftrightarrow> mem_regions t = mem_regions s \<and> has_dev t = has_dev s \<and> irq_tab t = irq_tab s \<and>
     irq_count t = irq_count s \<and> dev_flags t = dev_flags s \<and> la_id t = la_id s \<and>
     subdrv_cnt t = subdrv_cnt s"

interpretation kp: run_rel kept
  by unfold_locales (auto simp: kept_def)

named_theorems kept_rules "computations that keep what belongs to the PCI driver"

lemma core_kept: "core_frame s t \<Longrightarrow> kept s t"
  unfolding core_frame_def by (elim conjE, drule vspa_more_eq, erule ssubst) (simp add: kept_def)

lemma bus_step_kept: "bus_step s t b \<Longrightarrow> kept s t"
  unfolding bus_step_def by (elim ssubst) (simp add: kept_def)

lemma core_rel_kept: "state_io_rel core_frame m \<Longrightarrow> state_io_rel kept m"
  by (auto simp: state_io_rel_def intro: core_kept)

lemma bus_rel_kept: "state_io_rel bus_rel m \<Longrightarrow> state_io_rel kept m"
  by (auto simp: state_io_rel_def bus_rel_def intro: bus_step_kept)

lemma modify_kept:
  fixes f :: "'a probe_world_scheme \<Rightarrow> 'a probe_world_scheme"
  assumes "\<And>s. mem_regions (f s) = mem_regions s" and "\<And>s. has_dev (f s) = has_dev s"
    and "\<And>s. irq_tab (f s) = irq_tab s" and "\<And>s. irq_count (f s) = irq_count s"
    and "\<And>s. dev_flags (f s) = dev_flags s" and "\<And>s. la_id (f s) = la_id s"
    and "\<And>s. subdrv_cnt (f s) = subdrv_cnt s"
  shows "state_io_rel kept (modify f)"
  by (rule kp.modify_rel) (simp add: kept_def assms)

lemmas window_kept [kept_rules] = frame_rules [THEN bus_rel_kept] swap_forensics_bus [THEN bus_rel_kept]
  register_setup_bus [THEN bus_rel_kept] init_hif_bus [THEN bus_rel_kept]
  chk_hif_mod_rdy_bus [THEN bus_rel_kept] ipc_ready_wait_bus [THEN bus_rel_kept]

lemmas loader_kept [kept_rules] = startup_core [THEN core_rel_kept] load_image_core [THEN core_rel_kept]
  set_vd_core [THEN core_rel_kept]

lemma loops_kept [kept_rules]:
  "state_io_rel kept (park_wait n)"
  "state_io_rel kept (read_all as)"
  "state_io_rel kept (zeroise_loop hw r v cc)"
  "state_io_rel kept (carve rs off)"
proof -
  show "state_io_rel kept (park_wait n)"
    by (induction n) (simp_all add: kp.rel_rules kept_rules)
  show "state_io_rel kept (read_all as)"
    by (induction "as") (simp_all add: kp.rel_rules kept_rules)
  show "state_io_rel kept (zeroise_loop hw r v cc)"
  proof (induction hw r v cc rule: zeroise_loop.induct)
    case (1 hw r v cc)
    have "state_io_rel kept (stage_copy r' bs)" for r' bs
      by (rule core_rel_kept [OF stage_copy_core])
    moreover have "state_io_rel kept (dma_raw_transmit d)" for d
      by (rule bus_rel_kept [OF dma_raw_transmit_frame])
    ultimately show ?case
      using 1 by (subst zeroise_loop.simps)
        (auto intro!: kp.rel_rules kept_rules modify_kept split: option.splits)
  qed
  show "state_io_rel kept (carve rs off)"
    by (induction rs off rule: carve.induct)
      (auto simp: la9310_init_subdrv_region_def intro!: kp.rel_rules modify_kept)
qed

lemma registry_kept [kept_rules]:
  "state_io_rel kept (copy_blob e r a)"
  "state_io_rel kept rfnm_vspa_boot_tail"
  unfolding copy_blob_def rfnm_vspa_boot_tail_def la9310_set_host_ready_def
  by (auto intro!: kp.rel_rules kept_rules modify_kept)

lemma boot_kept [kept_rules]:
  "state_io_rel kept (rfnm_vspa_boot_image_locked i)"
  unfolding rfnm_vspa_boot_image_locked_def boot_fail_def
  by (intro kp.rel_rules kept_rules modify_kept) simp_all

lemma probe_boot_kept [kept_rules]: "state_io_rel kept rfnm_vspa_probe_boot"
  unfolding rfnm_vspa_probe_boot_def
  by (intro kp.rel_rules kept_rules modify_kept) simp_all

lemma udev_kept [kept_rules]: "state_io_rel kept (la9310_udev_load_firmware b n name fw)"
  unfolding la9310_udev_load_firmware_def
  by (cases fw) (auto intro!: kp.rel_rules kept_rules modify_kept)

lemma firmware_kept [kept_rules]:
  "state_io_rel kept (vspa_get_fw_image fw)"
  "state_io_rel kept (la9310_load_rtos_img p fw)"
  "state_io_rel kept (vspa_mem_initialization ok)"
  unfolding vspa_get_fw_image_def la9310_load_rtos_img_def la9310_wait_for_boot_scratch_def
    la9310_dev_reserve_firmware_def la9310_dev_free_firmware_def vspa_mem_initialization_def
  by ((intro kp.rel_rules kept_rules modify_kept)?; simp)+

lemma parts_kept [kept_rules]:
  "state_io_rel kept (la9310_init_sysfs rc)"
  "state_io_rel kept la9310_remove_sysfs"
  "state_io_rel kept la9310_remove_stats"
  "state_io_rel kept (la9310_register_ep_stats_ops ok)"
  "state_io_rel kept free_mux_irq"
  "state_io_rel kept free_hs_irq"
  "state_io_rel kept unmap_scratch"
  "state_io_rel kept (la9310_init_ep_logger p)"
  "state_io_rel kept (la9310_scratch_dma_buf p va)"
  unfolding la9310_init_sysfs_def la9310_remove_sysfs_def la9310_remove_stats_def
    la9310_register_ep_stats_ops_def add_stats_node_def free_mux_irq_def free_hs_irq_def unmap_scratch_def
    iounmap_host_def la9310_init_ep_logger_def la9310_scratch_dma_buf_def la9310_init_subdrv_dma_buf_def
    la9310_scratch_outbound_create_def ls_pcie_iatu_outbound_set_def
  by ((intro kp.rel_rules kept_rules modify_kept)?; simp)+


lemma irq_ptr_kept [kept_rules]:
  "state_io_rel kept m \<Longrightarrow> (\<And>x. state_io_rel kept (f x)) \<Longrightarrow> state_io_rel kept n \<Longrightarrow>
     state_io_rel kept (case q of PNull \<Rightarrow> m | PLive x \<Rightarrow> f x | PFreed \<Rightarrow> n)"
  by (cases q) simp_all

lemma irq_kept [kept_rules]:
  "state_io_rel kept (la9310_init_irq_mux b)"
  "state_io_rel kept (la9310_init_irq_stats ok)"
  "state_io_rel kept la9310_clean_request_irq"
  unfolding la9310_init_irq_mux_def la9310_init_irq_stats_def add_stats_node_def la9310_clean_request_irq_def
  by ((intro kp.rel_rules kept_rules modify_kept)?; simp)+

lemma request_irq_kept [kept_rules]: "state_io_rel kept (la9310_request_irq p e)"
  unfolding la9310_request_irq_def la9310_probe_irq_mux_def Let_def
  by (intro kp.rel_rules kept_rules modify_kept) simp_all

lemma ipc_kept [kept_rules]:
  "state_io_rel kept (la9310_ipc_probe p x)"
  "state_io_rel kept la9310_ipc_remove"
  unfolding la9310_ipc_probe_def ipc_fail_def la9310_ipc_remove_def
  by ((intro kp.rel_rules kept_rules modify_kept)?; simp)+

lemma vspa_kept [kept_rules]:
  "state_io_rel kept (vspa_probe v)"
  "state_io_rel kept vspa_remove"
  unfolding vspa_probe_def vspa_remove_def Let_def
  by ((intro kp.rel_rules kept_rules modify_kept)?; simp)+

lemma wdog_kept [kept_rules]: "state_io_rel kept (wdog_set_status i f)"
  unfolding wdog_set_status_def set_pd_def
  by ((intro kp.rel_rules kept_rules modify_kept)?; simp split: wdog_ptr.splits)+

lemma subdrv_kept [kept_rules]:
  "state_io_rel kept (subdrv_virqs p ty)"
  "state_io_rel kept (subdrv_probe p e d)"
  "state_io_rel kept (subdrv_remove d)"
proof -
  show virqs: "state_io_rel kept (subdrv_virqs p ty)" for ty
    unfolding subdrv_virqs_def by ((intro kp.rel_rules kept_rules modify_kept)?; simp split: irq_ptr.splits)+
  show "state_io_rel kept (subdrv_probe p e d)"
    by (cases d) (simp_all add: kp.rel_rules kept_rules virqs)
  show "state_io_rel kept (subdrv_remove d)"
    by (cases d) (simp_all add: kp.rel_rules kept_rules)
qed

lemma subdrvs_kept [kept_rules]:
  "state_io_rel kept (probe_subdrvs p e js)"
  "state_io_rel kept (remove_subdrvs js)"
  by (induction js) (simp_all add: kp.rel_rules kept_rules)

lemma deinit_kept [kept_rules]:
  "state_io_rel kept (base_fail st i rc)"
  unfolding base_fail_def la9310_base_deinit_def la9310_base_cleanup_subdrv_def deinit_from_def
  by (intro kp.rel_rules kept_rules)

lemma base_probe_kept: "state_io_rel kept (la9310_base_probe p e)"
  unfolding la9310_base_probe_def base_probe_late_def wdog_set_pci_domain_nr_def wdog_set_modem_status_def
  by ((intro kp.rel_rules kept_rules modify_kept)?; simp split: option.splits)+

lemma base_remove_kept: "state_io_rel kept la9310_base_remove"
  unfolding la9310_base_remove_def la9310_subdrv_remove_def
  by (intro kp.rel_rules kept_rules modify_kept; simp)+


section \<open>Probe and removal of an endpoint\<close>

lemma wp_on_dev [wp_eqs]:
  "wp (on_dev m) Q s \<longleftrightarrow> wp m (\<lambda>r d. Q r (s\<lparr>dev := d\<rparr>)) ((dev s)\<lparr>fence_at := (\<lambda>n. fence s)\<rparr>)"
  by (simp add: wp_def on_dev_def split: prod.splits)

text \<open>Nothing held, seen from the PCI core.\<close>

definition pci_idle :: "pci_world \<Rightarrow> bool" where
  "pci_idle s \<longleftrightarrow> \<not> pci_on s \<and> \<not> pci_res s \<and> \<not> bus_master s \<and> \<not> drvdata s \<and> \<not> has_dev (dev s) \<and>
     fresh_device (dev s)"

definition pci_held :: "platform \<Rightarrow> pci_env \<Rightarrow> pci_world \<Rightarrow> pci_world \<Rightarrow> bool" where
  "pci_held p e s t \<longleftrightarrow> pci_on t \<and> pci_res t \<and> bus_master t \<and> drvdata t \<and> has_dev (dev t) \<and>
     all_held p (answers e) (dev s) (dev t)"

text \<open>A probe leaves the hard reprobe's own state alone.\<close>

definition outside_probe :: "pci_world \<Rightarrow> pci_world \<Rightarrow> bool" where
  "outside_probe s t \<longleftrightarrow> fence t = fence s \<and> ep t = ep s \<and> rc_down t = rc_down s \<and> refs t = refs s \<and>
     scans t = scans s \<and> steps t = steps s \<and> irqs_off t = irqs_off s \<and> bound t = bound s"

interpretation op: run_rel outside_probe
  by unfold_locales (auto simp: outside_probe_def)

text \<open>Setting a device up changes neither what it holds nor the device list.\<close>

definition prep :: "probe_world \<Rightarrow> probe_world \<Rightarrow> bool" where
  "prep s t \<longleftrightarrow> (fresh_device s \<longrightarrow> fresh_device t) \<and> (ipc_priv s = None \<longrightarrow> ipc_unchanged s t) \<and>
     has_dev t = has_dev s \<and> (stats_nodes s = 0 \<longrightarrow> stats_nodes t = 0)"

interpretation su: run_rel prep
  by unfold_locales (auto simp: prep_def ipc_unchanged_def)

lemma bus_step_prep: "bus_step s t b \<Longrightarrow> prep s t"
  unfolding bus_step_def by (elim ssubst) (simp add: prep_def fresh_device_def ipc_unchanged_def)

lemma bus_rel_prep: "state_io_rel bus_rel m \<Longrightarrow> state_io_rel prep m"
  by (auto simp: state_io_rel_def bus_rel_def intro: bus_step_prep)

lemma modify_prep: "(\<And>s. prep s (f s)) \<Longrightarrow> state_io_rel prep (modify f)"
  by (rule su.modify_rel)

lemmas prep_defs = prep_def fresh_device_def ipc_unchanged_def

lemma map_regions_prep: "state_io_rel prep (map_regions f js)"
proof (induction js)
  case (Cons i js)
  show ?case
    unfolding map_regions.simps by (intro su.rel_rules modify_prep Cons.IH) (simp add: prep_defs)
qed (simp add: su.rel_rules)

lemma fill_irqs_prep: "state_io_rel prep (fill_irqs e js)"
proof (induction js)
  case (Cons i js)
  show ?case
    unfolding fill_irqs.simps set_irq_def
    by (intro su.rel_rules modify_prep Cons.IH) (simp add: prep_defs)
qed (simp add: su.rel_rules)

lemma prep_parts:
  "state_io_rel prep (la9310_map_mem_regions f)"
  "state_io_rel prep la9310_unmap_mem_regions"
  "state_io_rel prep (set_bars e)"
  "state_io_rel prep (la9310_dev_set_interrupt_capability p e PCI_INT_MODE_MULTIPLE_MSI)"
  unfolding la9310_map_mem_regions_def la9310_unmap_mem_regions_def set_bars_def
    la9310_dev_set_interrupt_capability_def int_mode.case enable_all_msi_def
  by (intro su.rel_rules map_regions_prep fill_irqs_prep modify_prep bus_rel_prep frame_rules;
      simp add: prep_defs)+

lemma kzalloc_wp:
  "wp (kzalloc_dev p) (\<lambda>r t. (fresh_device s \<longrightarrow> fresh_device t) \<and> has_dev t = has_dev s \<and>
     stats_nodes t = 0 \<and> live_bars t = 0 \<and> (ipc_priv s = None \<longrightarrow> ipc_unchanged s t)) s"
  by (simp add: kzalloc_dev_def wp_eqs fresh_device_def live_bars_def zero_region_def ipc_unchanged_def)

lemma fill_irqs_flags: "wp (fill_irqs e js) (\<lambda>r t. dev_flags t = dev_flags s \<and> mem_regions t = mem_regions s) s"
proof (induction js arbitrary: s)
  case (Cons i js)
  show ?case
    by (simp add: wp_eqs set_irq_def) (rule wp_mono [OF Cons.IH], simp)
qed (simp add: wp_eqs)

lemma msi_wp:
  "wp (la9310_dev_set_interrupt_capability p e PCI_INT_MODE_MULTIPLE_MSI)
    (\<lambda>rc t. mem_regions t = mem_regions s \<and> (if msi_vectors e < msi_max_cnt p then rc = - EINTR
       else rc = 0 \<and> dev_flags t AND LA9310_FLG_PCI_MSI_EN \<noteq> 0)) s"
proof -
  have flag: "(x OR 1) AND 1 \<noteq> 0" for x :: u32
  proof
    assume "(x OR 1) AND 1 = 0"
    then have "even ((x OR 1) AND 1)" by (simp only: even_zero)
    then show False by (simp only: even_and_iff even_or_iff odd_one simp_thms)
  qed
  show ?thesis
    unfolding la9310_dev_set_interrupt_capability_def enable_all_msi_def int_mode.case
    apply (simp add: wp_eqs raw_read_def raw_write_def)
    apply (intro impI)
    apply (rule wp_mono [OF fill_irqs_flags])
    apply (simp add: flag wp_eqs)
    done
qed


lemma rel_wpI: "state_io_rel R m \<Longrightarrow> (\<And>r t. R s t \<Longrightarrow> Q r t) \<Longrightarrow> wp m Q s"
  by (simp add: state_io_rel_def wp_iff_run)

lemma unmapped_none: "wp la9310_unmap_mem_regions (\<lambda>r t. live_bars t = 0 \<and> prep s t) s"
proof -
  have "wp la9310_unmap_mem_regions (\<lambda>r t. live_bars t = 0) s"
    by (cases "length (mem_regions s) \<le> LA9310_MEM_REGION_BAR_END")
      (auto simp: la9310_unmap_mem_regions_def wp_eqs live_bars_def filter_empty_conv)
  from wp_conj [OF this rel_wpI [OF prep_parts(2)]] show ?thesis by simp
qed

text \<open>The device as the bring-up finds it, and the structure given up.\<close>

definition priv_ready :: "pci_world \<Rightarrow> pci_world \<Rightarrow> bool" where
  "priv_ready s t \<longleftrightarrow> outside_probe s t \<and> pci_on t = pci_on s \<and> pci_res t = pci_res s \<and>
     bus_master t = bus_master s \<and> drvdata t = drvdata s \<and> fresh_device (dev t) \<and>
     ipc_unchanged (dev s) (dev t) \<and> lost_maps t = lost_maps s \<and> lost_nodes t = lost_nodes s"

definition priv_mid :: "pci_world \<Rightarrow> pci_world \<Rightarrow> bool" where
  "priv_mid s t \<longleftrightarrow> priv_ready s t \<and> has_dev (dev t) = has_dev (dev s) \<and> stats_nodes (dev t) = 0"

lemmas priv_defs = priv_ready_def priv_mid_def outside_probe_def

lemma fresh_simps [simp]:
  "fresh_device (s\<lparr>fence_at := f\<rparr>) = fresh_device s"
  "ipc_unchanged (s\<lparr>fence_at := f\<rparr>) t = ipc_unchanged s t"
  "ipc_unchanged s (t\<lparr>fence_at := f\<rparr>) = ipc_unchanged s t"
  "fresh_device (s\<lparr>has_dev := b\<rparr>) = fresh_device s"
  "ipc_unchanged s (t\<lparr>has_dev := b\<rparr>) = ipc_unchanged s t"
  "ipc_unchanged s s"
  by (simp_all add: fresh_device_def ipc_unchanged_def)

lemma fresh_ipc: "fresh_device s \<Longrightarrow> ipc_priv s = None"
  by (simp add: fresh_device_def)

lemma ipc_unchanged_trans: "ipc_unchanged s t \<Longrightarrow> ipc_unchanged t u \<Longrightarrow> ipc_unchanged s u"
  by (simp add: ipc_unchanged_def)

lemma priv_step:
  "priv_mid s u \<Longrightarrow> prep ((dev u)\<lparr>fence_at := f\<rparr>) d \<Longrightarrow> priv_mid s (u\<lparr>dev := d\<rparr>)"
  unfolding priv_defs prep_def by (simp add: fresh_ipc) (blast intro: ipc_unchanged_trans)

lemma priv_on_dev:
  assumes "priv_mid s u" and "state_io_rel prep m" and "\<And>r d. priv_mid s (u\<lparr>dev := d\<rparr>) \<Longrightarrow> Q r (u\<lparr>dev := d\<rparr>)"
  shows "wp (on_dev m) Q u"
  by (simp add: wp_eqs) (rule rel_wpI [OF assms(2)], rule assms(3), rule priv_step [OF assms(1)])

lemma priv_fail_wp: "priv_mid s u \<Longrightarrow> wp priv_init_fail (\<lambda>ok t. \<not> ok \<and> priv_mid s t) u"
  unfolding priv_init_fail_def kfree_dev_def
  apply (simp add: wp_eqs)
  apply (rule wp_mono [OF unmapped_none])
  apply (drule priv_step, erule conjunct2)
  apply (simp add: priv_defs)
  done

lemma dev_id_wp:
  assumes "\<And>i g. Q i (s\<lparr>la9310_dev_id_g := g\<rparr>)"
  shows "wp (get_la9310_dev_id_pcidevname n) Q s"
proof -
  have "Q i s" for i using assms [of i "la9310_dev_id_g s"] by simp
  then show ?thesis
    unfolding get_la9310_dev_id_pcidevname_def
    by (intro wp_steps wp_optionI wp_ifI assms)
qed

lemma priv_init_wp:
  assumes "fresh_device (dev s)" and "\<not> has_dev (dev s)"
  shows "wp (la9310_pci_priv_init p e) (\<lambda>ok t. priv_ready s t \<and> has_dev (dev t) = ok \<and>
    (ok \<longrightarrow> stats_nodes (dev t) = 0 \<and> dev_flags (dev t) AND LA9310_FLG_PCI_MSI_EN \<noteq> 0)) s"
proof -
  have fail: "wp priv_init_fail (\<lambda>ok t. priv_ready s t \<and> has_dev (dev t) = ok \<and>
    (ok \<longrightarrow> stats_nodes (dev t) = 0 \<and> dev_flags (dev t) AND LA9310_FLG_PCI_MSI_EN \<noteq> 0)) u"
    if "priv_mid s u" for u
    by (rule wp_mono [OF priv_fail_wp [OF that]]) (use assms(2) in \<open>simp add: priv_mid_def\<close>)
  have none: "priv_ready s s"
    using assms(1) by (simp add: priv_defs)
  have kz: "wp (on_dev (kzalloc_dev p)) Q s"
    if "\<And>d. priv_mid s (s\<lparr>dev := d\<rparr>) \<Longrightarrow> live_bars d = 0 \<Longrightarrow> Q () (s\<lparr>dev := d\<rparr>)" for Q
    using assms(1)
    by (simp add: wp_eqs)
      (rule wp_mono [OF kzalloc_wp], rule that, simp_all add: priv_defs fresh_ipc)
  have msi: "wp (on_dev (la9310_dev_set_interrupt_capability p e PCI_INT_MODE_MULTIPLE_MSI)) Q u"
    if "priv_mid s u" "\<And>rc d. priv_mid s (u\<lparr>dev := d\<rparr>) \<Longrightarrow> rc < 0 \<Longrightarrow> Q rc (u\<lparr>dev := d\<rparr>)"
      "\<And>rc d. priv_mid s (u\<lparr>dev := d\<rparr>) \<Longrightarrow> \<not> rc < 0 \<Longrightarrow> dev_flags d AND LA9310_FLG_PCI_MSI_EN \<noteq> 0 \<Longrightarrow>
        Q rc (u\<lparr>dev := d\<rparr>)" for Q u
    by (simp add: wp_eqs)
      (rule wp_mono [OF wp_conj [OF msi_wp rel_wpI [OF prep_parts(4)]]], assumption,
       elim conjE, drule priv_step [OF that(1)],
       auto split: if_splits intro: that(2,3) simp: errno_defs)
  have mid_upd: "priv_mid s (u\<lparr>la9310_dev_id_g := g\<rparr>) = priv_mid s u"
    "priv_mid s (u\<lparr>dev_names := ns\<rparr>) = priv_mid s u" for u g ns
    by (simp_all add: priv_defs)
  show ?thesis
    unfolding la9310_pci_priv_init_def
    apply (rule wp_ifI)
     apply (rule wp_steps, use assms none in simp)
    apply (rule wp_steps, rule kz, rule wp_steps, rule dev_id_wp, rule wp_ifI)
     apply (use assms(2) in \<open>simp add: kfree_dev_def wp_eqs priv_defs\<close>)
    apply (rule wp_steps, rule priv_on_dev [where s = s], simp add: mid_upd)
     apply (rule modify_prep, simp add: prep_defs)
    apply (rule wp_steps)+
    apply (rule priv_on_dev [where s = s], simp add: mid_upd, rule prep_parts)
    apply (rule wp_steps, rule priv_on_dev [where s = s], assumption, rule prep_parts)
    apply (rule wp_ifI, erule fail)
    apply (rule wp_steps, rule msi, assumption, rule wp_ifI)
      apply (erule fail)
     apply simp
    apply (rule wp_ifI, simp)
    apply (simp add: wp_eqs priv_defs)
    done
qed


text \<open>The BARs that get mapped, and when everything before the bring-up goes through.\<close>

definition bar_usable :: "pci_env \<Rightarrow> nat \<Rightarrow> bool" where
  "bar_usable e i \<longleftrightarrow> bar_start e i \<noteq> 0 \<and> page_align (bar_len e i) \<noteq> 0"

definition usable_bars :: "pci_env \<Rightarrow> nat" where
  "usable_bars e = length (filter (bar_usable e) [0..<LA9310_MEM_REGION_BAR_END])"

definition known_name :: "pci_env \<Rightarrow> pci_world \<Rightarrow> bool" where
  "known_name e s \<longleftrightarrow> name_index (pname e) (take MAX_MODEM_INSTANCES (dev_names s)) \<noteq> None \<or>
     la9310_dev_id_g s < MAX_MODEM_INSTANCES"

definition bars_ok :: "pci_env \<Rightarrow> bool" where
  "bars_ok e \<longleftrightarrow> (\<forall>i<LA9310_MEM_REGION_BAR_END. bar_usable e i \<longrightarrow> bar_map e i \<noteq> None)"

definition priv_ok :: "platform \<Rightarrow> pci_env \<Rightarrow> pci_world \<Rightarrow> bool" where
  "priv_ok p e s \<longleftrightarrow> kz_mem e \<and> known_name e s \<and> bars_ok e \<and> msi_max_cnt p \<le> msi_vectors e"

definition setup_ok :: "platform \<Rightarrow> pci_env \<Rightarrow> pci_world \<Rightarrow> bool" where
  "setup_ok p e s \<longleftrightarrow> enable_rc e = 0 \<and> fix_mapped e \<and> regions_rc e = 0 \<and> (dma64_rc e = 0 \<or> dma32_rc e = 0) \<and>
     priv_ok p e s"

definition clean_bars :: "pci_env \<Rightarrow> probe_world \<Rightarrow> bool" where
  "clean_bars e s \<longleftrightarrow> mem_regions s = map (\<lambda>i. zero_region\<lparr>mr_phys_addr := bar_start e i, mr_size := bar_len e i\<rparr>)
     [0..<LA9310_MEM_REGION_BAR_END]"

lemma map_bars_wp:
  assumes "clean_bars e s" and "\<forall>i. bar_map e i \<noteq> Some 0"
  shows "wp (la9310_map_mem_regions (bar_map e)) (\<lambda>rc t.
    (rc = 0 \<longrightarrow> live_bars t = usable_bars e) \<and>
    (rc = 0 \<longleftrightarrow> bars_ok e)) s"
  using assms
  by (auto simp: clean_bars_def bars_ok_def la9310_map_mem_regions_def upt_rec wp_eqs live_bars_def usable_bars_def
      bar_usable_def zero_region_def less_Suc_eq numeral_3_eq_3 errno_defs split: option.splits)


lemma priv_bars_wp:
  assumes "\<forall>i. bar_map e i \<noteq> Some 0"
  shows "wp (la9310_pci_priv_init p e) (\<lambda>ok t. ok = priv_ok p e s \<and>
    (ok \<longrightarrow> live_bars (dev t) = usable_bars e)) s"
proof -
  have fail: "wp priv_init_fail (\<lambda>ok t. ok = priv_ok p e s \<and> (ok \<longrightarrow> live_bars (dev t) = usable_bars e)) u"
    if "\<not> priv_ok p e s" for u
    using that by (simp add: priv_init_fail_def kfree_dev_def la9310_unmap_mem_regions_def wp_eqs)
  have kz: "wp (on_dev (kzalloc_dev p)) Q s"
    if "\<And>d. mem_regions d = replicate LA9310_MEM_REGION_BAR_END zero_region \<Longrightarrow> Q () (s\<lparr>dev := d\<rparr>)" for Q
    by (simp add: kzalloc_dev_def wp_eqs) (rule that, simp)
  have id: "wp (get_la9310_dev_id_pcidevname (pname e)) Q (s\<lparr>dev := d\<rparr>)"
    if "\<not> known_name e s \<Longrightarrow> Q (- 1) (s\<lparr>dev := d\<rparr>)"
      "\<And>i g. i \<noteq> - 1 \<Longrightarrow> known_name e s \<Longrightarrow> Q i (s\<lparr>dev := d, la9310_dev_id_g := g\<rparr>)" for Q d
    using that(1) that(2) [of _ "la9310_dev_id_g s"] that(2) [of _ "la9310_dev_id_g s + 1"]
    by (auto simp: get_la9310_dev_id_pcidevname_def known_name_def wp_eqs split: option.splits)
  have map: "wp (on_dev (la9310_map_mem_regions (bar_map e))) Q u"
    if "clean_bars e (dev u)" "\<And>d. live_bars d = usable_bars e \<Longrightarrow> bars_ok e \<Longrightarrow> Q 0 (u\<lparr>dev := d\<rparr>)"
      "\<And>rc d. rc \<noteq> 0 \<Longrightarrow> \<not> bars_ok e \<Longrightarrow> Q rc (u\<lparr>dev := d\<rparr>)" for Q u
  proof -
    have c: "clean_bars e ((dev u)\<lparr>fence_at := f\<rparr>)" for f
      using that(1) by (simp add: clean_bars_def)
    show ?thesis
      unfolding wp_on_dev
      by (rule wp_mono [OF map_bars_wp [OF c assms]]) (metis that(2,3))
  qed
  have msi: "wp (on_dev (la9310_dev_set_interrupt_capability p e PCI_INT_MODE_MULTIPLE_MSI)) Q u"
    if "live_bars (dev u) = usable_bars e"
      "\<And>d. live_bars d = usable_bars e \<Longrightarrow> msi_max_cnt p \<le> msi_vectors e \<Longrightarrow> Q 0 (u\<lparr>dev := d\<rparr>)"
      "\<And>rc d. rc < 0 \<Longrightarrow> \<not> msi_max_cnt p \<le> msi_vectors e \<Longrightarrow> Q rc (u\<lparr>dev := d\<rparr>)" for Q u
  proof -
    have bars: "mem_regions d = mem_regions (dev u) \<Longrightarrow> live_bars d = usable_bars e" for d
      using that(1) by (simp add: live_bars_def)
    show ?thesis
      unfolding wp_on_dev
      by (rule wp_mono [OF msi_wp]) (use that(2,3) bars in \<open>auto simp: errno_defs split: if_splits\<close>)
  qed
  have upd: "wp (on_dev (modify (\<lambda>d. d\<lparr>la_id := i\<rparr>))) Q u"
    if "\<And>d. mem_regions d = mem_regions (dev u) \<Longrightarrow> Q () (u\<lparr>dev := d\<rparr>)" for Q i u
    by (simp add: wp_eqs) (rule that, simp)
  have set: "wp (on_dev (set_bars e)) Q u"
    if "mem_regions (dev u) = replicate LA9310_MEM_REGION_BAR_END zero_region"
      "\<And>d. clean_bars e d \<Longrightarrow> Q () (u\<lparr>dev := d\<rparr>)" for Q u
    using that(1) by (simp add: set_bars_def wp_eqs) (rule that(2), simp add: clean_bars_def)
  show ?thesis
    unfolding la9310_pci_priv_init_def
    apply (rule wp_ifI)
     apply (rule wp_steps, simp add: priv_ok_def)
    apply (rule wp_steps, rule kz, rule wp_steps, rule id)
     apply (simp add: kfree_dev_def wp_eqs priv_ok_def)
    apply (rule wp_ifI, simp)
    apply (rule wp_steps, rule upd, (rule wp_steps)+, rule set, simp)
    apply (rule wp_steps, rule map, simp, rule wp_ifI, simp)
     apply (rule wp_steps, rule msi, simp, rule wp_ifI, simp)
      apply (simp add: wp_eqs live_bars_def priv_ok_def)
     apply (rule wp_ifI, rule fail, simp add: priv_ok_def, simp)
    apply (rule wp_ifI, rule fail, simp add: priv_ok_def, simp)
    done
qed

text \<open>What a probe leaves behind.\<close>

definition probe_outcome :: "platform \<Rightarrow> pci_env \<Rightarrow> pci_world \<Rightarrow> int \<Rightarrow> pci_world \<Rightarrow> bool" where
  "probe_outcome p e s rc t \<longleftrightarrow> outside_probe s t \<and>
     (if rc = 0 then pci_held p e s t \<and> lost_maps t = lost_maps s \<and> lost_nodes t = lost_nodes s
      else pci_idle t \<and> ipc_unchanged (dev s) (dev t) \<and>
        lost_maps t = lost_maps s + (if setup_ok p e s then usable_bars e else 0))"

lemma released_fresh:
  "all_released s t \<Longrightarrow> fresh_device s \<Longrightarrow> subdrv_cnt t = subdrv_cnt s \<Longrightarrow> fresh_device t"
  by (simp add: all_released_def fresh_device_def ipc_unchanged_def)

lemma held_start:
  "ipc_unchanged s u \<Longrightarrow> fresh_device s \<Longrightarrow> fresh_device u \<Longrightarrow> all_held p e u t \<Longrightarrow> all_held p e s t"
  by (simp add: all_held_def ipc_probed_def ipc_unchanged_def fresh_device_def Let_def)

lemma reset_cap_prep: "state_io_rel prep la9310_dev_reset_interrupt_capability"
  unfolding la9310_dev_reset_interrupt_capability_def
  by (intro su.rel_rules modify_prep; simp add: prep_defs)

lemma reset_cap_bars:
  "wp la9310_dev_reset_interrupt_capability (\<lambda>r t. live_bars t = live_bars s \<and> prep s t) s"
proof -
  have "wp la9310_dev_reset_interrupt_capability (\<lambda>r t. live_bars t = live_bars s) s"
    by (simp add: la9310_dev_reset_interrupt_capability_def wp_eqs live_bars_def)
  from wp_conj [OF this rel_wpI [OF reset_cap_prep]] show ?thesis by simp
qed

lemma err5_wp:
  assumes "outside_probe s u" and "fresh_device (dev u)" and "ipc_unchanged (dev s) (dev u)"
    and "rc \<noteq> 0" and "lost_maps u + live_bars (dev u) = lost_maps s + (if setup_ok p e s then usable_bars e else 0)"
  shows "wp (err5 rc) (probe_outcome p e s) u"
proof -
  have bars: "live_bars ((dev u)\<lparr>fence_at := f\<rparr>) = live_bars (dev u)" "live_bars (d\<lparr>has_dev := b, fence_at := f\<rparr>) = live_bars d"
    "live_bars (d\<lparr>fence_at := f, has_dev := b\<rparr>) = live_bars d" for f d b
    by (simp_all add: live_bars_def)
  show ?thesis
    unfolding err5_def err3_def err2_def la9310_dev_free_def kfree_dev_def
    apply (simp add: wp_eqs)
    apply (rule wp_mono [OF reset_cap_bars])
    using assms
    apply (simp add: probe_outcome_def outside_probe_def pci_idle_def bars prep_def fresh_ipc)
    apply (blast intro: ipc_unchanged_trans)
    done
qed

text \<open>Between the two, with the device enabled and its regions requested.\<close>

definition pci_open :: "pci_world \<Rightarrow> pci_world \<Rightarrow> bool" where
  "pci_open s u \<longleftrightarrow> priv_ready s (u\<lparr>pci_on := pci_on s, pci_res := pci_res s, bus_master := bus_master s\<rparr>) \<and>
     pci_on u \<and> pci_res u \<and> bus_master u"

lemma err3_wp:
  assumes "pci_idle s" and "pci_open s u" and "\<not> has_dev (dev u)" and "rc \<noteq> 0" and "\<not> setup_ok p e s"
  shows "wp (err3 rc) (probe_outcome p e s) u"
  using assms
  by (simp add: err3_def err2_def wp_eqs probe_outcome_def pci_open_def priv_ready_def outside_probe_def pci_idle_def)

lemma base_step:
  assumes "pci_idle s" and "pci_open s u" and "has_dev (dev u)" and "setup_ok p e s"
    and "live_bars (dev u) = usable_bars e" and "scratch_va (answers e) \<noteq> Some 0"
  shows "wp (do {
      rc \<leftarrow> on_dev (la9310_base_probe p (answers e));
      if rc \<noteq> 0 then err5 rc else do { modify (\<lambda>s. s\<lparr>drvdata := True\<rparr>); ret rc }
    }) (probe_outcome p e s) u"
proof -
  let ?d = "(dev u)\<lparr>fence_at := (\<lambda>n. fence u)\<rparr>"
  have fresh: "fresh_device (dev s)" "fresh_device ?d" "ipc_unchanged (dev s) ?d"
    using assms(1,2) by (simp_all add: pci_idle_def pci_open_def priv_ready_def)
  have run: "wp (la9310_base_probe p (answers e)) (\<lambda>rc t. probe_result p (answers e) ?d rc t \<and> kept ?d t) ?d"
    by (rule wp_conj [OF probe_wp [OF fresh(2) assms(6)] rel_wpI [OF base_probe_kept]])
  have same: "kept ?d t \<Longrightarrow> live_bars t = usable_bars e \<and> has_dev t \<and> subdrv_cnt t = subdrv_cnt (dev u)" for t
    using assms(3,5) by (simp add: kept_def live_bars_def)
  show ?thesis
    apply (rule wp_steps, subst wp_on_dev, rule wp_mono [OF run], rule wp_ifI)
    subgoal for rc t
      apply (rule err5_wp)
      using assms(2,4) same [of t] released_fresh [of ?d t] fresh
      by (auto simp: probe_result_def pci_open_def priv_ready_def outside_probe_def all_released_def
          intro: ipc_unchanged_trans)
    subgoal for rc t
      using assms(2) same [of t] held_start [OF fresh(3,1,2)]
      by (auto simp: wp_eqs probe_result_def probe_outcome_def pci_open_def priv_ready_def outside_probe_def
          pci_held_def)
    done
qed


lemma tune_caps_wp:
  assumes "\<And>rc a b. Q rc (s\<lparr>rc_devctl := a, ep_devctl := b\<rparr>)"
  shows "wp (pcidev_tune_caps e) Q s"
proof -
  have "Q rc s" for rc using assms [where rc = rc and a = "rc_devctl s" and b = "ep_devctl s"] by simp
  then show ?thesis
    unfolding pcidev_tune_caps_def Let_def by (intro wp_steps wp_ifI assms)
qed

lemma pci_probe_wp:
  assumes "pci_idle s" and "scratch_va (answers e) \<noteq> Some 0" and "\<forall>i. bar_map e i \<noteq> Some 0"
  shows "wp (la9310_pcidev_probe p e) (probe_outcome p e s) s"
proof -
  have idle: "fresh_device (dev s)" "\<not> has_dev (dev s)" "probe_outcome p e s rc s" if "rc \<noteq> 0" "\<not> setup_ok p e s" for rc
    using assms(1) that by (simp_all add: pci_idle_def probe_outcome_def outside_probe_def)
  have e2: "wp (err2 rc) (probe_outcome p e s) (s\<lparr>pci_on := True, pci_command := c, soc_regs := g\<rparr>)"
    if "rc \<noteq> 0" "\<not> setup_ok p e s" for rc c g
    using that assms(1)
    by (simp add: err2_def wp_eqs probe_outcome_def outside_probe_def pci_idle_def)
  have window: "wp (la9310_fix_imx8mp_bar0_window e) Q (s\<lparr>pci_on := True\<rparr>)"
    if "\<And>c g. fix_mapped e \<Longrightarrow> Q 0 (s\<lparr>pci_on := True, pci_command := c, soc_regs := g\<rparr>)"
      "\<not> fix_mapped e \<Longrightarrow> Q (- ENOMEM) (s\<lparr>pci_on := True\<rparr>)" for Q
    using that(1) [where c = "pci_command s OR PCI_COMMAND_MEMORY"] that(2)
    by (simp add: la9310_fix_imx8mp_bar0_window_def soc_write_def wp_eqs)
  have opened: "pci_open s (s\<lparr>pci_on := True, pci_command := c, soc_regs := g, pci_res := True, bus_master := True,
      rc_devctl := a, ep_devctl := b\<rparr>)" for c g a b
    using assms(1) by (simp add: pci_open_def priv_ready_def outside_probe_def pci_idle_def)
  have priv: "wp (la9310_pci_priv_init p e) (\<lambda>ok t. pci_open s t \<and> has_dev (dev t) = ok \<and>
      ok = priv_ok p e s \<and> (ok \<longrightarrow> live_bars (dev t) = usable_bars e))
    (s\<lparr>pci_on := True, pci_command := c, soc_regs := g, pci_res := True, bus_master := True,
      rc_devctl := a, ep_devctl := b\<rparr>)" for c g a b
    by (rule wp_mono [OF wp_conj [OF priv_init_wp priv_bars_wp [OF assms(3)]]])
      (use assms(1) in \<open>simp_all add: pci_idle_def pci_open_def priv_ready_def outside_probe_def priv_ok_def known_name_def\<close>)
  show ?thesis
    unfolding la9310_pcidev_probe_def
    apply (rule wp_ifI)
     apply (rule wp_steps, use assms(1) in \<open>simp add: probe_outcome_def outside_probe_def setup_ok_def\<close>)
    apply (rule wp_steps)+
    apply (rule window)
     apply (rule wp_ifI, simp)
     apply (rule wp_ifI, rule e2, assumption, simp add: setup_ok_def)
     apply (rule wp_steps)+
     apply (rule wp_ifI)
      apply (rule err3_wp [OF assms(1)])
         apply (use opened [where a = "rc_devctl s" and b = "ep_devctl s"] in simp)
        apply (use assms(1) in \<open>simp add: pci_idle_def\<close>)
       apply simp
      apply (simp add: setup_ok_def)
     apply (rule wp_steps, rule tune_caps_wp, rule wp_steps, rule wp_mono [OF priv], rule wp_ifI)
      apply (rule err3_wp [OF assms(1)])
         apply simp
        apply simp
       apply (simp add: errno_defs)
      apply (simp add: setup_ok_def)
     apply (rule base_step [OF assms(1) _ _ _ _ assms(2)])
        apply (simp_all add: setup_ok_def)[4]
    apply (rule wp_ifI)
     apply (use e2 [where c = "pci_command s" and g = "soc_regs s"] in \<open>simp add: setup_ok_def errno_defs\<close>)
    apply (simp add: errno_defs)
    done
qed


lemma held_fence [simp]: "all_held p e s (t\<lparr>fence_at := f\<rparr>) = all_held p e s t"
  by (simp add: all_held_def ipc_probed_def Let_def)

lemma pci_remove_wp:
  assumes "pci_idle s" and "pci_held p e s u"
  shows "wp la9310_pcidev_remove (\<lambda>r t. outside_probe u t \<and> pci_idle t \<and> ipc_unchanged (dev s) (dev t) \<and>
    lost_maps t = lost_maps u \<and> lost_nodes t = lost_nodes u) u"
proof -
  let ?d = "(dev u)\<lparr>fence_at := (\<lambda>n. fence u)\<rparr>"
  have fresh: "fresh_device (dev s)" and held: "all_held p (answers e) (dev s) ?d" and live: "drvdata u"
    using assms by (simp_all add: pci_idle_def pci_held_def)
  have run: "wp la9310_base_remove (\<lambda>rc t. (rc = 0 \<and> all_released (dev s) t \<and> stats_nodes t = 0 \<and> \<not> msi_on t) \<and>
      kept ?d t) ?d"
    by (rule wp_conj [OF remove_wp [OF fresh held] rel_wpI [OF base_remove_kept]])
  have count: "kept ?d t \<Longrightarrow> subdrv_cnt t = subdrv_cnt (dev s)" for t
    using held by (simp add: kept_def all_held_def)
  have bars: "live_bars (d\<lparr>fence_at := f\<rparr>) = live_bars d" "live_bars (d\<lparr>has_dev := b, fence_at := f\<rparr>) = live_bars d"
    "live_bars (d\<lparr>fence_at := f, has_dev := b\<rparr>) = live_bars d" for f d b
    by (simp_all add: live_bars_def)
  show ?thesis
    unfolding la9310_pcidev_remove_def la9310_dev_free_def kfree_dev_def
    apply (rule wp_steps)+
    apply (rule wp_ifI, use live in simp)
    apply (rule wp_steps, subst wp_on_dev, rule wp_mono [OF run])
    subgoal for rc t
      using released_fresh [of "dev s" t] fresh count [of t]
      apply (simp add: wp_eqs)
      apply (rule wp_mono [OF unmapped_none])
      apply (rule wp_mono [OF reset_cap_bars])
      apply (simp add: outside_probe_def pci_idle_def bars prep_def fresh_ipc all_released_def)
      apply (blast intro: ipc_unchanged_trans)
      done
    done
qed


text \<open>
  C27: removing a device undoes its probe: from an idle device, a probe and, when it succeeded,
  the removal leave an idle device and the tables of the IPC driver as they were, nothing is lost,
  and the root complex, the fence and the reference counts are untouched.
\<close>

theorem pcidev_probe_remove:
  assumes "pci_idle s" and "scratch_va (answers e) \<noteq> Some 0" and "\<forall>i. bar_map e i \<noteq> Some 0"
  shows "case run_state (do {
      rc \<leftarrow> la9310_pcidev_probe p e;
      if rc = 0 then do { la9310_pcidev_remove; ret 0 } else ret rc
    }) s of (rc, t) \<Rightarrow> pci_idle t \<and> outside_probe s t \<and> ipc_unchanged (dev s) (dev t) \<and>
      (rc = 0 \<longrightarrow> lost_maps t = lost_maps s \<and> lost_nodes t = lost_nodes s)"
proof -
  have "wp (do {
      rc \<leftarrow> la9310_pcidev_probe p e;
      if rc = 0 then do { la9310_pcidev_remove; ret 0 } else ret rc
    }) (\<lambda>rc t. pci_idle t \<and> outside_probe s t \<and> ipc_unchanged (dev s) (dev t) \<and>
      (rc = 0 \<longrightarrow> lost_maps t = lost_maps s \<and> lost_nodes t = lost_nodes s)) s"
    by (intro wp_steps wp_ifI wp_mono [OF pci_probe_wp [OF assms]] wp_mono [OF pci_remove_wp [OF assms(1)]])
      (auto simp: probe_outcome_def intro: op.R_trans)
  then show ?thesis by (simp add: wp_def)
qed

section \<open>Module start\<close>

text \<open>When the driver cannot be registered, the class and the device numbers of the IPC driver are
  kept although the module does not load.\<close>

lemma init_failure_keeps:
  assumes "int LA9310_VSPA_FW_SIZE < sz" and "sz \<le> m" and "phys \<noteq> 0" and "reg_rc \<noteq> 0"
  shows "case run_state (la9310_pcidev_init p m sz phys 0 0 reg_rc pe) s of (rc, t) \<Rightarrow>
    rc = reg_rc \<and> la_class t \<and> ipc_region (dev t)"
proof -
  have "sz \<noteq> 0" using assms(1) by simp
  then show ?thesis
    using assms
    by (simp add: la9310_pcidev_init_def la9310_subdrv_mod_init_def sub_drvs_g_def la9310_ipc_init_def on_dev_def
        split_beta)
qed

section \<open>Witnesses\<close>

definition sample_pci :: pci_world where
  "sample_pci = \<lparr>dev = sample_probe\<lparr>has_dev := False\<rparr>, fence = False, ep = None, bound = False, drvdata = False,
     pci_on = False, pci_res = False, bus_master = False, dev_names = [[]], la9310_dev_id_g = 0,
     lost_maps = 0, lost_nodes = 0, pci_command = 0, rc_devctl = 0, ep_devctl = 0, soc_regs = [],
     la_class = True, registered = True, rc_down = False, refs = 0, irqs_off = [], scans = 0, steps = []\<rparr>"

definition sample_pci_env :: pci_env where
  "sample_pci_env = \<lparr>enable_rc = 0, fix_mapped = True, regions_rc = 0, dma64_rc = 0, dma32_rc = 0,
     under_root = True, both_pcie = True, rc_devcap = 1, ep_devcap = 2, kz_mem = True, pname = ''0000:01:00.0'',
     bar_start = (\<lambda>i. 0x18000000), bar_len = (\<lambda>i. 0x1000), bar_map = (\<lambda>i. Some 0x20000000), msi_vectors = 8,
     msi_rc = 0, vector = (\<lambda>i. int i + 100), legacy_irq = 0, msi_irq_mux = 0, answers = sample_answers\<rparr>"

lemma sample_pci_idle: "pci_idle sample_pci"
  using sample_fresh by (simp add: pci_idle_def sample_pci_def)

lemma sample_env_simps [simp]:
  "scratch_va sample_answers = Some 0x10000000" "answers sample_pci_env = sample_answers"
  "bar_map sample_pci_env i = Some 0x20000000"
  by (simp_all add: sample_answers_def sample_pci_env_def)


theorem pcidev_probe_remove_witness:
  "pci_idle (snd (run_state (do {
      rc \<leftarrow> la9310_pcidev_probe small_platform sample_pci_env;
      if rc = 0 then do { la9310_pcidev_remove; ret 0 } else ret rc
    }) sample_pci))"
  using pcidev_probe_remove [OF sample_pci_idle, of sample_pci_env small_platform]
  by (simp add: split_beta)

end
