(* ===== verification/Reprobe.thy ===== *)
theory Reprobe
  imports Pci
begin

text \<open>
  The hard reprobe of la9310_pci.c: the endpoint and its root port are taken away, the whole PCIe
  root complex is suspended, the board reset and the root complex resumed, all behind the fence,
  and the buses scanned until the driver is bound again.

  Main results: the fence covers every moment in which the link is dead, on every error path;
  what a further reprobe does to a link that an earlier one left dead; the scans after the
  link is back.
\<close>

section \<open>Hard reprobe\<close>

text \<open>
  What the board code, which is not part of the sources, and the kernel's device list answer:
  the bridge above the endpoint and the device in slot 0, the suspend of the root complex
  (\<open>rfnm_pcie_rc_set_disabled (true)\<close>), the board reset, the two places where it is resumed, and
  what a scan of the buses discovers (given the state of the root complex and the number of the
  scan). A suspend or resume that returns 0 has done what it was asked to, another one nothing.
\<close>

record reprobe_env =
  ep_bridge :: bool
  slot0 :: bool
  rc_off_rc :: int
  board_rc :: int
  rc_on_rc :: int
  rc_recover_rc :: int
  discovers :: "bool \<Rightarrow> nat \<Rightarrow> (pci_id \<times> pci_env) option"

definition log_step :: "reprobe_step \<Rightarrow> (pci_world, unit) state" where
  "log_step k = modify (\<lambda>s. s\<lparr>steps := steps s @ [(k, fence s, rc_down s, length (bus (dev s)))]\<rparr>)"

definition set_fence :: "bool \<Rightarrow> (pci_world, unit) state" where
  "set_fence b = do { modify (\<lambda>s. s\<lparr>fence := b\<rparr>); log_step StFence }"

definition rfnm_pcie_rc_set_disabled :: "bool \<Rightarrow> int \<Rightarrow> (pci_world, int) state" where
  "rfnm_pcie_rc_set_disabled off rc = do {
     (if rc = 0 then modify (\<lambda>s. s\<lparr>rc_down := off\<rparr>) else ret ());
     log_step StRc;
     ret rc
   }"

abbreviation get_ref :: "(pci_world, unit) state" where
  "get_ref \<equiv> modify (\<lambda>s. s\<lparr>refs := refs s + 1\<rparr>)"

abbreviation put_ref :: "(pci_world, unit) state" where
  "put_ref \<equiv> modify (\<lambda>s. s\<lparr>refs := refs s - 1\<rparr>)"

text \<open>A device that is found comes with a reference.\<close>

definition la9310_find_endpoint :: "(pci_world, bool) state" where
  "la9310_find_endpoint = do {
     d \<leftarrow> gets ep;
     if d = Some ID_LA9310_DISABLE_CIP then do { get_ref; ret True }
     else if d = Some ID_LA9310 then do { get_ref; ret True }
     else ret False
   }"

definition la9310_find_root_port :: "reprobe_env \<Rightarrow> (pci_world, bool) state" where
  "la9310_find_root_port e = do {
     found \<leftarrow> la9310_find_endpoint;
     (if found then do { (if ep_bridge e then get_ref else ret ()); put_ref } else ret ());
     if found \<and> ep_bridge e then ret True
     else if slot0 e then do { get_ref; ret True }
     else ret False
   }"

text \<open>A scan adds the devices that are not known yet; only a new device is offered to the driver.\<close>

definition la9310_rescan_all_buses :: "platform \<Rightarrow> reprobe_env \<Rightarrow> (pci_world, unit) state" where
  "la9310_rescan_all_buses p e = do {
     n \<leftarrow> gets scans;
     off \<leftarrow> gets rc_down;
     known \<leftarrow> gets ep;
     modify (\<lambda>s. s\<lparr>scans := n + 1\<rparr>);
     (case discovers e off n of
        None \<Rightarrow> ret ()
      | Some (d, pe) \<Rightarrow>
          if known \<noteq> None then ret ()
          else do {
            modify (\<lambda>s. s\<lparr>ep := Some d\<rparr>);
            rc \<leftarrow> la9310_pcidev_probe p pe;
            modify (\<lambda>s. s\<lparr>bound := (rc = 0)\<rparr>)
          });
     log_step StRescan
   }"

definition la9310_verify_reprobe :: "(pci_world, int) state" where
  "la9310_verify_reprobe = do {
     found \<leftarrow> la9310_find_endpoint;
     if \<not> found then ret (- ENODEV)
     else do {
       b \<leftarrow> gets bound;
       put_ref;
       ret (if b then 0 else - ENODEV)
     }
   }"

fun rescan_loop :: "platform \<Rightarrow> reprobe_env \<Rightarrow> nat \<Rightarrow> int \<Rightarrow> (pci_world, int) state" where
  "rescan_loop p e 0 r = ret r"
| "rescan_loop p e (Suc n) r = do {
     la9310_rescan_all_buses p e;
     r \<leftarrow> la9310_verify_reprobe;
     if r = 0 then ret 0 else rescan_loop p e n r
   }"

definition la9310_rescan_and_verify :: "platform \<Rightarrow> reprobe_env \<Rightarrow> (pci_world, int) state" where
  "la9310_rescan_and_verify p e = rescan_loop p e 50 (- ENODEV)"

definition la9310_quiesce_endpoint_irqs :: "(pci_world, unit) state" where
  "la9310_quiesce_endpoint_irqs = do {
     found \<leftarrow> la9310_find_endpoint;
     if \<not> found then ret ()
     else do {
       live \<leftarrow> gets drvdata;
       (if live then modify (\<lambda>s. s\<lparr>irqs_off := irqs_off s @
           map (\<lambda>i. irq_val (irq_tab (dev s) ! i)) [0..<nat (irq_count (dev s))]\<rparr>)
        else ret ());
       put_ref
     }
   }"

text \<open>\<open>pci_stop_and_remove_bus_device_locked\<close> on the root port takes the endpoint below it away.\<close>

definition remove_root_port :: "(pci_world, unit) state" where
  "remove_root_port = do {
     b \<leftarrow> gets bound;
     (if b then la9310_pcidev_remove else ret ());
     modify (\<lambda>s. s\<lparr>bound := False, ep := None\<rparr>);
     log_step StRemove
   }"

definition recover_rescan :: "platform \<Rightarrow> reprobe_env \<Rightarrow> bool \<Rightarrow> int \<Rightarrow> (pci_world, int) state" where
  "recover_rescan p e rc_disabled r = do {
     (if rc_disabled then do {
        resume_ret \<leftarrow> rfnm_pcie_rc_set_disabled False (rc_recover_rc e);
        if resume_ret \<noteq> 0 then ret () else set_fence False
      } else ret ());
     la9310_rescan_all_buses p e;
     ret r
   }"

definition recover_resume :: "platform \<Rightarrow> reprobe_env \<Rightarrow> int \<Rightarrow> (pci_world, int) state" where
  "recover_resume p e r = do {
     resume_ret \<leftarrow> rfnm_pcie_rc_set_disabled False (rc_recover_rc e);
     (if resume_ret \<noteq> 0 then ret () else set_fence False);
     recover_rescan p e False r
   }"

definition rfnm_la9310_hard_reprobe :: "platform \<Rightarrow> reprobe_env \<Rightarrow> (pci_world, int) state" where
  "rfnm_la9310_hard_reprobe p e = do {
     root_port \<leftarrow> la9310_find_root_port e;
     if \<not> root_port then ret (- ENODEV)
     else do {
       set_fence True;
       la9310_quiesce_endpoint_irqs;
       remove_root_port;
       put_ref;
       r \<leftarrow> rfnm_pcie_rc_set_disabled True (rc_off_rc e);
       if r \<noteq> 0 then do { set_fence False; recover_rescan p e False r }
       else do {
         log_step StReset;
         let r = board_rc e;
         if r \<noteq> 0 then recover_resume p e r
         else do {
           r \<leftarrow> rfnm_pcie_rc_set_disabled False (rc_on_rc e);
           if r \<noteq> 0 then recover_rescan p e True r
           else do {
             set_fence False;
             la9310_rescan_and_verify p e
           }
         }
       }
     }
   }"

section \<open>The hard reprobe\<close>

lemma on_dev_outside: "state_io_rel outside_probe (on_dev m)"
  by (simp add: state_io_rel_def on_dev_def outside_probe_def split: prod.splits)

lemma modify_outside: "(\<And>s. outside_probe s (f s)) \<Longrightarrow> state_io_rel outside_probe (modify f)"
  by (rule op.modify_rel)

lemma probe_outside: "state_io_rel outside_probe (la9310_pcidev_probe p e)"
  unfolding la9310_pcidev_probe_def la9310_fix_imx8mp_bar0_window_def soc_write_def err5_def err3_def err2_def
    pcidev_tune_caps_def Let_def la9310_pci_priv_init_def priv_init_fail_def get_la9310_dev_id_pcidevname_def
    la9310_dev_free_def kfree_dev_def
  by (intro op.rel_rules on_dev_outside modify_outside; simp add: outside_probe_def)

lemma remove_outside: "state_io_rel outside_probe la9310_pcidev_remove"
  unfolding la9310_pcidev_remove_def la9310_dev_free_def kfree_dev_def
  by (intro op.rel_rules on_dev_outside modify_outside; simp add: outside_probe_def)

text \<open>
  A recorded run is quiet when the fence was up whenever the root complex was down and while
  the endpoint was taken away or reset, and nothing went over the link from a step after which
  the root complex was down to the next.
\<close>

type_synonym step_rec = "reprobe_step \<times> bool \<times> bool \<times> nat"

definition step_ok :: "step_rec \<Rightarrow> bool" where
  "step_ok x = (case x of (k, f, d, n) \<Rightarrow> (d \<or> k = StRemove \<or> k = StReset) \<longrightarrow> f)"

definition step_quiet :: "step_rec \<Rightarrow> step_rec \<Rightarrow> bool" where
  "step_quiet x y = (case (x, y) of ((k, f, d, n), (k', f', d', n')) \<Rightarrow> d \<longrightarrow> n' = n)"

definition link_quiet :: "step_rec list \<Rightarrow> bool" where
  "link_quiet l \<longleftrightarrow> list_all step_ok l \<and> successively step_quiet l"

text \<open>The invariant of a run that began in \<open>s\<close>.\<close>

definition quiet_run :: "pci_world \<Rightarrow> pci_world \<Rightarrow> bool" where
  "quiet_run s t \<longleftrightarrow> (rc_down t \<longrightarrow> fence t) \<and> (\<exists>l. steps t = steps s @ l \<and> link_quiet l \<and>
     (l = [] \<and> \<not> rc_down t \<or> l \<noteq> [] \<and> snd (last l) = (fence t, rc_down t, length (bus (dev t)))))"

lemma quiet_log:
  assumes "quiet_run s u" and "steps v = steps u" and "rc_down v \<longrightarrow> fence v"
    and "k = StRemove \<or> k = StReset \<Longrightarrow> fence v"
    and "rc_down u \<Longrightarrow> length (bus (dev v)) = length (bus (dev u))"
  shows "wp (log_step k) (\<lambda>r t. quiet_run s t \<and> fence t = fence v \<and> rc_down t = rc_down v \<and>
    refs t = refs v \<and> ep t = ep v \<and> bound t = bound v \<and> scans t = scans v) v"
proof -
  obtain l where l: "steps u = steps s @ l" "link_quiet l"
    "l = [] \<and> \<not> rc_down u \<or> l \<noteq> [] \<and> snd (last l) = (fence u, rc_down u, length (bus (dev u)))"
    using assms(1) by (auto simp: quiet_run_def)
  let ?x = "(k, fence v, rc_down v, length (bus (dev v)))"
  have "step_quiet (last l) ?x" if "l \<noteq> []"
    using l(3) that assms(5) by (cases "last l") (auto simp: step_quiet_def)
  then have "link_quiet (l @ [?x])"
    using l(2) assms(3,4) by (auto simp: link_quiet_def successively_append_iff step_ok_def)
  then show ?thesis
    using l(1) assms(2,3) by (simp add: log_step_def wp_eqs quiet_run_def)
qed


text \<open>A point of the run: the fence, the root complex and the references taken.\<close>

definition at :: "pci_world \<Rightarrow> bool \<Rightarrow> bool \<Rightarrow> int \<Rightarrow> pci_world \<Rightarrow> bool" where
  "at s f d n u \<longleftrightarrow> quiet_run s u \<and> fence u = f \<and> rc_down u = d \<and> refs u = refs s + n"

lemma quiet_simps [simp]:
  "quiet_run s (u\<lparr>refs := r\<rparr>) = quiet_run s u"
  "quiet_run s (u\<lparr>irqs_off := q\<rparr>) = quiet_run s u"
  by (simp_all add: quiet_run_def)

lemma put_at_wp:
  assumes "at s f d 1 u" and "\<And>t. at s f d 0 t \<Longrightarrow> Q () t"
  shows "wp put_ref Q u"
  using assms(1) by (simp add: wp_modify) (rule assms(2), simp add: at_def)

lemma fence_at_wp:
  assumes "at s f d n u" and "d \<longrightarrow> b" and "\<And>t. at s b d n t \<Longrightarrow> Q () t"
  shows "wp (set_fence b) Q u"
  unfolding set_fence_def
  by (intro wp_steps wp_mono [OF quiet_log [where s = s and u = u]])
    (use assms(1,2) in \<open>auto simp: at_def intro: assms(3)\<close>)

lemma rc_at_wp:
  assumes "at s f d n u" and "rc = 0 \<Longrightarrow> off \<longrightarrow> f" and "\<And>t. rc = 0 \<Longrightarrow> at s f off n t \<Longrightarrow> Q 0 t"
    and "\<And>t. rc \<noteq> 0 \<Longrightarrow> at s f d n t \<Longrightarrow> Q rc t"
  shows "wp (rfnm_pcie_rc_set_disabled off rc) Q u"
proof -
  have down: "d \<longrightarrow> f" using assms(1) by (auto simp: at_def quiet_run_def)
  have log: "wp (log_step StRc) (\<lambda>r. wp (ret rc) Q) v"
    if v: "steps v = steps u" "dev v = dev u" "fence v = f" "rc_down v = (if rc = 0 then off else d)" "refs v = refs u" for v
  proof -
    have "rc_down v \<longrightarrow> fence v" using v assms(2) down by (simp split: if_splits)
    then have "wp (log_step StRc) (\<lambda>r t. quiet_run s t \<and> fence t = fence v \<and> rc_down t = rc_down v \<and>
        refs t = refs v \<and> ep t = ep v \<and> bound t = bound v \<and> scans t = scans v) v"
      using assms(1) v by (intro quiet_log [where u = u]) (simp_all add: at_def)
    then show ?thesis
      by (rule wp_mono, cases "rc = 0")
        (use assms(1) v in \<open>auto simp: at_def wp_ret intro!: assms(3,4)\<close>)
  qed
  show ?thesis
    unfolding rfnm_pcie_rc_set_disabled_def
    by (simp only: wp_bind wp_ret wp_if wp_modify split: if_split)
      (use assms(1) log in \<open>auto simp: at_def\<close>)
qed

lemma find_endpoint_wp:
  assumes "\<And>b. Q b (s\<lparr>refs := refs s + (if b then 1 else 0)\<rparr>)"
  shows "wp la9310_find_endpoint Q s"
  using assms [of True] assms [of False] unfolding la9310_find_endpoint_def by (simp add: wp_eqs)

lemma quiesce_at_wp:
  assumes "at s f d n u" and "\<And>t. at s f d n t \<Longrightarrow> Q () t"
  shows "wp la9310_quiesce_endpoint_irqs Q u"
  unfolding la9310_quiesce_endpoint_irqs_def
  by (rule wp_steps, rule find_endpoint_wp)
    (use assms(1) in \<open>auto simp: wp_eqs at_def intro!: assms(2)\<close>)

lemma remove_at_wp:
  assumes "at s True False n u" and "\<And>t. at s True False n t \<Longrightarrow> Q () t"
  shows "wp remove_root_port Q u"
proof -
  have log: "wp (log_step StRemove) Q (v\<lparr>bound := False, ep := None\<rparr>)" if "outside_probe u v" for v
    by (rule wp_mono [OF quiet_log [where s = s and u = u]])
      (use assms(1) that in \<open>auto simp: at_def outside_probe_def intro: assms(2)\<close>)
  show ?thesis
    unfolding remove_root_port_def
    by (intro wp_steps wp_ifI rel_wpI [OF remove_outside] log) (simp_all add: outside_probe_def)
qed

lemma rescan_at_wp:
  assumes "at s f d n u" and "d \<Longrightarrow> \<forall>k. discovers e True k = None" and "\<And>t. at s f d n t \<Longrightarrow> Q () t"
  shows "wp (la9310_rescan_all_buses p e) Q u"
proof -
  have log: "wp (log_step StRescan) Q v"
    if "steps v = steps u" "fence v = fence u" "rc_down v = rc_down u" "refs v = refs u" "d \<longrightarrow> dev v = dev u" for v
    by (rule wp_mono [OF quiet_log [where s = s and u = u]])
      (use assms(1) that in \<open>auto simp: at_def quiet_run_def intro!: assms(3)\<close>)
  have d: "rc_down u = d" using assms(1) by (simp add: at_def)
  show ?thesis
    unfolding la9310_rescan_all_buses_def
    apply (rule wp_steps)+
    apply (rule wp_optionI)
     apply (rule wp_steps, rule log; simp)
    subgoal for x
      apply (cases x, simp only: prod.case)
      apply (rule wp_ifI, rule wp_steps, rule log; simp)
      apply (rule wp_steps)+
      apply (rule rel_wpI [OF probe_outside], rule wp_steps, rule log)
          apply (use assms(2) d in \<open>auto simp: outside_probe_def\<close>)
      done
    done
qed


lemma verify_at_wp:
  assumes "at s f d n u" and "\<And>rc. rc = 0 \<and> bound u \<or> rc = - ENODEV \<Longrightarrow> Q rc u"
  shows "wp la9310_verify_reprobe Q u"
  unfolding la9310_verify_reprobe_def
  by (rule wp_steps, rule find_endpoint_wp) (use assms(2) in \<open>auto simp: wp_eqs\<close>)

lemma loop_at_wp:
  "at s f False n u \<Longrightarrow> r \<noteq> 0 \<Longrightarrow>
     wp (rescan_loop p e k r) (\<lambda>rc t. at s f False n t \<and> (rc = 0 \<longrightarrow> bound t)) u"
proof (induction k arbitrary: u r)
  case (Suc k)
  show ?case
    unfolding rescan_loop.simps
    by (rule wp_steps, rule rescan_at_wp [OF Suc.prems(1)], simp, rule wp_steps, rule verify_at_wp, assumption)
      (auto simp: wp_eqs errno_defs intro!: Suc.IH)
qed (simp add: wp_eqs)

text \<open>The end of a run that found the root port: fence and root complex agree.\<close>

definition settled :: "pci_world \<Rightarrow> int \<Rightarrow> pci_world \<Rightarrow> bool" where
  "settled s rc t \<longleftrightarrow> quiet_run s t \<and> refs t = refs s \<and> fence t = rc_down t \<and> (rc = 0 \<longrightarrow> bound t \<and> \<not> fence t)"

lemma recover_at_wp:
  assumes "at s f d 0 u" and "d \<Longrightarrow> \<forall>k. discovers e True k = None" and "r \<noteq> 0"
    and "\<not> again \<Longrightarrow> f = d" and "again \<Longrightarrow> f \<and> d"
  shows "wp (recover_rescan p e again r) (settled s) u"
proof -
  have scan: "wp (la9310_rescan_all_buses p e) (\<lambda>_. wp (ret r) (settled s)) v"
    if "at s g g 0 v" "g \<Longrightarrow> d" for g v
    by (rule rescan_at_wp [OF that(1)])
      (use that(2) assms(2,3) in \<open>auto simp: wp_eqs settled_def at_def\<close>)
  show ?thesis
    unfolding recover_rescan_def
    apply (rule wp_steps)
    apply (rule wp_ifI)
     apply (rule wp_steps, rule rc_at_wp [OF assms(1)])
       apply simp
      apply (simp only: simp_thms if_False)
      apply (rule fence_at_wp, assumption, simp)
      apply (rule wp_steps, erule scan, simp)
     apply (simp only: simp_thms if_True)
     apply (rule wp_steps, rule wp_steps, rule scan [where g = True])
      apply (use assms(5) in simp)
     apply (use assms(5) in simp)
    apply (rule wp_steps, rule wp_steps, rule scan [where g = d])
     apply (use assms(1,4) in simp)
    apply simp
    done
qed

lemma resume_at_wp:
  assumes "at s True True 0 u" and "\<forall>k. discovers e True k = None" and "r \<noteq> 0"
  shows "wp (recover_resume p e r) (settled s) u"
  unfolding recover_resume_def
  apply (rule wp_steps, rule rc_at_wp [OF assms(1)], simp)
   apply (rule wp_steps, simp only: simp_thms if_False)
   apply (rule fence_at_wp, assumption, simp)
   apply (rule recover_at_wp, assumption, use assms(2,3) in simp_all)[1]
  apply (rule wp_steps, simp only: simp_thms if_True)
  apply (rule wp_steps, rule recover_at_wp, assumption, use assms(2,3) in simp_all)
  done

lemma hard_reprobe_wp:
  assumes "\<not> rc_down s" and "\<not> fence s" and "\<forall>k. discovers e True k = None"
  shows "wp (rfnm_la9310_hard_reprobe p e) (settled s) s"
proof -
  have start: "at s False False 0 s"
    using assms(1,2) by (simp add: at_def quiet_run_def link_quiet_def)
  have port: "wp (la9310_find_root_port e) Q s"
    if "\<And>b. Q b (s\<lparr>refs := refs s + (if b then 1 else 0)\<rparr>)" for Q
    using that [of True] that [of False]
    unfolding la9310_find_root_port_def la9310_find_endpoint_def by (simp add: wp_eqs add.commute)
  have reset: "wp (log_step StReset) Q u" if "at s True True 0 u" "\<And>t. at s True True 0 t \<Longrightarrow> Q () t" for Q u
    by (rule wp_mono [OF quiet_log [where s = s and u = u]])
      (use that(1) in \<open>auto simp: at_def intro: that(2)\<close>)
  have final: "wp (la9310_rescan_and_verify p e) (settled s) u" if "at s False False 0 u" for u
    unfolding la9310_rescan_and_verify_def
    by (rule wp_mono [OF loop_at_wp [OF that]]) (auto simp: errno_defs settled_def at_def)
  show ?thesis
    unfolding rfnm_la9310_hard_reprobe_def Let_def
    apply (rule wp_steps, rule port, rule wp_ifI)
     apply (use start in \<open>simp add: wp_eqs settled_def at_def errno_defs\<close>)
    apply (rule wp_steps, rule fence_at_wp [where s = s and n = 1 and d = False and f = False])
      apply (use start in \<open>simp add: at_def\<close>)
     apply simp
    apply (rule wp_steps, rule quiesce_at_wp, assumption)
    apply (rule wp_steps, rule remove_at_wp, assumption)
    apply (rule wp_steps, rule put_at_wp, assumption)
    apply (rule wp_steps, rule rc_at_wp, assumption, simp)
     apply (simp only: simp_thms if_False)
     apply (rule wp_steps, rule reset, assumption)
     apply (rule wp_ifI, rule resume_at_wp, assumption, rule assms(3), assumption)
     apply (rule wp_steps, rule rc_at_wp, assumption, simp)
      apply (simp only: simp_thms if_False)
      apply (rule wp_steps, rule fence_at_wp, assumption, simp, erule final)
     apply (rule wp_ifI)
      apply (rule recover_at_wp, assumption, use assms(3) in simp_all)[1]
     apply simp
    apply (rule wp_ifI)
     apply (rule wp_steps, rule fence_at_wp, assumption, simp)
     apply (rule recover_at_wp, assumption, simp_all)
    done
qed



text \<open>
  The fence that stays up for a dead link is not final. When a reprobe has left the root
  complex down, a further one whose suspend fails takes the failure for a root complex that
  never went down and lowers the fence while the link is still dead.
\<close>

theorem reprobe_opens_dead_link:
  assumes "rc_down s" and "slot0 e" and "ep s = None" and "\<not> bound s" and "rc_off_rc e \<noteq> 0"
    and "\<forall>k. discovers e True k = None"
  shows "case run_state (rfnm_la9310_hard_reprobe p e) s of (rc, t) \<Rightarrow> rc \<noteq> 0 \<and> rc_down t \<and> \<not> fence t"
  using assms
  by (simp add: rfnm_la9310_hard_reprobe_def la9310_find_root_port_def la9310_find_endpoint_def set_fence_def
      log_step_def la9310_quiesce_endpoint_irqs_def remove_root_port_def rfnm_pcie_rc_set_disabled_def
      recover_rescan_def la9310_rescan_all_buses_def)

lemma verify_wp:
  assumes "\<And>rc. rc = 0 \<and> ep u \<noteq> None \<and> bound u \<or> rc = - ENODEV \<Longrightarrow> Q rc u"
  shows "wp la9310_verify_reprobe Q u"
  using assms [of 0] assms [of "- ENODEV"]
  unfolding la9310_verify_reprobe_def la9310_find_endpoint_def by (simp add: wp_eqs)

lemma rescan_loop_wp:
  "wp (rescan_loop p e k (- ENODEV)) (\<lambda>rc t.
     (if rc = 0 then bound t \<and> scans t \<le> scans s + k else rc = - ENODEV \<and> scans t = scans s + k) \<and>
     (ep s \<noteq> None \<and> \<not> bound s \<longrightarrow> rc \<noteq> 0 \<and> dev t = dev s)) s"
proof (induction k arbitrary: s)
  case (Suc k)
  have scan: "wp (la9310_rescan_all_buses p e) (\<lambda>_ t. scans t = scans s + 1 \<and>
      (ep s \<noteq> None \<and> \<not> bound s \<longrightarrow> ep t = ep s \<and> \<not> bound t \<and> dev t = dev s)) s"
    unfolding la9310_rescan_all_buses_def log_step_def
    apply (intro wp_steps wp_optionI)
     apply simp
    subgoal for x
      apply (cases x, simp only: prod.case)
      apply (intro wp_steps wp_ifI rel_wpI [OF probe_outside])
       apply (simp_all add: outside_probe_def)
      done
    done
  show ?case
    unfolding rescan_loop.simps
    apply (rule wp_steps, rule wp_mono [OF scan], rule wp_steps, rule verify_wp)
    apply (erule disjE)
     apply (simp add: wp_eqs)
    apply (simp add: errno_defs wp_ret)
    apply (rule wp_mono [OF Suc.IH [unfolded errno_defs]])
    apply (auto split: if_splits)
    done
qed (simp add: wp_eqs errno_defs)


section \<open>Witnesses\<close>

definition sample_reprobe :: reprobe_env where
  "sample_reprobe = \<lparr>ep_bridge = True, slot0 = True, rc_off_rc = 0, board_rc = 0, rc_on_rc = - EIO,
     rc_recover_rc = - EIO, discovers = (\<lambda>off n. if off then None else Some (ID_LA9310, sample_pci_env))\<rparr>"


theorem reprobe_opens_dead_link_witness:
  "\<not> fence (snd (run_state (rfnm_la9310_hard_reprobe small_platform (sample_reprobe\<lparr>rc_off_rc := - EIO\<rparr>))
     (sample_pci\<lparr>rc_down := True, fence := True\<rparr>)))"
  using reprobe_opens_dead_link [of "sample_pci\<lparr>rc_down := True, fence := True\<rparr>"
      "sample_reprobe\<lparr>rc_off_rc := - EIO\<rparr>" small_platform]
  by (simp add: split_beta sample_pci_def sample_reprobe_def errno_defs)


end
