(* ===== verification/Stream_Plan.thy ===== *)
theory Stream_Plan
  imports Vspa_Registry
begin

text \<open>
  The rate planner of \<open>la9310rfnm/rfnm_lalib.c\<close>: from the sample rate a client asks for and
  the directions it switches on, \<open>rfnm_la9310_plan\<close> chooses the frequency of the converter
  clock (DCS) and the divisions on the way to it; \<open>rfnm_la9310_stream\<close> packs the choice into
  the stream configuration word and \<open>rfnm_la9310_get_clock_state\<close> reads it back out.

  Rates are the \<open>u64\<close> of the source and the shifts of the ladders are shifts of 64-bit
  words, so that a rate large enough loses its upper bits as it does in the driver. The set
  of frequencies the clock chip can produce is a parameter: its driver is not part of the
  repository.
\<close>

section \<open>The planner\<close>

abbreviation RFNM_LA9310_DCS_MAX_HZ :: u64 where "RFNM_LA9310_DCS_MAX_HZ \<equiv> 200000000"
abbreviation RFNM_LA9310_DCS_MIN_HZ :: u64 where "RFNM_LA9310_DCS_MIN_HZ \<equiv> 100000000"
abbreviation RFNM_VSPA_CAP_FDX_CONCURRENT :: u32 where "RFNM_VSPA_CAP_FDX_CONCURRENT \<equiv> 4"

record rfnm_la9310_dcs_plan =
  dcs_freq :: u64
  rx_dcs :: u8
  rx_decimation :: u8
  tx_dcs :: u8
  tx_upsampling :: u8
  caps :: u32

text \<open>The array \<open>rx\<close> of the source has four bytes, one per receive lane.\<close>

record rx_lanes =
  rx0 :: u8
  rx1 :: u8
  rx2 :: u8
  rx3 :: u8

definition any_rx :: "rx_lanes \<Rightarrow> bool" where
  "any_rx rx \<longleftrightarrow> rx0 rx \<noteq> 0 \<or> rx1 rx \<noteq> 0 \<or> rx2 rx \<noteq> 0 \<or> rx3 rx \<noteq> 0"

text \<open>Both ladders take the first rung that fits.\<close>

fun first_some :: "('a \<Rightarrow> 'b option) \<Rightarrow> 'a list \<Rightarrow> 'b option" where
  "first_some f [] = None"
| "first_some f (x # xs) = (case f x of None \<Rightarrow> first_some f xs | Some y \<Rightarrow> Some y)"

definition in_window :: "u64 \<Rightarrow> u64 \<Rightarrow> bool" where
  "in_window hi f \<longleftrightarrow> f \<le> hi \<and> f \<ge> RFNM_LA9310_DCS_MIN_HZ"

definition rx_rung :: "u64 \<Rightarrow> nat \<Rightarrow> nat \<Rightarrow> (u64 \<times> u8 \<times> u8) option" where
  "rx_rung user pass k =
     (let f = push_bit (k + 1) user;
          dcs_ceiling = if 6 \<le> k \<and> pass = 0 then 100000000 else RFNM_LA9310_DCS_MAX_HZ
      in if in_window dcs_ceiling f \<and> 3 \<le> k then Some (f, 1, of_nat k)
         else let f = push_bit k user
              in if k \<le> 3 \<and> in_window RFNM_LA9310_DCS_MAX_HZ f then Some (f, 0, of_nat k)
                 else None)"

definition rx_ladder :: "u64 \<Rightarrow> (u64 \<times> u8 \<times> u8) option" where
  "rx_ladder user = first_some (\<lambda>pass. first_some (rx_rung user pass) (rev [0..<9])) [0..<2]"

definition tx_rung :: "u64 \<Rightarrow> nat \<Rightarrow> (u64 \<times> u8 \<times> u8) option" where
  "tx_rung user u =
     (let f = push_bit (u + 1) user
      in if in_window RFNM_LA9310_DCS_MAX_HZ f then Some (f, 1, of_nat u) else None)"

definition tx_ladder :: "u64 \<Rightarrow> (u64 \<times> u8 \<times> u8) option" where
  "tx_ladder user =
     (case first_some (tx_rung user) [0..<9] of
        Some r \<Rightarrow> Some r
      | None \<Rightarrow> if in_window RFNM_LA9310_DCS_MAX_HZ user then Some (user, 0, 0) else None)"

definition rfnm_la9310_plan ::
  "'a reg_world_scheme \<Rightarrow> u64 \<Rightarrow> u8 \<Rightarrow> rx_lanes \<Rightarrow> int + rfnm_la9310_dcs_plan" where
  "rfnm_la9310_plan s user tx rx =
     (if tx = 0 then
        (case rx_ladder user of
           None \<Rightarrow> Inl (- EINVAL)
         | Some (f, d, k) \<Rightarrow> Inr \<lparr>dcs_freq = f, rx_dcs = d, rx_decimation = k, tx_dcs = 0,
                               tx_upsampling = 0, caps = RFNM_VSPA_CAP_STREAMING_BASE\<rparr>)
      else if any_rx rx then
        (if rfnm_vspa_registry_has RFNM_VSPA_CAP_FDX_CONCURRENT s \<and>
            (user * 4 = 100000000 \<or> user * 4 = 122880000)
         then Inr \<lparr>dcs_freq = user * 4, rx_dcs = 1, rx_decimation = 1, tx_dcs = 1,
                   tx_upsampling = 1,
                   caps = RFNM_VSPA_CAP_STREAMING_BASE OR RFNM_VSPA_CAP_FDX_CONCURRENT\<rparr>
         else if user * 2 < RFNM_LA9310_DCS_MIN_HZ \<or> user * 2 > RFNM_LA9310_DCS_MAX_HZ
         then Inl (- EINVAL)
         else Inr \<lparr>dcs_freq = user * 2, rx_dcs = 1, rx_decimation = 0, tx_dcs = 1,
                   tx_upsampling = 0, caps = RFNM_VSPA_CAP_STREAMING_BASE\<rparr>)
      else
        (case tx_ladder user of
           None \<Rightarrow> Inl (- EINVAL)
         | Some (f, d, u) \<Rightarrow> Inr \<lparr>dcs_freq = f, rx_dcs = 0, rx_decimation = 0, tx_dcs = d,
                               tx_upsampling = u, caps = RFNM_VSPA_CAP_STREAMING_BASE\<rparr>))"

definition rfnm_la9310_samp_rate_ok :: "(u64 \<Rightarrow> bool) \<Rightarrow> 'a reg_world_scheme \<Rightarrow> u64 \<Rightarrow> bool" where
  "rfnm_la9310_samp_rate_ok supported s user =
     (case rfnm_la9310_plan s user 0 \<lparr>rx0 = 1, rx1 = 0, rx2 = 0, rx3 = 0\<rparr> of
        Inl e \<Rightarrow> False
      | Inr p \<Rightarrow> supported (dcs_freq p))"

section \<open>The stream configuration word\<close>

definition stream_config_word :: "u8 \<Rightarrow> rx_lanes \<Rightarrow> rfnm_la9310_dcs_plan \<Rightarrow> u32" where
  "stream_config_word tx rx p =
     ucast (tx AND 1)
     OR push_bit 1 (ucast (rx0 rx AND 1)) OR push_bit 2 (ucast (rx1 rx AND 1))
     OR push_bit 3 (ucast (rx2 rx AND 1)) OR push_bit 4 (ucast (rx3 rx AND 1))
     OR push_bit 5 (ucast (rx_decimation p AND 3))
     OR push_bit 7 (ucast (tx_upsampling p AND 3))
     OR push_bit 9 (ucast (rx_dcs p AND 1))
     OR push_bit 10 (ucast (tx_dcs p AND 1))
     OR push_bit 11 (ucast (drop_bit 2 (rx_decimation p) AND 3))
     OR push_bit 13 (ucast (drop_bit 2 (tx_upsampling p) AND 3))"

record clock_state =
  rx_dcs_div :: u8
  tx_dcs_div :: u8
  rx_decim_log2 :: u8
  tx_interp_log2 :: u8

definition rfnm_la9310_get_clock_state :: "u32 \<Rightarrow> clock_state" where
  "rfnm_la9310_get_clock_state t =
     \<lparr>rx_dcs_div = ucast (drop_bit 9 t AND 1),
      tx_dcs_div = ucast (drop_bit 10 t AND 1),
      rx_decim_log2 = ucast ((drop_bit 5 t AND 3) OR push_bit 2 (drop_bit 11 t AND 3)),
      tx_interp_log2 = ucast ((drop_bit 7 t AND 3) OR push_bit 2 (drop_bit 13 t AND 3))\<rparr>"

definition rfnm_stream_is_native_rx :: "u32 \<Rightarrow> bool" where
  "rfnm_stream_is_native_rx t \<longleftrightarrow>
     drop_bit 1 t AND 15 \<noteq> 0 \<and> drop_bit 9 t AND 1 = 0 \<and>
     ((drop_bit 5 t AND 3) OR push_bit 2 (drop_bit 11 t AND 3)) = 0"

section \<open>Shifts without loss\<close>

lemma unat_push_bit_small:
  fixes u :: u64
  assumes "unat u * 2 ^ k < 2 ^ 64"
  shows "unat (push_bit k u) = unat u * 2 ^ k"
proof -
  have "unat (push_bit k u) = take_bit 64 (push_bit k (unat u))"
    by (simp add: unsigned_push_bit_eq)
  also have "\<dots> = unat u * 2 ^ k"
    using assms by (simp add: push_bit_eq_mult take_bit_nat_eq_self)
  finally show ?thesis .
qed

lemma in_window_unat:
  "in_window hi f \<longleftrightarrow> unat f \<le> unat hi \<and> 100000000 \<le> unat f"
  by (auto simp: in_window_def word_le_nat_alt)

lemma unat_shift:
  fixes u :: u64
  assumes "unat u < 2 ^ 55" and "k \<le> 9"
  shows "unat (push_bit k u) = unat u * 2 ^ k"
proof (rule unat_push_bit_small)
  have "unat u * 2 ^ k \<le> unat u * 2 ^ 9"
    using assms(2) by (intro mult_le_mono2 power_increasing) auto
  also have "\<dots> < 2 ^ 64"
    using assms(1) by simp
  finally show "unat u * 2 ^ k < 2 ^ 64" .
qed

lemma rev_upt_9: "rev [0..<9] = [8, 7, 6, 5, 4, 3, 2, 1, 0::nat]"
  by (simp add: upt_rec)

lemma upt_9: "[0..<9] = [0, 1, 2, 3, 4, 5, 6, 7, 8::nat]"
  by (simp add: upt_rec)

lemma upt_2: "[0..<2] = [0, 1::nat]"
  by (simp add: upt_rec)

definition rx_choice :: "nat \<Rightarrow> nat \<Rightarrow> bool" where
  "rx_choice n s \<longleftrightarrow> s \<le> 9 \<and>
     (100000000 < n * 2 ^ s \<and> n * 2 ^ s \<le> 200000000 \<and> (n * 2 ^ s = 200000000 \<longrightarrow> s \<le> 6) \<or>
      n * 2 ^ s = 100000000 \<and> 6 \<le> s)"

lemma rx_rung_unat:
  assumes "unat u < 2 ^ 55" and "k \<le> 8"
  shows "rx_rung u pass k =
    (if unat u * 2 ^ (k + 1) \<le> (if 6 \<le> k \<and> pass = 0 then 100000000 else 200000000) \<and>
        100000000 \<le> unat u * 2 ^ (k + 1) \<and> 3 \<le> k then Some (push_bit (k + 1) u, 1, of_nat k)
     else if k \<le> 3 \<and> unat u * 2 ^ k \<le> 200000000 \<and> 100000000 \<le> unat u * 2 ^ k
     then Some (push_bit k u, 0, of_nat k) else None)"
  unfolding rx_rung_def Let_def in_window_unat
  using unat_shift [OF assms(1), of "k + 1"] unat_shift [OF assms(1), of k] assms(2) by auto

lemma nat_le_9_cases:
  assumes "s \<le> (9::nat)"
  obtains "s = 0" | "s = 1" | "s = 2" | "s = 3" | "s = 4" | "s = 5" | "s = 6" | "s = 7" | "s = 8" | "s = 9"
proof -
  have "s = 0 \<or> s = 1 \<or> s = 2 \<or> s = 3 \<or> s = 4 \<or> s = 5 \<or> s = 6 \<or> s = 7 \<or> s = 8 \<or> s = 9"
    using assms by presburger
  then show thesis
    using that by blast
qed

lemma rx_ladder_choice:
  assumes "unat u < 2 ^ 55" and "rx_choice (unat u) s"
  shows "rx_ladder u = Some (push_bit s u, if 4 \<le> s then 1 else 0,
           of_nat (if 4 \<le> s then s - 1 else s))"
proof -
  define n where "n = unat u"
  have s9: "s \<le> 9" and ch: "rx_choice n s"
    using assms(2) by (simp_all add: rx_choice_def n_def)
  note simps = rx_ladder_def rev_upt_9 upt_2 rx_rung_unat [OF assms(1)] n_def [symmetric]
  from ch consider
      (strict) "100000000 < n * 2 ^ s" "n * 2 ^ s \<le> 200000000" "s \<le> 6 \<or> n * 2 ^ s < 200000000"
    | (exact) "n * 2 ^ s = 100000000" "6 \<le> s"
    unfolding rx_choice_def by linarith
  then show ?thesis
  proof cases
    case strict
    from s9 strict show ?thesis
      by (cases rule: nat_le_9_cases) (simp_all add: simps)
  next
    case exact
    from s9 exact consider "s = 6" "n = 1562500" | "s = 7" "n = 781250" | "s = 8" "n = 390625"
      by (cases rule: nat_le_9_cases) (simp_all, presburger?)
    then show ?thesis
      by cases (simp_all add: simps)
  qed
qed

lemma rx_ladder_none:
  assumes "unat u < 195313 \<or> 200000000 < unat u" and "unat u < 2 ^ 55"
  shows "rx_ladder u = None"
proof -
  define n where "n = unat u"
  note simps = rx_ladder_def rev_upt_9 upt_2 rx_rung_unat [OF assms(2)] n_def [symmetric]
  from assms(1) consider "n < 195313" | "200000000 < n"
    by (auto simp: n_def)
  then show ?thesis
    by cases (simp_all add: simps)
qed

lemma shift_exists:
  assumes "195313 \<le> n" and "n \<le> (200000000::nat)"
  shows "\<exists>s\<le>9. 100000000 < n * 2 ^ s \<and> n * 2 ^ s \<le> 200000000"
proof -
  define P where "P s \<longleftrightarrow> s \<le> 9 \<and> n * 2 ^ s \<le> 200000000" for s :: nat
  define s where "s = (GREATEST k. P k)"
  have P0: "P 0" and bound: "\<And>k. P k \<Longrightarrow> k \<le> 9"
    using assms(2) by (simp_all add: P_def)
  have Ps: "P s"
    unfolding s_def using P0 bound by (rule GreatestI_nat)
  have "\<not> P (Suc s)"
    using Greatest_le_nat [of P "Suc s" 9] bound by (auto simp: s_def)
  with Ps have "s = 9 \<or> 200000000 < n * 2 ^ s * 2"
    by (auto simp: P_def)
  moreover have "s = 9 \<Longrightarrow> 100000000 < n * 2 ^ s"
    using assms(1) by simp
  ultimately have "100000000 < n * 2 ^ s"
    by linarith
  with Ps show ?thesis
    by (auto simp: P_def)
qed

lemma rx_choice_exists:
  assumes "195313 \<le> n" and "n \<le> 200000000"
  shows "\<exists>s. rx_choice n s"
proof -
  obtain s where s: "s \<le> 9" "100000000 < n * 2 ^ s" "n * 2 ^ s \<le> 200000000"
    using shift_exists [OF assms] by blast
  show ?thesis
  proof (cases "n * 2 ^ s = 200000000 \<and> 7 \<le> s")
    case False
    with s show ?thesis by (intro exI [of _ s]) (auto simp: rx_choice_def)
  next
    case True
    then obtain r where r: "s = Suc r" by (cases s) auto
    with True have "n * 2 ^ r = 100000000" "6 \<le> r" by auto
    with s(1) r show ?thesis by (intro exI [of _ r]) (auto simp: rx_choice_def)
  qed
qed

lemma tx_rung_unat:
  assumes "unat u < 2 ^ 55" and "k \<le> 8"
  shows "tx_rung u k =
    (if unat u * 2 ^ (k + 1) \<le> 200000000 \<and> 100000000 \<le> unat u * 2 ^ (k + 1)
     then Some (push_bit (k + 1) u, 1, of_nat k) else None)"
  unfolding tx_rung_def Let_def in_window_unat
  using unat_shift [OF assms(1), of "k + 1"] assms(2) by auto

text \<open>The transmit ladder takes the smallest shift: of the two clocks that fit a rate on the
  boundary of the window it chooses the lower one. Without a shift the division stage is
  left out.\<close>

definition tx_choice :: "nat \<Rightarrow> nat \<Rightarrow> bool" where
  "tx_choice n s \<longleftrightarrow> s \<le> 9 \<and> 100000000 \<le> n * 2 ^ s \<and> n * 2 ^ s \<le> 200000000 \<and>
     (n * 2 ^ s = 200000000 \<longrightarrow> s \<le> 1) \<and> (n * 2 ^ s = 100000000 \<longrightarrow> 1 \<le> s)"

lemma tx_ladder_choice:
  assumes "unat u < 2 ^ 55" and "tx_choice (unat u) s"
  shows "tx_ladder u = Some (push_bit s u, if 1 \<le> s then 1 else 0, of_nat (s - 1))"
proof -
  define n where "n = unat u"
  have s9: "s \<le> 9"
    and lo: "100000000 < n * 2 ^ s \<or> n * 2 ^ s = 100000000 \<and> 1 \<le> s"
    and hi: "n * 2 ^ s < 200000000 \<or> n * 2 ^ s = 200000000 \<and> s \<le> 1"
    using assms(2) by (auto simp: tx_choice_def n_def)
  note simps = tx_ladder_def upt_9 tx_rung_unat [OF assms(1)] n_def [symmetric] in_window_unat
  show ?thesis
  proof (cases "n * 2 ^ s = 200000000")
    case True
    with hi consider "s = 0" "n = 200000000" | "s = 1" "n = 100000000"
      by (cases s) auto
    then show ?thesis by cases (simp_all add: simps)
  next
    case False
    with hi have hi': "n * 2 ^ s < 200000000" by simp
    from lo have lo': "100000000 \<le> n * 2 ^ s" "s = 0 \<longrightarrow> 100000000 < n" by auto
    from s9 lo' hi' show ?thesis
      by (cases rule: nat_le_9_cases) (simp_all add: simps, simp add: push_bit_eq_mult)
  qed
qed

lemma tx_ladder_none:
  assumes "unat u < 195313 \<or> 200000000 < unat u" and "unat u < 2 ^ 55"
  shows "tx_ladder u = None"
proof -
  define n where "n = unat u"
  note simps = tx_ladder_def upt_9 tx_rung_unat [OF assms(2)] in_window_unat n_def [symmetric]
  from assms(1) consider "n < 195313" | "200000000 < n"
    by (auto simp: n_def)
  then show ?thesis
    by cases (simp_all add: simps)
qed

lemma tx_choice_exists:
  assumes "195313 \<le> n" and "n \<le> 200000000"
  shows "\<exists>s. tx_choice n s"
proof -
  obtain s where s: "s \<le> 9" "100000000 < n * 2 ^ s" "n * 2 ^ s \<le> 200000000"
    using shift_exists [OF assms] by blast
  show ?thesis
  proof (cases "n * 2 ^ s = 200000000 \<and> 2 \<le> s")
    case False
    with s show ?thesis by (intro exI [of _ s]) (auto simp: tx_choice_def)
  next
    case True
    then obtain r where r: "s = Suc r" by (cases s) auto
    with True have "n * 2 ^ r = 100000000" "1 \<le> r" by auto
    with s(1) r show ?thesis by (intro exI [of _ r]) (auto simp: tx_choice_def)
  qed
qed

section \<open>What the ladders return, without any bound on the rate\<close>

lemma first_some_in: "first_some f xs = Some y \<Longrightarrow> \<exists>x \<in> set xs. f x = Some y"
  by (induction xs) (auto split: option.splits)

lemma rx_rung_shape:
  assumes "rx_rung u pass k = Some (f, d, m)"
  shows "m = of_nat k" "in_window RFNM_LA9310_DCS_MAX_HZ f"
    "d = 1 \<and> 3 \<le> k \<and> f = push_bit (k + 1) u \<or> d = 0 \<and> k \<le> 3 \<and> f = push_bit k u"
  using assms by (auto simp: rx_rung_def Let_def in_window_def split: if_splits)

lemma small_k_cases: "k < 9 \<Longrightarrow> unat (of_nat k :: u8) = k"
  by (simp add: unat_of_nat take_bit_nat_eq_self)

lemma rx_ladder_shape:
  assumes "rx_ladder u = Some (f, d, m)"
  shows "in_window RFNM_LA9310_DCS_MAX_HZ f" "unat d \<le> 1" "unat m \<le> 8"
    "f = push_bit (unat d + unat m) u" "d = 1 \<longrightarrow> 3 \<le> unat m" "d = 0 \<longrightarrow> unat m \<le> 3"
proof -
  obtain pass where "first_some (rx_rung u pass) (rev [0..<9]) = Some (f, d, m)"
    using first_some_in [OF assms [unfolded rx_ladder_def]] by blast
  then obtain k where k: "k < 9" and r: "rx_rung u pass k = Some (f, d, m)"
    using first_some_in [of "rx_rung u pass" "rev [0..<9]"] by fastforce
  note sh = rx_rung_shape [OF r] small_k_cases [OF k]
  show "in_window RFNM_LA9310_DCS_MAX_HZ f" by (rule sh(2))
  show "unat m \<le> 8" using sh k by simp
  show "unat d \<le> 1" "f = push_bit (unat d + unat m) u" "d = 1 \<longrightarrow> 3 \<le> unat m"
    "d = 0 \<longrightarrow> unat m \<le> 3"
    using sh by auto
qed

lemma tx_ladder_shape:
  assumes "tx_ladder u = Some (f, d, m)"
  shows "in_window RFNM_LA9310_DCS_MAX_HZ f" "unat d \<le> 1" "unat m \<le> 8"
    "f = push_bit (unat d + unat m) u"
proof -
  have "\<exists>k < 9. tx_rung u k = Some (f, d, m)" if "first_some (tx_rung u) [0..<9] = Some (f, d, m)"
    using first_some_in [OF that] by auto
  then have "(\<exists>k < 9. in_window RFNM_LA9310_DCS_MAX_HZ f \<and> f = push_bit (k + 1) u \<and> d = 1 \<and> m = of_nat k) \<or>
      in_window RFNM_LA9310_DCS_MAX_HZ f \<and> f = u \<and> d = 0 \<and> m = 0"
    using assms by (auto simp: tx_ladder_def tx_rung_def Let_def split: option.splits if_splits)
  then show "in_window RFNM_LA9310_DCS_MAX_HZ f" "unat d \<le> 1" "unat m \<le> 8"
    "f = push_bit (unat d + unat m) u"
    by (auto simp: small_k_cases)
qed

definition plan_consistent :: "u64 \<Rightarrow> u8 \<Rightarrow> rx_lanes \<Rightarrow> rfnm_la9310_dcs_plan \<Rightarrow> bool" where
  "plan_consistent u tx rx p \<longleftrightarrow>
     RFNM_LA9310_DCS_MIN_HZ \<le> dcs_freq p \<and> dcs_freq p \<le> RFNM_LA9310_DCS_MAX_HZ \<and>
     unat (rx_dcs p) \<le> 1 \<and> unat (tx_dcs p) \<le> 1 \<and>
     unat (rx_decimation p) \<le> 8 \<and> unat (tx_upsampling p) \<le> 8 \<and>
     caps p AND RFNM_VSPA_CAP_STREAMING_BASE = RFNM_VSPA_CAP_STREAMING_BASE \<and>
     (if tx = 0 then tx_dcs p = 0 \<and> tx_upsampling p = 0
      else dcs_freq p = push_bit (unat (tx_dcs p) + unat (tx_upsampling p)) u) \<and>
     (if tx \<noteq> 0 \<and> \<not> any_rx rx then rx_dcs p = 0 \<and> rx_decimation p = 0
      else dcs_freq p = push_bit (unat (rx_dcs p) + unat (rx_decimation p)) u)"

lemma concurrent_plan_cases:
  assumes "tx \<noteq> 0" and "any_rx rx" and "rfnm_la9310_plan s u tx rx = Inr p"
  shows "(\<exists>k \<in> {0, 1}. in_window RFNM_LA9310_DCS_MAX_HZ (u * 2 ^ (k + 1)) \<and>
     p = \<lparr>dcs_freq = u * 2 ^ (k + 1), rx_dcs = 1, rx_decimation = of_nat k, tx_dcs = 1,
         tx_upsampling = of_nat k, caps = if k = 0 then 1 else 5\<rparr>)"
proof (cases "rfnm_vspa_registry_has RFNM_VSPA_CAP_FDX_CONCURRENT s \<and>
            (u * 4 = 100000000 \<or> u * 4 = 122880000)")
  case True
  then have "in_window RFNM_LA9310_DCS_MAX_HZ (u * 4)"
    by (auto simp: in_window_def)
  with True assms show ?thesis
    by (simp add: rfnm_la9310_plan_def)
next
  case False
  with assms have "\<not> (u * 2 < RFNM_LA9310_DCS_MIN_HZ \<or> u * 2 > RFNM_LA9310_DCS_MAX_HZ)"
    by (auto simp: rfnm_la9310_plan_def simp del: not_less)
  with False assms show ?thesis
    by (auto simp: rfnm_la9310_plan_def in_window_def not_less split: if_splits)
qed

lemma plan_shape:
  "case rfnm_la9310_plan s u tx rx of
     Inl e \<Rightarrow> e = - EINVAL
   | Inr p \<Rightarrow> plan_consistent u tx rx p"
proof (cases "tx = 0")
  case True
  then show ?thesis
    by (auto simp: rfnm_la9310_plan_def plan_consistent_def in_window_def
          dest: rx_ladder_shape split: option.splits)
next
  case False
  show ?thesis
  proof (cases "any_rx rx")
    case True
    show ?thesis
    proof (cases "rfnm_la9310_plan s u tx rx")
      case (Inl e)
      with True False show ?thesis
        by (simp add: rfnm_la9310_plan_def split: if_splits)
    next
      case (Inr p)
      from concurrent_plan_cases [OF False True Inr] Inr True False show ?thesis
        by (auto simp: plan_consistent_def in_window_def push_bit_eq_mult)
    qed
  next
    case no_rx: False
    with False show ?thesis
      by (auto simp: rfnm_la9310_plan_def plan_consistent_def in_window_def
            dest: tx_ladder_shape split: option.splits)
  qed
qed


lemma plan_rx_eq:
  "rfnm_la9310_plan s u 0 rx =
     (case rx_ladder u of
        None \<Rightarrow> Inl (- EINVAL)
      | Some (f, d, k) \<Rightarrow> Inr \<lparr>dcs_freq = f, rx_dcs = d, rx_decimation = k, tx_dcs = 0,
                            tx_upsampling = 0, caps = RFNM_VSPA_CAP_STREAMING_BASE\<rparr>)"
  by (simp add: rfnm_la9310_plan_def)

section \<open>Which rates have a plan\<close>

text \<open>
  C15: for a rate below \<open>2 ^ 55\<close>, receive-only planning succeeds exactly for the rates
  from 195313 to 200000000, and the shift it chooses is determined by the rate: the one
  that brings the clock into the upper part of the window, with 200 MHz preferred to 100 MHz
  as long as the shift is at most 6 and 100 MHz preferred beyond; shifts of four and more
  use the divider in front of the cascade.
\<close>

lemma plan_rx_exact:
  assumes "unat u < 2 ^ 55"
  shows "case rfnm_la9310_plan s u 0 rx of
     Inl e \<Rightarrow> unat u < 195313 \<or> 200000000 < unat u
   | Inr p \<Rightarrow> 195313 \<le> unat u \<and> unat u \<le> 200000000 \<and>
       (\<exists>sh. rx_choice (unat u) sh \<and> unat (dcs_freq p) = unat u * 2 ^ sh \<and>
          rx_dcs p = (if 4 \<le> sh then 1 else 0) \<and>
          unat (rx_decimation p) = (if 4 \<le> sh then sh - 1 else sh))"
proof (cases "unat u < 195313 \<or> 200000000 < unat u")
  case True
  from rx_ladder_none [OF this assms] True show ?thesis
    by (simp add: rfnm_la9310_plan_def)
next
  case False
  then obtain sh where sh: "rx_choice (unat u) sh"
    using rx_choice_exists [of "unat u"] by auto
  then have sh9: "sh \<le> 9"
    by (simp add: rx_choice_def)
  define m where "m = (if 4 \<le> sh then sh - 1 else sh)"
  have "unat (of_nat m :: u8) = m" and "m = (if 4 \<le> sh then sh - 1 else sh)"
    using sh9 by (simp_all add: m_def unat_of_nat take_bit_nat_eq_self)
  with rx_ladder_choice [OF assms sh, folded m_def] False sh unat_shift [OF assms sh9] show ?thesis
    by (auto simp: rfnm_la9310_plan_def intro!: exI [of _ sh])
qed

lemma plan_rx_exact_witness:
  "case rfnm_la9310_plan (sample_reg False []) 30720000 0 \<lparr>rx0 = 1, rx1 = 0, rx2 = 0, rx3 = 0\<rparr> of
     Inl e \<Rightarrow> False
   | Inr p \<Rightarrow> (\<exists>sh. rx_choice 30720000 sh \<and> unat (dcs_freq p) = 30720000 * 2 ^ sh)"
  using plan_rx_exact [of "30720000" "sample_reg False []" "\<lparr>rx0 = 1, rx1 = 0, rx2 = 0, rx3 = 0\<rparr>"]
  by (auto split: sum.splits)

definition planned :: "int + rfnm_la9310_dcs_plan \<Rightarrow> bool" where
  "planned r = (case r of Inl e \<Rightarrow> False | Inr p \<Rightarrow> True)"

lemma planned_rx:
  "unat u < 2 ^ 55 \<Longrightarrow> planned (rfnm_la9310_plan s u 0 rx) \<longleftrightarrow> 195313 \<le> unat u \<and> unat u \<le> 200000000"
  using rx_ladder_none [of u] rx_choice_exists [of "unat u"] rx_ladder_choice [of u]
  by (cases "unat u < 195313 \<or> 200000000 < unat u") (auto simp: rfnm_la9310_plan_def planned_def)

lemma planned_tx:
  assumes "unat u < 2 ^ 55" and "tx \<noteq> 0" and "\<not> any_rx rx"
  shows "planned (rfnm_la9310_plan s u tx rx) \<longleftrightarrow> 195313 \<le> unat u \<and> unat u \<le> 200000000"
  using assms tx_ladder_none [of u] tx_choice_exists [of "unat u"] tx_ladder_choice [of u]
  by (cases "unat u < 195313 \<or> 200000000 < unat u") (auto simp: rfnm_la9310_plan_def planned_def)

lemma planned_both:
  assumes "unat u < 2 ^ 55" and "tx \<noteq> 0" and "any_rx rx"
  shows "planned (rfnm_la9310_plan s u tx rx) \<longleftrightarrow>
     50000000 \<le> unat u \<and> unat u \<le> 100000000 \<or>
     rfnm_vspa_registry_has RFNM_VSPA_CAP_FDX_CONCURRENT s \<and> (u = 25000000 \<or> u = 30720000)"
proof -
  have two: "unat (u * 2) = unat u * 2" and four: "unat (u * 4) = unat u * 4"
    using unat_shift [OF assms(1), of 1] unat_shift [OF assms(1), of 2]
    by (simp_all add: push_bit_eq_mult)
  have "u * 4 = 100000000 \<longleftrightarrow> u = 25000000" "u * 4 = 122880000 \<longleftrightarrow> u = 30720000"
    using four by (auto simp: word_unat_eq_iff)
  moreover have "u * 2 < RFNM_LA9310_DCS_MIN_HZ \<longleftrightarrow> unat u < 50000000"
    "u * 2 > RFNM_LA9310_DCS_MAX_HZ \<longleftrightarrow> 100000000 < unat u"
    using two by (auto simp: word_less_nat_alt)
  ultimately show ?thesis
    using assms(2,3) by (auto simp: rfnm_la9310_plan_def planned_def)
qed

text \<open>
  The check made when a client sets a rate screens the right set: for a rate below
  \<open>2 ^ 55\<close> there is a receive-only plan exactly when there is a transmit-only plan. Streaming
  in both directions has fewer rates: those whose double is in the window and, with a
  registered image that can, the two whose fourfold is one of the two approved clocks.
\<close>

lemma plan_modes:
  assumes "unat u < 2 ^ 55" and "tx \<noteq> 0" and "any_rx both" and "\<not> any_rx none"
  shows "(planned (rfnm_la9310_plan s u 0 both) \<longleftrightarrow> planned (rfnm_la9310_plan s u tx none)) \<and>
    (planned (rfnm_la9310_plan s u tx both) \<longleftrightarrow>
      50000000 \<le> unat u \<and> unat u \<le> 100000000 \<or>
      rfnm_vspa_registry_has RFNM_VSPA_CAP_FDX_CONCURRENT s \<and> (u = 25000000 \<or> u = 30720000))"
  using assms by (simp_all add: planned_rx planned_tx planned_both)

lemma plan_modes_witness:
  "planned (rfnm_la9310_plan (s :: reg_world) 61440000 1 \<lparr>rx0 = 1, rx1 = 0, rx2 = 0, rx3 = 0\<rparr>)"
  using plan_modes [of "61440000" 1 "\<lparr>rx0 = 1, rx1 = 0, rx2 = 0, rx3 = 0\<rparr>"
      "\<lparr>rx0 = 0, rx1 = 0, rx2 = 0, rx3 = 0\<rparr>" s]
  by (simp add: any_rx_def)

text \<open>
  Halving the rate does not keep one clock all the way down. From 200 MHz to 3.125 MHz
  every rate of the family is served at 200 MHz; the next three halvings are served at
  100 MHz, so that zooming past 3.125 MHz changes the clock, which is a hard reset.
\<close>

lemma zoom_family_clock:
  "map (\<lambda>u. map_sum id dcs_freq (rfnm_la9310_plan s u 0 rx))
     [200000000, 100000000, 50000000, 25000000, 12500000, 6250000, 3125000, 1562500, 781250, 390625] =
   replicate 7 (Inr 200000000) @ replicate 3 (Inr 100000000)"
proof -
  define clock where "clock u = map_sum id dcs_freq (rfnm_la9310_plan s u 0 rx)" for u
  have *: "clock u = Inr f" if "rx_ladder u = Some (f, d, k)" for u f d k
    using that by (simp add: clock_def plan_rx_eq)
  have c0: "clock 200000000 = Inr 200000000"
    using * [OF rx_ladder_choice [of 200000000 0]] by (simp add: rx_choice_def push_bit_eq_mult)
  have c1: "clock 100000000 = Inr 200000000"
    using * [OF rx_ladder_choice [of 100000000 1]] by (simp add: rx_choice_def push_bit_eq_mult)
  have c2: "clock 50000000 = Inr 200000000"
    using * [OF rx_ladder_choice [of 50000000 2]] by (simp add: rx_choice_def push_bit_eq_mult)
  have c3: "clock 25000000 = Inr 200000000"
    using * [OF rx_ladder_choice [of 25000000 3]] by (simp add: rx_choice_def push_bit_eq_mult)
  have c4: "clock 12500000 = Inr 200000000"
    using * [OF rx_ladder_choice [of 12500000 4]] by (simp add: rx_choice_def push_bit_eq_mult)
  have c5: "clock 6250000 = Inr 200000000"
    using * [OF rx_ladder_choice [of 6250000 5]] by (simp add: rx_choice_def push_bit_eq_mult)
  have c6: "clock 3125000 = Inr 200000000"
    using * [OF rx_ladder_choice [of 3125000 6]] by (simp add: rx_choice_def push_bit_eq_mult)
  have c7: "clock 1562500 = Inr 100000000"
    using * [OF rx_ladder_choice [of 1562500 6]] by (simp add: rx_choice_def push_bit_eq_mult)
  have c8: "clock 781250 = Inr 100000000"
    using * [OF rx_ladder_choice [of 781250 7]] by (simp add: rx_choice_def push_bit_eq_mult)
  have c9: "clock 390625 = Inr 100000000"
    using * [OF rx_ladder_choice [of 390625 8]] by (simp add: rx_choice_def push_bit_eq_mult)
  show ?thesis
    unfolding clock_def [symmetric]
    by (simp only: list.map c0 c1 c2 c3 c4 c5 c6 c7 c8 c9) (simp add: eval_nat_numeral)
qed

lemma two_64_zero: "(2 :: u64) ^ 64 = 0"
  by (subst exp_eq_zero_iff) simp

lemma push_bit_alias: "push_bit (Suc k) (u + 2 ^ 63) = push_bit (Suc k) (u :: u64)"
proof -
  have "(2 :: u64) ^ 63 * 2 ^ Suc k = 2 ^ 64 * 2 ^ k"
    by (simp only: power_add [symmetric]) simp
  also have "\<dots> = 0"
    by (simp only: two_64_zero mult_zero_left)
  finally show ?thesis
    by (simp only: push_bit_eq_mult distrib_right add_0_right)
qed

lemma rx_rung_cong:
  assumes "\<And>j. push_bit (Suc j) v = push_bit (Suc j) u"
    and "\<And>hi. \<not> in_window hi u" and "\<not> in_window RFNM_LA9310_DCS_MAX_HZ v"
  shows "rx_rung v pass k = rx_rung u pass k"
proof (cases k)
  case 0
  have "\<not> 3 \<le> (0 :: nat)" and zero: "push_bit 0 w = w" for w :: u64
    by simp_all
  with assms(2,3) 0 show ?thesis
    by (simp only: rx_rung_def Let_def zero if_False simp_thms)
next
  case (Suc j)
  show ?thesis
    by (simp only: rx_rung_def Let_def Suc add_Suc_right add_Suc assms(1))
qed

lemma rx_ladder_alias:
  assumes "unat u < 100000000"
  shows "rx_ladder (u + 2 ^ 63) = rx_ladder u"
proof -
  have "unat (u + 2 ^ 63) = unat u + 2 ^ 63"
    using assms by (simp add: unat_word_ariths)
  then have "rx_rung (u + 2 ^ 63) pass k = rx_rung u pass k" for pass k
    using assms by (intro rx_rung_cong push_bit_alias) (simp_all only: in_window_unat, simp_all)
  then have "rx_rung (u + 2 ^ 63) = rx_rung u"
    by (intro ext)
  then show ?thesis
    by (simp only: rx_ladder_def)
qed

text \<open>
  The shifts lose the upper bits of the rate, so the check made when a rate is set does
  not see them: a rate just above \<open>2 ^ 63\<close> Hz is accepted whenever the rate below 100 MHz
  with the same lower bits is.
\<close>

lemma samp_rate_alias:
  assumes "unat u < 100000000"
  shows "rfnm_la9310_samp_rate_ok supported s (u + 2 ^ 63) = rfnm_la9310_samp_rate_ok supported s u"
  by (simp only: rfnm_la9310_samp_rate_ok_def plan_rx_eq rx_ladder_alias [OF assms])

lemma samp_rate_alias_witness:
  "rfnm_la9310_samp_rate_ok (\<lambda>f. f = 122880000) (s :: reg_world) (30720000 + 2 ^ 63)"
proof -
  have "rx_ladder 30720000 = Some (push_bit 2 30720000, 0, 2)"
    using rx_ladder_choice [of 30720000 2] by (simp add: rx_choice_def)
  then have "rfnm_la9310_samp_rate_ok (\<lambda>f. f = 122880000) s 30720000"
    by (simp add: rfnm_la9310_samp_rate_ok_def plan_rx_eq push_bit_eq_mult)
  moreover have "unat (30720000 :: u64) < 100000000"
    by simp
  ultimately show ?thesis
    by (simp only: samp_rate_alias)
qed

section \<open>The configuration word\<close>

lemma and_masks:
  fixes w :: "('a :: len) word"
  shows "w AND 1 = take_bit 1 w" and "w AND 3 = take_bit 2 w" and "w AND 15 = take_bit 4 w"
  by (simp_all add: take_bit_eq_mask mask_eq_exp_minus_1)

lemma unat_le_mask:
  fixes w :: u8
  shows "unat w \<le> 1 \<Longrightarrow> take_bit 1 w = w" and "unat w \<le> 8 \<Longrightarrow> take_bit 4 w = w"
  by (simp_all only: word_unat_eq_iff unsigned_take_bit_eq take_bit_nat_eq_self_iff) simp_all

lemma bit_field1:
  fixes w :: u8
  assumes "m < 32"
  shows "bit (push_bit m (ucast (w AND 1)) :: u32) i \<longleftrightarrow> i = m \<and> bit w 0"
proof -
  have "m \<le> i \<Longrightarrow> i - m < 1 \<longleftrightarrow> i = m" by linarith
  with assms show ?thesis
    unfolding and_masks bit_push_bit_iff bit_unsigned_iff bit_take_bit_iff by auto
qed

lemma bit_field2:
  fixes w :: u8
  assumes "m < 31"
  shows "bit (push_bit m (ucast (w AND 3)) :: u32) i \<longleftrightarrow> i = m \<and> bit w 0 \<or> i = Suc m \<and> bit w 1"
proof -
  have "m \<le> i \<Longrightarrow> i - m < 2 \<longleftrightarrow> i = m \<or> i = Suc m" by linarith
  with assms show ?thesis
    unfolding and_masks bit_push_bit_iff bit_unsigned_iff bit_take_bit_iff by auto
qed

lemma bit_config_word:
  "bit (stream_config_word tx rx p) i \<longleftrightarrow>
     i = 0 \<and> bit tx 0 \<or> i = 1 \<and> bit (rx0 rx) 0 \<or> i = 2 \<and> bit (rx1 rx) 0 \<or>
     i = 3 \<and> bit (rx2 rx) 0 \<or> i = 4 \<and> bit (rx3 rx) 0 \<or>
     i = 5 \<and> bit (rx_decimation p) 0 \<or> i = 6 \<and> bit (rx_decimation p) 1 \<or>
     i = 7 \<and> bit (tx_upsampling p) 0 \<or> i = 8 \<and> bit (tx_upsampling p) 1 \<or>
     i = 9 \<and> bit (rx_dcs p) 0 \<or> i = 10 \<and> bit (tx_dcs p) 0 \<or>
     i = 11 \<and> bit (rx_decimation p) 2 \<or> i = 12 \<and> bit (rx_decimation p) 3 \<or>
     i = 13 \<and> bit (tx_upsampling p) 2 \<or> i = 14 \<and> bit (tx_upsampling p) 3"
proof -
  have tx: "bit (ucast (tx AND 1) :: u32) i \<longleftrightarrow> i = 0 \<and> bit tx 0"
    using bit_field1 [of 0 tx i] by simp
  show ?thesis
    unfolding stream_config_word_def
    by (simp only: bit_or_iff tx bit_field1 bit_field2 bit_drop_bit_eq o_def) (simp add: disj_ac)
qed

lemma nibble_eqI:
  fixes v w :: u8
  assumes "\<And>i. i < 4 \<Longrightarrow> bit v i \<longleftrightarrow> bit w i" and "\<And>i. 4 \<le> i \<Longrightarrow> \<not> bit v i"
  shows "v = take_bit 4 w"
  by (rule bit_word_eqI) (metis assms bit_take_bit_iff not_le)

lemma four_cases: "i < (4 :: nat) \<longleftrightarrow> i = 0 \<or> i = 1 \<or> i = 2 \<or> i = 3"
  by presburger

text \<open>The two places a depth is stored in are put together again.\<close>

lemma bit_split_field:
  fixes t :: u32
  assumes "m < 20" and "n < 20"
  shows "bit (ucast ((drop_bit m t AND 3) OR push_bit 2 (drop_bit n t AND 3)) :: u8) i \<longleftrightarrow>
    i = 0 \<and> bit t m \<or> i = 1 \<and> bit t (m + 1) \<or> i = 2 \<and> bit t n \<or> i = 3 \<and> bit t (n + 1)"
proof -
  have "i < 2 \<longleftrightarrow> i = 0 \<or> i = 1" "2 \<le> i \<Longrightarrow> i - 2 < 2 \<longleftrightarrow> i = 2 \<or> i = 3"
    by linarith+
  then show ?thesis
    unfolding and_masks bit_unsigned_iff bit_or_iff bit_push_bit_iff bit_take_bit_iff
      bit_drop_bit_eq o_def
    by auto
qed

lemma bit_single_field:
  fixes t :: u32
  shows "bit (ucast (drop_bit m t AND 1) :: u8) i \<longleftrightarrow> i = 0 \<and> bit t m"
  unfolding and_masks bit_unsigned_iff bit_take_bit_iff bit_drop_bit_eq o_def by auto

lemma config_word_fields:
  "rfnm_la9310_get_clock_state (stream_config_word tx rx p) =
     \<lparr>rx_dcs_div = take_bit 1 (rx_dcs p), tx_dcs_div = take_bit 1 (tx_dcs p),
      rx_decim_log2 = take_bit 4 (rx_decimation p), tx_interp_log2 = take_bit 4 (tx_upsampling p)\<rparr>"
proof -
  let ?t = "stream_config_word tx rx p"
  have f0: "ucast (drop_bit 9 ?t AND 1) = take_bit 1 (rx_dcs p)"
    by (rule bit_word_eqI) (auto simp: bit_single_field bit_config_word bit_take_bit_iff bit_0)
  have f1: "ucast (drop_bit 10 ?t AND 1) = take_bit 1 (tx_dcs p)"
    by (rule bit_word_eqI) (auto simp: bit_single_field bit_config_word bit_take_bit_iff bit_0)
  have s2: "bit (ucast ((drop_bit 5 ?t AND 3) OR push_bit 2 (drop_bit 11 ?t AND 3)) :: u8) i \<longleftrightarrow>
      i = 0 \<and> bit ?t 5 \<or> i = 1 \<and> bit ?t (5 + 1) \<or> i = 2 \<and> bit ?t 11 \<or> i = 3 \<and> bit ?t (11 + 1)" for i
    by (rule bit_split_field) simp_all
  have s3: "bit (ucast ((drop_bit 7 ?t AND 3) OR push_bit 2 (drop_bit 13 ?t AND 3)) :: u8) i \<longleftrightarrow>
      i = 0 \<and> bit ?t 7 \<or> i = 1 \<and> bit ?t (7 + 1) \<or> i = 2 \<and> bit ?t 13 \<or> i = 3 \<and> bit ?t (13 + 1)" for i
    by (rule bit_split_field) simp_all
  have f2: "ucast ((drop_bit 5 ?t AND 3) OR push_bit 2 (drop_bit 11 ?t AND 3)) = take_bit 4 (rx_decimation p)"
    by (rule nibble_eqI; simp only: s2 bit_config_word four_cases; auto)
  have f3: "ucast ((drop_bit 7 ?t AND 3) OR push_bit 2 (drop_bit 13 ?t AND 3)) = take_bit 4 (tx_upsampling p)"
    by (rule nibble_eqI; simp only: s3 bit_config_word four_cases; auto)
  show ?thesis
    by (simp only: rfnm_la9310_get_clock_state_def f0 f1 f2 f3)
qed

lemma config_word_on:
  "stream_config_word tx rx p AND 1 = ucast (tx AND 1)"
  "drop_bit 1 (stream_config_word tx rx p) AND 15 = 0 \<longleftrightarrow>
     \<not> (bit (rx0 rx) 0 \<or> bit (rx1 rx) 0 \<or> bit (rx2 rx) 0 \<or> bit (rx3 rx) 0)"
  "15 \<le> i \<Longrightarrow> \<not> bit (stream_config_word tx rx p) i"
proof -
  show "stream_config_word tx rx p AND 1 = ucast (tx AND 1)"
    unfolding and_masks
    by (rule bit_word_eqI; simp only: bit_take_bit_iff bit_config_word bit_unsigned_iff; auto)
  have "drop_bit 1 (stream_config_word tx rx p) AND 15 = 0 \<longleftrightarrow>
      (\<forall>i<4. \<not> bit (stream_config_word tx rx p) (i + 1))"
    by (auto simp: and_masks bit_eq_iff bit_take_bit_iff bit_drop_bit_eq)
  also have "\<dots> \<longleftrightarrow> \<not> (bit (rx0 rx) 0 \<or> bit (rx1 rx) 0 \<or> bit (rx2 rx) 0 \<or> bit (rx3 rx) 0)"
    by (auto simp: four_cases bit_config_word)
  finally show "drop_bit 1 (stream_config_word tx rx p) AND 15 = 0 \<longleftrightarrow>
     \<not> (bit (rx0 rx) 0 \<or> bit (rx1 rx) 0 \<or> bit (rx2 rx) 0 \<or> bit (rx3 rx) 0)" .
  show "15 \<le> i \<Longrightarrow> \<not> bit (stream_config_word tx rx p) i"
    by (auto simp: bit_config_word)
qed

lemma config_word_decodes:
  assumes "rfnm_la9310_plan s u tx rx = Inr p"
  shows "rfnm_la9310_get_clock_state (stream_config_word tx rx p) =
      \<lparr>rx_dcs_div = rx_dcs p, tx_dcs_div = tx_dcs p,
       rx_decim_log2 = rx_decimation p, tx_interp_log2 = tx_upsampling p\<rparr>"
proof -
  have "plan_consistent u tx rx p"
    using plan_shape [of u tx rx s] assms by simp
  then have m: "take_bit 1 (rx_dcs p) = rx_dcs p" "take_bit 1 (tx_dcs p) = tx_dcs p"
    "take_bit 4 (rx_decimation p) = rx_decimation p" "take_bit 4 (tx_upsampling p) = tx_upsampling p"
    by (simp_all only: plan_consistent_def unat_le_mask)
  show ?thesis
    unfolding config_word_fields m by (rule refl)
qed

text \<open>
  C16: the configuration word carries a plan without loss. What the clock report decodes from
  the word of a plan are the plan's own divisions, so the clock divided by them is the rate
  the client asked for, although the depths are stored in two separate places of the word.
\<close>

lemma config_word_roundtrip:
  assumes "rfnm_la9310_plan s u tx rx = Inr p"
  shows "rfnm_la9310_get_clock_state (stream_config_word tx rx p) =
      \<lparr>rx_dcs_div = rx_dcs p, tx_dcs_div = tx_dcs p,
       rx_decim_log2 = rx_decimation p, tx_interp_log2 = tx_upsampling p\<rparr> \<and>
    (tx = 0 \<or> any_rx rx \<longrightarrow> dcs_freq p = push_bit (unat (rx_dcs p) + unat (rx_decimation p)) u) \<and>
    (tx \<noteq> 0 \<longrightarrow> dcs_freq p = push_bit (unat (tx_dcs p) + unat (tx_upsampling p)) u)"
proof -
  have "plan_consistent u tx rx p"
    using plan_shape [of u tx rx s] assms by simp
  with config_word_decodes [OF assms] show ?thesis
    by (auto simp: plan_consistent_def split: if_splits)
qed

lemma config_word_roundtrip_witness:
  "\<exists>p. rfnm_la9310_plan (sample_reg False []) 240000 0 \<lparr>rx0 = 1, rx1 = 0, rx2 = 0, rx3 = 0\<rparr> = Inr p \<and>
     rfnm_la9310_get_clock_state
       (stream_config_word 0 \<lparr>rx0 = 1, rx1 = 0, rx2 = 0, rx3 = 0\<rparr> p) =
       \<lparr>rx_dcs_div = 1, tx_dcs_div = 0, rx_decim_log2 = 8, tx_interp_log2 = 0\<rparr>"
proof -
  have "rx_ladder 240000 = Some (122880000, 1, 8)"
    using rx_ladder_choice [of 240000 9] by (simp add: rx_choice_def push_bit_eq_mult)
  then have "rfnm_la9310_plan (sample_reg False []) 240000 0 \<lparr>rx0 = 1, rx1 = 0, rx2 = 0, rx3 = 0\<rparr> =
     Inr \<lparr>dcs_freq = 122880000, rx_dcs = 1, rx_decimation = 8, tx_dcs = 0, tx_upsampling = 0, caps = 1\<rparr>"
    by (simp add: plan_rx_eq)
  from this config_word_roundtrip [OF this] show ?thesis
    by simp
qed

lemma word_zero_iff: "w = 0 \<longleftrightarrow> (\<forall>i. \<not> bit w i)" for w :: "('a :: len) word"
  by (auto intro: bit_word_eqI)

lemma drop_and_1: "drop_bit m t AND 1 = 0 \<longleftrightarrow> \<not> bit t m" for t :: u32
  by (simp only: word_zero_iff and_masks bit_take_bit_iff bit_drop_bit_eq o_def) auto

lemma split_field_zero:
  fixes t :: u32
  shows "(drop_bit m t AND 3) OR push_bit 2 (drop_bit n t AND 3) = 0 \<longleftrightarrow>
    \<not> bit t m \<and> \<not> bit t (m + 1) \<and> \<not> bit t n \<and> \<not> bit t (n + 1)"
proof -
  have b: "bit ((drop_bit m t AND 3) OR push_bit 2 (drop_bit n t AND 3)) i \<longleftrightarrow>
      i = 0 \<and> bit t m \<or> i = 1 \<and> bit t (m + 1) \<or> i = 2 \<and> bit t n \<or> i = 3 \<and> bit t (n + 1)" for i
  proof -
    have "i < 2 \<longleftrightarrow> i = 0 \<or> i = 1" "2 \<le> i \<Longrightarrow> i - 2 < 2 \<longleftrightarrow> i = 2 \<or> i = 3"
      by linarith+
    then show ?thesis
      unfolding and_masks bit_or_iff bit_push_bit_iff bit_take_bit_iff bit_drop_bit_eq o_def
      by auto
  qed
  show ?thesis
    unfolding word_zero_iff b by auto
qed

text \<open>
  The receive calibration's test for the one layout it understands is exact on planned
  words: it holds when a receive lane is on and the converter runs at the rate of the client.
\<close>

lemma native_rx_exact:
  assumes "rfnm_la9310_plan s u tx rx = Inr p" and "unat u < 2 ^ 55"
    and "rx0 rx \<le> 1" and "rx1 rx \<le> 1" and "rx2 rx \<le> 1" and "rx3 rx \<le> 1"
  shows "rfnm_stream_is_native_rx (stream_config_word tx rx p) \<longleftrightarrow> any_rx rx \<and> dcs_freq p = u"
proof -
  have pc: "plan_consistent u tx rx p"
    using plan_shape [of u tx rx s] assms(1) by simp
  have lane: "bit r 0 \<longleftrightarrow> r \<noteq> 0" if "r \<le> 1" for r :: u8
  proof -
    from that have "unat r = 0 \<or> unat r = 1"
      by (auto simp: word_le_nat_alt)
    then have "r = 0 \<or> r = 1"
      by (auto simp: word_unat_eq_iff)
    then show ?thesis by auto
  qed
  let ?t = "stream_config_word tx rx p"
  have "rx_dcs p = 0 \<longleftrightarrow> \<not> bit (rx_dcs p) 0"
    using pc lane [of "rx_dcs p"] by (simp add: plan_consistent_def word_le_nat_alt)
  moreover have "rx_decimation p = 0 \<longleftrightarrow> (\<forall>i<4. \<not> bit (rx_decimation p) i)"
  proof -
    have "take_bit 4 (rx_decimation p) = rx_decimation p"
      using pc by (simp only: plan_consistent_def unat_le_mask)
    then show ?thesis
      by (metis word_zero_iff bit_take_bit_iff)
  qed
  moreover have "any_rx rx \<longleftrightarrow> bit (rx0 rx) 0 \<or> bit (rx1 rx) 0 \<or> bit (rx2 rx) 0 \<or> bit (rx3 rx) 0"
    using assms(3-6) by (simp add: any_rx_def lane)
  ultimately have "rfnm_stream_is_native_rx ?t \<longleftrightarrow> any_rx rx \<and> rx_dcs p = 0 \<and> rx_decimation p = 0"
    unfolding rfnm_stream_is_native_rx_def config_word_on drop_and_1 split_field_zero
    by (simp add: bit_config_word four_cases) blast
  moreover have "any_rx rx \<Longrightarrow> dcs_freq p = u \<longleftrightarrow> rx_dcs p = 0 \<and> rx_decimation p = 0"
  proof -
    assume rx: "any_rx rx"
    define n where "n = unat (rx_dcs p) + unat (rx_decimation p)"
    have f: "dcs_freq p = push_bit n u" and n9: "n \<le> 9"
      and lo: "RFNM_LA9310_DCS_MIN_HZ \<le> dcs_freq p"
      using pc rx by (auto simp: plan_consistent_def n_def split: if_splits)
    have v: "unat (dcs_freq p) = unat u * 2 ^ n"
      unfolding f by (rule unat_shift [OF assms(2) n9])
    have "0 < unat (dcs_freq p)"
      using lo by (simp add: word_le_nat_alt)
    with v have "0 < unat u" by simp
    with v have "dcs_freq p = u \<longleftrightarrow> n = 0"
      by (auto simp: word_unat_eq_iff)
    then show "dcs_freq p = u \<longleftrightarrow> rx_dcs p = 0 \<and> rx_decimation p = 0"
      by (auto simp: n_def word_unat_eq_iff)
  qed
  ultimately show ?thesis
    by blast
qed

lemma native_rx_exact_witness:
  "rfnm_stream_is_native_rx (stream_config_word 0 \<lparr>rx0 = 1, rx1 = 0, rx2 = 0, rx3 = 0\<rparr>
     \<lparr>dcs_freq = 122880000, rx_dcs = 0, rx_decimation = 0, tx_dcs = 0, tx_upsampling = 0, caps = 1\<rparr>)"
proof -
  let ?rx = "\<lparr>rx0 = 1, rx1 = 0, rx2 = 0, rx3 = 0\<rparr>"
  have "rx_ladder 122880000 = Some (122880000, 0, 0)"
    using rx_ladder_choice [of 122880000 0] by (simp add: rx_choice_def)
  then have "rfnm_la9310_plan (s :: reg_world) 122880000 0 ?rx =
     Inr \<lparr>dcs_freq = 122880000, rx_dcs = 0, rx_decimation = 0, tx_dcs = 0, tx_upsampling = 0, caps = 1\<rparr>" for s
    by (simp add: plan_rx_eq)
  from native_rx_exact [OF this] show ?thesis
    by (simp add: any_rx_def)
qed

end
