(* ===== verification/Windows.thy ===== *)
theory Windows
  imports Mmio "HOL-Library.Sublist"
begin

text \<open>
  The windowed transmit engine of \<open>la9310rfnm/rfnm_lalib.c\<close>: the producer side of the
  real-time command ring (\<open>rfnm_rtc_*\<close>), whose consumer on the M4 moves the transmit gate,
  and the queue of windows (\<open>rfnm_vwin_*\<close>) that are handed to the VSPA one at a time.

  The ring lies behind the PCIe link, so what the driver reads from it is what the device
  answers; the queue is kernel memory and part of the state. The functions run under the
  locks of the source and are atomic steps. The numbers of the ring's header (its magic, the
  number of its entries, the code of a window command) and of the doorbell are not in the
  repository and are fields of the state. \<open>tx_state\<close> and \<open>tx_r_shift\<close> are what the firmware
  has published in the status block at a moment. \<open>timer\<close> is the delay the high resolution
  timer was started with, \<open>None\<close> when it is not running.
\<close>

definition EPIPE :: int where "EPIPE = 32"

section \<open>State\<close>

record rfnm_vwin =
  w_open :: u32
  w_close :: u32
  src_slot :: u32
  len_slots :: u32

record vwin_stats =
  st_sent :: u32
  st_late :: u32
  st_qfull :: u32
  st_mbox_busy :: u32
  st_no_latch :: u32
  st_rtc_err :: u32

record tx_world = mmio +
  has_ccsr :: bool
  has_rtc :: bool
  has_status :: bool
  tx_state :: "nat \<Rightarrow> u32"
  tx_r_shift :: "nat \<Rightarrow> u32"
  rtc_ring_magic :: u32
  rtc_ring_entries :: u32
  rtc_arm_tx_window :: u32
  rtc_doorbell_bit :: u32
  last_now :: u32
  vwin_go_param :: bool
  vwin_q :: "rfnm_vwin list"
  vwin_prod :: u32
  vwin_cons :: u32
  busy_until :: u32
  busy_valid :: bool
  next_ns :: u64
  timer :: "u64 option"
  vstats :: vwin_stats

abbreviation RFNM_VWIN_QLEN :: u32 where "RFNM_VWIN_QLEN \<equiv> 512"
abbreviation RFNM_VWIN_SETUP_MARGIN_TICKS :: u32 where "RFNM_VWIN_SETUP_MARGIN_TICKS \<equiv> 6144"
abbreviation RFNM_VWIN_CLOSE_MARGIN_TICKS :: u32 where "RFNM_VWIN_CLOSE_MARGIN_TICKS \<equiv> 64"
abbreviation RFNM_VSPA_CONTROL :: waddr where "RFNM_VSPA_CONTROL \<equiv> Ccsr ''VSPA_CONTROL''"
abbreviation RFNM_VSPA_OUT_MSB :: waddr where "RFNM_VSPA_OUT_MSB \<equiv> Ccsr ''VSPA_OUT_MSB''"
abbreviation RFNM_VSPA_OUT_LSB :: waddr where "RFNM_VSPA_OUT_LSB \<equiv> Ccsr ''VSPA_OUT_LSB''"
abbreviation RFNM_VSPA_MBOX_STATUS :: waddr where
  "RFNM_VSPA_MBOX_STATUS \<equiv> Ccsr ''VSPA_MBOX_STATUS''"
abbreviation PHY_C21_SC :: waddr where "PHY_C21_SC \<equiv> Ccsr ''PHY_C21_SC''"
abbreviation PHY_C21_V :: waddr where "PHY_C21_V \<equiv> Ccsr ''PHY_C21_V''"

definition RFNM_VSPA_CONTROL_KEEP :: u32 where
  "RFNM_VSPA_CONTROL_KEEP = NOT (0x000100FF OR 0x00300000)"

definition set_stats :: "(vwin_stats \<Rightarrow> vwin_stats) \<Rightarrow> ('a tx_world_scheme, unit) state" where
  "set_stats f = modify (\<lambda>s. s\<lparr>vstats := f (vstats s)\<rparr>)"

section \<open>The command ring\<close>

definition rfnm_rtc_doorbell :: "('a tx_world_scheme, unit) state" where
  "rfnm_rtc_doorbell = do {
     f \<leftarrow> rfnm_la9310_mmio_fenced;
     if f then ret ()
     else do { v \<leftarrow> gets rtc_doorbell_bit; raw_write (MsgUnitId ''LA9310_IRQ_MUX_MSG_UNIT'') v }
   }"

definition rtc_ready :: "('a tx_world_scheme, bool) state" where
  "rtc_ready = do {
     p \<leftarrow> gets has_rtc;
     if \<not> p then ret False
     else do { f \<leftarrow> rfnm_la9310_mmio_fenced; ret (\<not> f) }
   }"

definition rfnm_rtc_armed :: "('a tx_world_scheme, bool) state" where
  "rfnm_rtc_armed = do {
     ok \<leftarrow> rtc_ready;
     if \<not> ok then ret False
     else do { m \<leftarrow> raw_read (Rtc ''magic''); g \<leftarrow> gets rtc_ring_magic; ret (m = g) }
   }"

definition rfnm_rtc_arm :: "('a tx_world_scheme, int) state" where
  "rfnm_rtc_arm = do {
     ok \<leftarrow> rtc_ready;
     if \<not> ok then ret (- ENODEV)
     else do {
       m \<leftarrow> raw_read (Rtc ''magic'');
       g \<leftarrow> gets rtc_ring_magic;
       if m = g then ret (- EBUSY)
       else do {
         raw_write (Rtc ''prod'') 0;
         raw_write (Rtc ''magic'') g;
         rfnm_rtc_doorbell;
         ret 0
       }
     }
   }"

definition rfnm_rtc_disarm :: "('a tx_world_scheme, int) state" where
  "rfnm_rtc_disarm = do {
     ok \<leftarrow> rtc_ready;
     if \<not> ok then ret (- ENODEV)
     else do { raw_write (Rtc ''magic'') 0; rfnm_rtc_doorbell; ret 0 }
   }"

definition rfnm_rtc_flush :: "('a tx_world_scheme, int) state" where
  "rfnm_rtc_flush = do {
     ok \<leftarrow> rtc_ready;
     if \<not> ok then ret (- ENODEV)
     else do {
       g \<leftarrow> raw_read (Rtc ''gen'');
       raw_write (Rtc ''gen'') (g + 1);
       rfnm_rtc_doorbell;
       ret 0
     }
   }"

definition rfnm_rtc_push :: "u32 \<Rightarrow> u32 \<Rightarrow> u32 \<Rightarrow> ('a tx_world_scheme, int) state" where
  "rfnm_rtc_push tck kind len_ticks = do {
     ok \<leftarrow> rtc_ready;
     if \<not> ok then ret (- ENODEV)
     else do {
       m \<leftarrow> raw_read (Rtc ''magic'');
       g \<leftarrow> gets rtc_ring_magic;
       if m \<noteq> g then ret (- EPIPE)
       else do {
         prod \<leftarrow> raw_read (Rtc ''prod'');
         cns \<leftarrow> raw_read (Rtc ''cons'');
         n \<leftarrow> gets rtc_ring_entries;
         if prod - cns \<ge> n then ret (- ENOSPC)
         else do {
           let e = unat (prod mod n);
           raw_write (RtcEntry e 0) tck;
           raw_write (RtcEntry e 1) kind;
           raw_write (RtcEntry e 2) len_ticks;
           raw_write (RtcEntry e 3) 0;
           raw_write (Rtc ''prod'') (prod + 1);
           ret 0
         }
       }
     }
   }"

section \<open>The queue of windows\<close>

definition rfnm_la9310_phytimer_now :: "('a tx_world_scheme, u32) state" where
  "rfnm_la9310_phytimer_now = do {
     f \<leftarrow> rfnm_la9310_mmio_fenced;
     if f then gets last_now
     else do {
       raw_write PHY_C21_SC 0x20;
       v \<leftarrow> raw_read PHY_C21_V;
       modify (\<lambda>s. s\<lparr>last_now := v\<rparr>);
       gets last_now
     }
   }"

definition rfnm_ticks_to_ns :: "u32 \<Rightarrow> u64" where
  "rfnm_ticks_to_ns ticks = ucast ticks * 3125 div 192"

definition ccsr_ready :: "('a tx_world_scheme, bool) state" where
  "ccsr_ready = do {
     p \<leftarrow> gets has_ccsr;
     if \<not> p then ret False
     else do { f \<leftarrow> rfnm_la9310_mmio_fenced; ret (\<not> f) }
   }"

definition rfnm_la9310_vspa_go :: "('a tx_world_scheme, unit) state" where
  "rfnm_la9310_vspa_go = do {
     ok \<leftarrow> ccsr_ready;
     if \<not> ok then ret ()
     else do {
       c \<leftarrow> raw_read RFNM_VSPA_CONTROL;
       raw_write RFNM_VSPA_CONTROL ((c AND RFNM_VSPA_CONTROL_KEEP) OR 1)
     }
   }"

definition vwin_word :: "rfnm_vwin \<Rightarrow> u32" where
  "vwin_word w = push_bit 16 (src_slot w) OR len_slots w"

text \<open>The loop of the pump: every pass but the last takes a window off the queue, so the
  length of the queue bounds the passes.\<close>

fun vwin_pump_loop :: "nat \<Rightarrow> ('a tx_world_scheme, unit) state" where
  "vwin_pump_loop 0 = ret ()"
| "vwin_pump_loop (Suc n) = do {
     c \<leftarrow> gets vwin_cons;
     p \<leftarrow> gets vwin_prod;
     if c = p then ret ()
     else do {
       w \<leftarrow> gets (\<lambda>s. vwin_q s ! unat (c mod RFNM_VWIN_QLEN));
       ok \<leftarrow> ccsr_ready;
       if \<not> ok then ret ()
       else do {
         now \<leftarrow> rfnm_la9310_phytimer_now;
         bv \<leftarrow> gets busy_valid;
         bu \<leftarrow> gets busy_until;
         if bv \<and> sint (bu - now) > 0
         then modify (\<lambda>s. s\<lparr>next_ns := rfnm_ticks_to_ns (bu - now)\<rparr>)
         else if sint (now - (w_open w - RFNM_VWIN_SETUP_MARGIN_TICKS)) > 0
         then do {
           set_stats (\<lambda>v. v\<lparr>st_late := st_late v + 1\<rparr>);
           modify (\<lambda>s. s\<lparr>vwin_cons := vwin_cons s + 1\<rparr>);
           vwin_pump_loop n
         }
         else do {
           b \<leftarrow> raw_read RFNM_VSPA_MBOX_STATUS;
           if b AND 1 \<noteq> 0
           then do {
             set_stats (\<lambda>v. v\<lparr>st_mbox_busy := st_mbox_busy v + 1\<rparr>);
             modify (\<lambda>s. s\<lparr>next_ns := 20000\<rparr>)
           }
           else do {
             raw_write RFNM_VSPA_OUT_MSB (push_bit 24 0xA);
             raw_write RFNM_VSPA_OUT_LSB (vwin_word w);
             go \<leftarrow> gets vwin_go_param;
             (if go then rfnm_la9310_vspa_go else ret ());
             modify (\<lambda>s. s\<lparr>busy_until := w_close w + RFNM_VWIN_CLOSE_MARGIN_TICKS\<rparr>);
             modify (\<lambda>s. s\<lparr>busy_valid := True\<rparr>);
             set_stats (\<lambda>v. v\<lparr>st_sent := st_sent v + 1\<rparr>);
             modify (\<lambda>s. s\<lparr>vwin_cons := vwin_cons s + 1\<rparr>);
             vwin_pump_loop n
           }
         }
       }
     }
   }"

definition rfnm_vwin_pump :: "('a tx_world_scheme, unit) state" where
  "rfnm_vwin_pump = do {
     n \<leftarrow> gets (\<lambda>s. unat (vwin_prod s - vwin_cons s));
     vwin_pump_loop n
   }"

definition rfnm_vwin_timer_fn :: "('a tx_world_scheme, unit) state" where
  "rfnm_vwin_timer_fn = do {
     modify (\<lambda>s. s\<lparr>next_ns := 0\<rparr>);
     rfnm_vwin_pump;
     modify (\<lambda>s. s\<lparr>timer := (if next_ns s \<noteq> 0 then Some (next_ns s) else None)\<rparr>)
   }"

definition rfnm_vwin_reset :: "('a tx_world_scheme, unit) state" where
  "rfnm_vwin_reset = do {
     modify (\<lambda>s. s\<lparr>timer := None\<rparr>);
     modify (\<lambda>s. s\<lparr>vwin_cons := vwin_prod s\<rparr>);
     modify (\<lambda>s. s\<lparr>busy_valid := False\<rparr>);
     modify (\<lambda>s. s\<lparr>next_ns := 0\<rparr>)
   }"

definition window_len_ticks :: "u32 \<Rightarrow> u32 \<Rightarrow> u32" where
  "window_len_ticks r_shift len =
     (let tps = push_bit (unat r_shift) 128 in len * tps - tps div 4)"

definition rfnm_la9310_tx_window :: "u32 \<Rightarrow> u32 \<Rightarrow> u32 \<Rightarrow> ('a tx_world_scheme, int) state" where
  "rfnm_la9310_tx_window open_tick slot len = do {
     ok \<leftarrow> ccsr_ready;
     st \<leftarrow> gets has_status;
     if \<not> ok \<or> \<not> st then ret (- ENODEV)
     else do {
       x \<leftarrow> gets (\<lambda>s. tx_state s (tick s));
       if x AND 0x20 = 0
       then do { set_stats (\<lambda>v. v\<lparr>st_no_latch := st_no_latch v + 1\<rparr>); ret (- EPIPE) }
       else do {
         len_ticks \<leftarrow> gets (\<lambda>s. window_len_ticks (tx_r_shift s (tick s)) len);
         full \<leftarrow> gets (\<lambda>s. vwin_prod s - vwin_cons s \<ge> RFNM_VWIN_QLEN);
         if full
         then do { set_stats (\<lambda>v. v\<lparr>st_qfull := st_qfull v + 1\<rparr>); ret (- ENOSPC) }
         else do {
           kind \<leftarrow> gets rtc_arm_tx_window;
           r \<leftarrow> rfnm_rtc_push open_tick kind len_ticks;
           if r \<noteq> 0
           then do { set_stats (\<lambda>v. v\<lparr>st_rtc_err := st_rtc_err v + 1\<rparr>); ret r }
           else do {
             rfnm_rtc_doorbell;
             modify (\<lambda>s. s\<lparr>vwin_q := (vwin_q s)[unat (vwin_prod s mod RFNM_VWIN_QLEN) :=
               \<lparr>w_open = open_tick, w_close = open_tick + len_ticks, src_slot = slot,
                len_slots = len\<rparr>]\<rparr>);
             modify (\<lambda>s. s\<lparr>vwin_prod := vwin_prod s + 1\<rparr>);
             modify (\<lambda>s. s\<lparr>next_ns := 0\<rparr>);
             rfnm_vwin_pump;
             modify (\<lambda>s. s\<lparr>timer := (if next_ns s \<noteq> 0 then Some (next_ns s) else timer s)\<rparr>);
             ret 0
           }
         }
       }
     }
   }"

section \<open>The queue as a list\<close>

text \<open>
  The abstraction: the windows between the two counters, oldest first. The counters run
  freely through the 32-bit numbers; the invariant is that they are never more than the size of the
  array apart.
\<close>

definition pending :: "'a tx_world_scheme \<Rightarrow> rfnm_vwin list" where
  "pending s = map (\<lambda>i. vwin_q s ! (unat (vwin_cons s + of_nat i) mod 512))
     [0..<unat (vwin_prod s - vwin_cons s)]"

definition vwin_inv :: "'a tx_world_scheme \<Rightarrow> bool" where
  "vwin_inv s \<longleftrightarrow> length (vwin_q s) = 512 \<and> unat (vwin_prod s - vwin_cons s) \<le> 512"

text \<open>What the device was told: the windows handed to the VSPA and the gate commands.\<close>

definition handed :: "bus_op list \<Rightarrow> u32 list" where
  "handed b = List.map_filter (\<lambda>x. case x of
     Wr (Ccsr r) v \<Rightarrow> if r = ''VSPA_OUT_LSB'' then Some v else None | _ \<Rightarrow> None) b"

definition gated :: "bus_op list \<Rightarrow> u32 list" where
  "gated b = List.map_filter (\<lambda>x. case x of
     Wr (RtcEntry e k) v \<Rightarrow> if k = 0 then Some v else None | _ \<Rightarrow> None) b"

lemma handed_simps [simp]:
  "handed [] = []" "handed (b @ c) = handed b @ handed c"
  "handed (Rd a v # b) = handed b"
  "handed (Wr (Ccsr r) v # b) = (if r = ''VSPA_OUT_LSB'' then v # handed b else handed b)"
  "handed (Wr (Rtc f) v # b) = handed b" "handed (Wr (RtcEntry e k) v # b) = handed b"
  "handed (Wr (MsgUnitId u) v # b) = handed b"
  by (simp_all add: handed_def List.map_filter_def)

lemma gated_simps [simp]:
  "gated [] = []" "gated (b @ c) = gated b @ gated c"
  "gated (Rd a v # b) = gated b" "gated (Wr (Ccsr r) v # b) = gated b"
  "gated (Wr (Rtc f) v # b) = gated b"
  "gated (Wr (RtcEntry e k) v # b) = (if k = 0 then v # gated b else gated b)"
  "gated (Wr (MsgUnitId u) v # b) = gated b"
  by (simp_all add: gated_def List.map_filter_def)

lemma pending_empty: "vwin_cons s = vwin_prod s \<Longrightarrow> pending s = []"
  by (simp add: pending_def)

lemma length_pending: "length (pending s) = unat (vwin_prod s - vwin_cons s)"
  by (simp add: pending_def)

lemma unat_minus_one: "p \<noteq> c \<Longrightarrow> unat (p - (c + 1)) = unat (p - c) - 1" for p c :: u32
proof -
  assume "p \<noteq> c"
  then have "unat (p - c - 1) = unat (p - c) - 1"
    by (intro unat_minus_one) simp
  then show ?thesis by (simp add: diff_diff_eq)
qed

lemma unat_mod_512: "unat (w mod RFNM_VWIN_QLEN) = unat w mod 512" for w :: u32
  by (simp only: unat_mod) simp

lemma unat_plus_one: "unat d < 512 \<Longrightarrow> unat (d + 1) = Suc (unat d)" for d :: u32
  by (simp add: unat_word_ariths)

lemma pending_unfold:
  assumes "vwin_cons s \<noteq> vwin_prod s"
  shows "pending s = vwin_q s ! unat (vwin_cons s mod RFNM_VWIN_QLEN) #
    pending (s\<lparr>vwin_cons := vwin_cons s + 1\<rparr>)"
proof -
  let ?n = "unat (vwin_prod s - (vwin_cons s + 1))"
  have n: "unat (vwin_prod s - vwin_cons s) = Suc ?n"
  proof -
    have "0 < unat (vwin_prod s - vwin_cons s)"
      using assms by (simp add: unat_gt_0)
    with unat_minus_one [of "vwin_prod s" "vwin_cons s"] assms show ?thesis by simp
  qed
  have u: "[0..<Suc ?n] = 0 # map Suc [0..<?n]"
    by (simp only: upt_conv_Cons [OF zero_less_Suc] map_Suc_upt)
  have c: "vwin_cons s + of_nat (Suc i) = vwin_cons s + 1 + of_nat i" for i
    by simp
  show ?thesis
    unfolding pending_def n u unat_mod_512 list.map map_map o_def c by simp
qed

text \<open>Putting a window behind the last one.\<close>

lemma index_distinct:
  fixes c :: u32
  assumes "i < n" and "n < 512"
  shows "unat (c + of_nat i) mod 512 \<noteq> unat (c + of_nat n) mod 512"
proof -
  have m: "unat (c + of_nat k) mod 512 = (unat c + k) mod 512" for k
  proof -
    have "unat (c + of_nat k) = (unat c + k) mod 2 ^ 32"
      by (simp add: unat_word_ariths unat_of_nat take_bit_eq_mod mod_add_right_eq)
    then show ?thesis by (simp add: mod_mod_cancel)
  qed
  show ?thesis
  proof
    assume "unat (c + of_nat i) mod 512 = unat (c + of_nat n) mod 512"
    then have "(unat c + i) mod 512 = (unat c + n) mod 512" by (simp add: m)
    then have "(512 :: nat) dvd (unat c + n) - (unat c + i)"
      using assms(1) by (metis add_le_cancel_left less_imp_le mod_eq_dvd_iff_nat)
    with assms show False by (auto dest: dvd_imp_le)
  qed
qed

definition enqueue :: "rfnm_vwin \<Rightarrow> 'a tx_world_scheme \<Rightarrow> 'a tx_world_scheme" where
  "enqueue w s = s\<lparr>vwin_q := (vwin_q s)[unat (vwin_prod s mod RFNM_VWIN_QLEN) := w],
     vwin_prod := vwin_prod s + 1\<rparr>"

lemma enqueue_pending:
  assumes "vwin_inv s" and "unat (vwin_prod s - vwin_cons s) < 512"
  shows "pending (enqueue w s) = pending s @ [w]" and "vwin_inv (enqueue w s)"
proof -
  let ?n = "unat (vwin_prod s - vwin_cons s)"
  have n1: "unat (vwin_prod s + 1 - vwin_cons s) = Suc ?n"
    unfolding unat_plus_one [OF assms(2), symmetric] by (simp add: algebra_simps)
  have p: "vwin_cons s + of_nat ?n = vwin_prod s" by simp
  have ne: "unat (vwin_cons s + of_nat x) mod 512 \<noteq> unat (vwin_prod s) mod 512" if "x < ?n" for x
    using index_distinct [OF that assms(2), of "vwin_cons s"] unfolding p .
  have len: "length (vwin_q s) = 512" using assms(1) by (simp add: vwin_inv_def)
  show "pending (enqueue w s) = pending s @ [w]"
    unfolding pending_def enqueue_def
    using ne [symmetric] len by (simp add: n1 unat_mod_512)
  show "vwin_inv (enqueue w s)"
    using assms by (simp add: vwin_inv_def enqueue_def n1)
qed

section \<open>What the helpers may change\<close>

text \<open>\<open>env_step\<close>: only looks at the fence, the timer value and the bus differ, and nothing was
  handed over or gated.\<close>

definition env_step :: "'a tx_world_scheme \<Rightarrow> 'a tx_world_scheme \<Rightarrow> bool" where
  "env_step s t \<longleftrightarrow>
     t = s\<lparr>tick := tick t, fence_hits := fence_hits t, bus := bus t, last_now := last_now t\<rparr> \<and>
     handed (bus t) = handed (bus s) \<and> gated (bus t) = gated (bus s)"

lemma env_step_trans: "env_step s t \<Longrightarrow> env_step t u \<Longrightarrow> env_step s u"
proof -
  assume st: "env_step s t" and tu: "env_step t u"
  from st obtain n h b l where t: "t = s\<lparr>tick := n, fence_hits := h, bus := b, last_now := l\<rparr>"
    unfolding env_step_def by blast
  from st tu show ?thesis by (simp add: t env_step_def)
qed

interpretation er: run_rel env_step
  by unfold_locales (simp add: env_step_def, rule env_step_trans)

named_theorems env_rules "computations that hand over nothing"

lemma env_relI: "(\<And>s. env_step s (snd (run_state m s))) \<Longrightarrow> state_io_rel env_step m"
  by (simp add: state_io_rel_def)

lemma env_fenced [env_rules]: "state_io_rel env_step rfnm_la9310_mmio_fenced"
  by (rule env_relI) (simp add: rfnm_la9310_mmio_fenced_def env_step_def)

lemma env_read [env_rules]: "state_io_rel env_step (raw_read a)"
  by (rule env_relI) (simp add: raw_read_def env_step_def)

lemma env_write:
  "handed [Wr a v] = [] \<Longrightarrow> gated [Wr a v] = [] \<Longrightarrow> state_io_rel env_step (raw_write a v)"
  by (rule env_relI) (simp add: raw_write_def env_step_def)

lemma env_writes [env_rules]:
  "state_io_rel env_step (raw_write (Rtc f) v)" "state_io_rel env_step (raw_write (MsgUnitId u) v)"
  "state_io_rel env_step (raw_write PHY_C21_SC v)" "state_io_rel env_step (raw_write RFNM_VSPA_CONTROL v)"
  "state_io_rel env_step (raw_write RFNM_VSPA_OUT_MSB v)"
  by (rule env_write; simp)+

lemma env_last_now [env_rules]: "state_io_rel env_step (modify (\<lambda>s. s\<lparr>last_now := v\<rparr>))"
  by (rule env_relI) (simp add: env_step_def)

lemma env_ready [env_rules]: "state_io_rel env_step ccsr_ready" "state_io_rel env_step rtc_ready"
  unfolding ccsr_ready_def rtc_ready_def by (intro er.rel_rules env_rules)+

lemma env_now [env_rules]: "state_io_rel env_step rfnm_la9310_phytimer_now"
  unfolding rfnm_la9310_phytimer_now_def by (intro er.rel_rules env_rules)

lemma env_go [env_rules]: "state_io_rel env_step rfnm_la9310_vspa_go"
  unfolding rfnm_la9310_vspa_go_def by (intro er.rel_rules env_rules)

lemma env_doorbell [env_rules]: "state_io_rel env_step rfnm_rtc_doorbell"
  unfolding rfnm_rtc_doorbell_def by (intro er.rel_rules env_rules)

lemma wp_env: "state_io_rel env_step m \<Longrightarrow> (\<And>r t. env_step s t \<Longrightarrow> Q r t) \<Longrightarrow> wp m Q s"
  by (rule wp_mono [OF er.rel_wp])

definition tx_dead :: "'a tx_world_scheme \<Rightarrow> bool" where
  "tx_dead s \<longleftrightarrow> \<not> has_ccsr s \<or> (\<exists>n. fence_at s n)"

lemma wp_ccsr_ready:
  assumes "\<And>ok t. env_step s t \<Longrightarrow> \<not> ok \<longrightarrow> tx_dead s \<Longrightarrow> Q ok t"
  shows "wp ccsr_ready Q s"
  using assms [of "snd (run_state ccsr_ready s)" "fst (run_state ccsr_ready s)"]
    er.rel_run [OF env_ready(1), of s]
  by (auto simp: wp_iff_run ccsr_ready_def rfnm_la9310_mmio_fenced_def tx_dead_def split: if_splits)

lemma wp_raw_write: "Q () (s\<lparr>bus := bus s @ [Wr a v]\<rparr>) \<Longrightarrow> wp (raw_write a v) Q s"
  by (simp add: raw_write_def wp_eqs)

section \<open>The pump\<close>

text \<open>
  What a run of the pump does to the queue: it takes a number of windows off its front, hands
  a subsequence of them over in order, counts the others as late, and stops early only with a
  later moment to continue at or with a link that cannot be used.
\<close>

definition taken_from :: "rfnm_vwin list \<Rightarrow> 'a tx_world_scheme \<Rightarrow> 'a tx_world_scheme \<Rightarrow> bool" where
  "taken_from q s t \<longleftrightarrow> (\<exists>k ws. k \<le> length q \<and> pending t = drop k q \<and>
     subseq ws (take k q) \<and> handed (bus t) = handed (bus s) @ map vwin_word ws \<and>
     st_sent (vstats t) = st_sent (vstats s) + of_nat (length ws) \<and>
     st_late (vstats t) = st_late (vstats s) + of_nat (k - length ws))"

lemma taken_cong:
  "handed (bus s) = handed (bus s') \<Longrightarrow> st_sent (vstats s) = st_sent (vstats s') \<Longrightarrow>
     st_late (vstats s) = st_late (vstats s') \<Longrightarrow> pending t = pending t' \<Longrightarrow>
     bus t = bus t' \<Longrightarrow> vstats t = vstats t' \<Longrightarrow> taken_from q s t = taken_from q s' t'"
  by (simp add: taken_from_def)

definition pumped :: "'a tx_world_scheme \<Rightarrow> 'a tx_world_scheme \<Rightarrow> bool" where
  "pumped s t \<longleftrightarrow> taken_from (pending s) s t \<and>
   gated (bus t) = gated (bus s) \<and> vwin_q t = vwin_q s \<and> vwin_prod t = vwin_prod s \<and>
   (vwin_inv s \<longrightarrow> vwin_inv t) \<and>
   st_qfull (vstats t) = st_qfull (vstats s) \<and> st_rtc_err (vstats t) = st_rtc_err (vstats s) \<and>
   st_no_latch (vstats t) = st_no_latch (vstats s) \<and>
   has_ccsr t = has_ccsr s \<and> fence_at t = fence_at s \<and> timer t = timer s"

lemma pumped_env:
  assumes "env_step s t"
  shows "pumped s (t\<lparr>next_ns := d\<rparr>)" and "pumped s t"
    and "pumped s (t\<lparr>vstats := (vstats t)\<lparr>st_mbox_busy := m\<rparr>, next_ns := d\<rparr>)"
proof -
  obtain n h b l where t: "t = s\<lparr>tick := n, fence_hits := h, bus := b, last_now := l\<rparr>"
    and hg: "handed b = handed (bus s)" "gated b = gated (bus s)"
    using assms unfolding env_step_def by (metis mmio.select_convs(6) mmio.simps tx_world.simps)
  show "pumped s (t\<lparr>next_ns := d\<rparr>)" "pumped s t"
    "pumped s (t\<lparr>vstats := (vstats t)\<lparr>st_mbox_busy := m\<rparr>, next_ns := d\<rparr>)"
    by (simp_all add: pumped_def taken_from_def t hg pending_def vwin_inv_def exI [of _ 0] exI [of _ "[]"])
qed

lemma env_fields:
  assumes "env_step s t"
  shows "vwin_q t = vwin_q s" "vwin_prod t = vwin_prod s" "vwin_cons t = vwin_cons s"
    "vstats t = vstats s" "has_ccsr t = has_ccsr s" "fence_at t = fence_at s" "timer t = timer s"
    "handed (bus t) = handed (bus s)" "gated (bus t) = gated (bus s)" "next_ns t = next_ns s"
    "has_rtc t = has_rtc s" "busy_valid t = busy_valid s" "busy_until t = busy_until s"
    "has_status t = has_status s" "tx_state t = tx_state s" "tx_r_shift t = tx_r_shift s"
    "rtc_arm_tx_window t = rtc_arm_tx_window s" "rtc_ring_entries t = rtc_ring_entries s"
    "rtc_ring_magic t = rtc_ring_magic s" "pending t = pending s" "vwin_inv t = vwin_inv s"
    "tx_dead t = tx_dead s"
proof -
  obtain n h b l where t: "t = s\<lparr>tick := n, fence_hits := h, bus := b, last_now := l\<rparr>"
    and hg: "handed b = handed (bus s)" "gated b = gated (bus s)"
    using assms unfolding env_step_def by (metis mmio.select_convs(6) mmio.simps tx_world.simps)
  show "vwin_q t = vwin_q s" "vwin_prod t = vwin_prod s" "vwin_cons t = vwin_cons s"
    "vstats t = vstats s" "has_ccsr t = has_ccsr s" "fence_at t = fence_at s" "timer t = timer s"
    "handed (bus t) = handed (bus s)" "gated (bus t) = gated (bus s)" "next_ns t = next_ns s"
    "has_rtc t = has_rtc s" "busy_valid t = busy_valid s" "busy_until t = busy_until s"
    "has_status t = has_status s" "tx_state t = tx_state s" "tx_r_shift t = tx_r_shift s"
    "rtc_arm_tx_window t = rtc_arm_tx_window s" "rtc_ring_entries t = rtc_ring_entries s"
    "rtc_ring_magic t = rtc_ring_magic s" "pending t = pending s" "vwin_inv t = vwin_inv s"
    "tx_dead t = tx_dead s"
    by (simp_all add: t hg pending_def vwin_inv_def tx_dead_def)
qed

definition others_same :: "'a tx_world_scheme \<Rightarrow> 'a tx_world_scheme \<Rightarrow> bool" where
  "others_same s t \<longleftrightarrow> gated (bus t) = gated (bus s) \<and> vwin_q t = vwin_q s \<and>
     vwin_prod t = vwin_prod s \<and> st_qfull (vstats t) = st_qfull (vstats s) \<and>
     st_rtc_err (vstats t) = st_rtc_err (vstats s) \<and> st_no_latch (vstats t) = st_no_latch (vstats s) \<and>
     has_ccsr t = has_ccsr s \<and> fence_at t = fence_at s \<and> timer t = timer s"

lemma vwin_inv_pending: "vwin_inv s \<longleftrightarrow> length (vwin_q s) = 512 \<and> length (pending s) \<le> 512"
  by (simp add: vwin_inv_def length_pending)

lemma pumped_step:
  assumes "vwin_cons s \<noteq> vwin_prod s" and w: "w = vwin_q s ! unat (vwin_cons s mod RFNM_VWIN_QLEN)"
    and o: "others_same s t" and c: "vwin_cons t = vwin_cons s + 1"
    and d: "handed (bus t) = handed (bus s) \<and> st_sent (vstats t) = st_sent (vstats s) \<and>
        st_late (vstats t) = st_late (vstats s) + 1 \<or>
      handed (bus t) = handed (bus s) @ [vwin_word w] \<and> st_sent (vstats t) = st_sent (vstats s) + 1 \<and>
        st_late (vstats t) = st_late (vstats s)"
    and "pumped t u"
  shows "pumped s u"
proof -
  have p: "pending s = w # pending t"
    using pending_unfold [OF assms(1)] o c w by (simp add: pending_def others_same_def)
  have inv: "vwin_inv s \<Longrightarrow> vwin_inv t"
    using p o by (simp add: vwin_inv_pending others_same_def)
  from \<open>pumped t u\<close> obtain k ws where u: "k \<le> length (pending t)" "pending u = drop k (pending t)"
      "subseq ws (take k (pending t))"
      "handed (bus u) = handed (bus t) @ map vwin_word ws"
      "st_sent (vstats u) = st_sent (vstats t) + of_nat (length ws)"
      "st_late (vstats u) = st_late (vstats t) + of_nat (k - length ws)"
    unfolding pumped_def taken_from_def by blast
  have len: "length ws \<le> k"
    using list_emb_length [OF u(3)] u(1) by simp
  from d show ?thesis
  proof (elim disjE conjE)
    assume l: "handed (bus t) = handed (bus s)" "st_sent (vstats t) = st_sent (vstats s)"
      "st_late (vstats t) = st_late (vstats s) + 1"
    show ?thesis
      using u l p c o \<open>pumped t u\<close> inv len
      by (auto simp: pumped_def taken_from_def others_same_def Suc_diff_le algebra_simps
          intro!: exI [of _ "Suc k"] exI [of _ ws] list_emb_Cons)
  next
    assume l: "handed (bus t) = handed (bus s) @ [vwin_word w]"
      "st_sent (vstats t) = st_sent (vstats s) + 1" "st_late (vstats t) = st_late (vstats s)"
    show ?thesis
      using u l p c o \<open>pumped t u\<close> inv len
      by (auto simp: pumped_def taken_from_def others_same_def algebra_simps
          intro!: exI [of _ "Suc k"] exI [of _ "w # ws"])
  qed
qed

lemma ticks_to_ns_pos:
  assumes "sint (x :: u32) > 0"
  shows "rfnm_ticks_to_ns x \<noteq> 0"
proof -
  have x: "0 < unat x"
    using assms by (metis gr0I less_irrefl sint_0 unat_eq_zero)
  have lt: "unat x < 2 ^ 32"
    by (rule order_less_le_trans [OF unsigned_less]) simp
  then have "unat (ucast x :: u64) = unat x"
    by (simp add: unsigned_ucast_eq take_bit_nat_eq_self)
  with lt have "unat (ucast x * 3125 :: u64) = unat x * 3125"
    by (simp add: unat_word_ariths)
  then have "unat (rfnm_ticks_to_ns x) = unat x * 3125 div 192"
    by (simp add: rfnm_ticks_to_ns_def unat_div)
  moreover have "0 < unat x * 3125 div 192"
    using x by (simp add: div_greater_zero_iff)
  ultimately show ?thesis by auto
qed

definition pump_result :: "'a tx_world_scheme \<Rightarrow> 'a tx_world_scheme \<Rightarrow> bool" where
  "pump_result s t \<longleftrightarrow> pumped s t \<and> (pending t = [] \<or> next_ns t \<noteq> 0 \<or> tx_dead s)"

lemma wp_vwin_pump_loop:
  "n = length (pending s) \<Longrightarrow> wp (vwin_pump_loop n) (\<lambda>_ t. pump_result s t) s"
proof (induction n arbitrary: s)
  case 0
  then show ?case
    using pumped_env(2) [of s s] by (simp add: wp_ret er.R_refl pump_result_def)
next
  case (Suc n)
  have ne: "vwin_cons s \<noteq> vwin_prod s"
    using Suc.prems by (auto simp: length_pending)
  define w where "w = vwin_q s ! unat (vwin_cons s mod RFNM_VWIN_QLEN)"
  have step: "wp (vwin_pump_loop n) (\<lambda>_ u. pump_result s u) t"
    if "others_same s t" "vwin_cons t = vwin_cons s + 1"
      "handed (bus t) = handed (bus s) \<and> st_sent (vstats t) = st_sent (vstats s) \<and>
          st_late (vstats t) = st_late (vstats s) + 1 \<or>
       handed (bus t) = handed (bus s) @ [vwin_word w] \<and> st_sent (vstats t) = st_sent (vstats s) + 1 \<and>
          st_late (vstats t) = st_late (vstats s)" for t
  proof -
    have "pending t = pending (s\<lparr>vwin_cons := vwin_cons s + 1\<rparr>)"
      using that(1,2) by (simp add: pending_def others_same_def)
    then have "n = length (pending t)"
      using Suc.prems pending_unfold [OF ne] by simp
    moreover have "tx_dead t \<longleftrightarrow> tx_dead s"
      using that(1) by (simp add: tx_dead_def others_same_def)
    ultimately show ?thesis
      using pumped_step [OF ne w_def that]
      by (intro wp_mono [OF Suc.IH]) (auto simp: pump_result_def)
  qed
  show ?case
    unfolding vwin_pump_loop.simps set_stats_def
  proof (intro wp_steps wp_ifI wp_ccsr_ready wp_env [OF env_now] wp_env [OF env_read], fold w_def, goal_cases)
    case 1
    then show ?case using ne by simp
  next
    case (2 ok t)
    then show ?case by (simp add: pump_result_def pumped_env)
  next
    case (3 ok t now u)
    from pumped_env(1) [OF env_step_trans [OF 3(2) 3(5)]] 3(6) ticks_to_ns_pos
    show ?case by (simp add: pump_result_def)
  next
    case (4 ok t now u)
    note f = env_fields [OF env_step_trans [OF 4(2) 4(5)]]
    show ?case by (rule step) (simp_all add: others_same_def f)
  next
    case (5 ok t now b u v)
    note tv = env_step_trans [OF 5(2) env_step_trans [OF 5(5) 5(8)]]
    show ?case using pumped_env(3) [OF tv] by (simp add: pump_result_def)
  next
    case (6 ok t now b u v)
    note tv = env_step_trans [OF 6(2) env_step_trans [OF 6(5) 6(8)]]
    show ?case
    proof (intro wp_env [OF env_writes(5)] wp_steps wp_raw_write wp_ifI wp_env [OF env_go], goal_cases)
      case 1
      note f = env_fields [OF tv] env_fields [OF 1(1)] env_fields [OF 1(3)]
      show ?case by (rule step) (simp_all add: others_same_def f)
    next
      case 2
      note f = env_fields [OF tv] env_fields [OF 2(1)]
      show ?case by (rule step) (simp_all add: others_same_def f)
    qed
  qed
qed

lemma wp_vwin_pump: "wp rfnm_vwin_pump (\<lambda>_ t. pump_result s t) s"
  unfolding rfnm_vwin_pump_def
  by (intro wp_steps wp_vwin_pump_loop) (simp add: length_pending)

section \<open>The operations on the queue\<close>

lemma wp_vwin_timer:
  "wp rfnm_vwin_timer_fn (\<lambda>_ t. taken_from (pending s) s t \<and> (pending t = [] \<or> timer t \<noteq> None \<or> tx_dead s) \<and>
     (vwin_inv s \<longrightarrow> vwin_inv t)) s"
proof -
  have timer: "pending (t\<lparr>timer := x\<rparr>) = pending t" for t :: "'a tx_world_scheme" and x
    by (simp add: pending_def)
  have eq: "pending (s\<lparr>next_ns := 0\<rparr>) = pending s" "tx_dead (s\<lparr>next_ns := 0\<rparr>) = tx_dead s"
    by (simp_all add: pending_def tx_dead_def)
  have inv: "vwin_inv (t\<lparr>timer := x\<rparr>) = vwin_inv t" "vwin_inv (t\<lparr>next_ns := d\<rparr>) = vwin_inv t"
    for t :: "'a tx_world_scheme" and x d
    by (simp_all add: vwin_inv_def)
  have "taken_from (pending s) s (t\<lparr>timer := x\<rparr>)" if "pumped (s\<lparr>next_ns := 0\<rparr>) t" for t x
    using that taken_cong [of "s\<lparr>next_ns := 0\<rparr>" s t "t\<lparr>timer := x\<rparr>" "pending s"] eq
    by (simp add: pumped_def timer)
  then show ?thesis
    unfolding rfnm_vwin_timer_fn_def
    by (intro wp_steps wp_mono [OF wp_vwin_pump]) (auto simp: pump_result_def pumped_def timer eq inv)
qed

text \<open>
  C19: the timer never loses a wake-up. After its function has run, the windows left in the
  queue are the old ones without a prefix, the prefix was handed to the VSPA in order except
  for the windows counted as late, and if windows are left the timer is running again, unless
  the link cannot be used.
\<close>

lemma vwin_timer_outcome:
  "wp rfnm_vwin_timer_fn (\<lambda>_ t. taken_from (pending s) s t \<and>
     (pending t = [] \<or> timer t \<noteq> None \<or> tx_dead s)) s"
  by (rule wp_mono [OF wp_vwin_timer]) blast

text \<open>What a request for a window did to the queue, the gate commands and the hand-over.\<close>

definition window_refused :: "'a tx_world_scheme \<Rightarrow> 'a tx_world_scheme \<Rightarrow> bool" where
  "window_refused s t \<longleftrightarrow> pending t = pending s \<and> vwin_inv t \<and> gated (bus t) = gated (bus s) \<and>
     handed (bus t) = handed (bus s) \<and> timer t = timer s \<and>
     st_sent (vstats t) = st_sent (vstats s) \<and> st_late (vstats t) = st_late (vstats s)"

lemma window_refused_env:
  assumes "vwin_inv s" and "env_step s t"
  shows "window_refused s t" "window_refused s (t\<lparr>vstats := (vstats t)\<lparr>st_no_latch := n\<rparr>\<rparr>)"
    "window_refused s (t\<lparr>vstats := (vstats t)\<lparr>st_qfull := n\<rparr>\<rparr>)"
    "window_refused s (t\<lparr>vstats := (vstats t)\<lparr>st_rtc_err := n\<rparr>\<rparr>)"
proof -
  have "pending (t\<lparr>vstats := v\<rparr>) = pending t" "vwin_inv (t\<lparr>vstats := v\<rparr>) = vwin_inv t" for v
    by (simp_all add: pending_def vwin_inv_def)
  then show "window_refused s t" "window_refused s (t\<lparr>vstats := (vstats t)\<lparr>st_no_latch := n\<rparr>\<rparr>)"
    "window_refused s (t\<lparr>vstats := (vstats t)\<lparr>st_qfull := n\<rparr>\<rparr>)"
    "window_refused s (t\<lparr>vstats := (vstats t)\<lparr>st_rtc_err := n\<rparr>\<rparr>)"
    using assms(1) env_fields [OF assms(2)] by (simp_all add: window_refused_def)
qed

lemma env_ghost: "env_step s t \<Longrightarrow> env_step (s\<lparr>bus := bus s @ b\<rparr>) (t\<lparr>bus := bus t @ b\<rparr>)"
proof -
  assume st: "env_step s t"
  then obtain n h c l where t: "t = s\<lparr>tick := n, fence_hits := h, bus := c, last_now := l\<rparr>"
    unfolding env_step_def by blast
  from st show ?thesis by (simp add: t env_step_def)
qed

text \<open>The push: either nothing is written to an entry of the ring, or one entry is, with the tick
  of the window as its first word.\<close>

lemma wp_rtc_push:
  assumes "\<And>r t. env_step s t \<Longrightarrow> r = - ENODEV \<or> r = - EPIPE \<or> r = - ENOSPC \<Longrightarrow> Q r t"
    and "\<And>e t. env_step (s\<lparr>bus := bus s @ [Wr (RtcEntry e 0) tck]\<rparr>) t \<Longrightarrow> Q 0 t"
  shows "wp (rfnm_rtc_push tck kind n) Q s"
  unfolding rfnm_rtc_push_def Let_def
proof (intro wp_steps wp_ifI wp_env [OF env_ready(2)] wp_env [OF env_read], goal_cases)
  case (1 ok t)
  then show ?case using assms(1) by blast
next
  case (2 ok t m u)
  then show ?case using assms(1) by (blast intro: env_step_trans)
next
  case (3 ok t m u p v c x)
  then have "env_step s x" by (blast intro: env_step_trans)
  then show ?case using assms(1) by blast
next
  case (4 ok t m u p v c x)
  then have "env_step s x" by (blast intro: env_step_trans)
  then obtain n h b l where x: "x = s\<lparr>tick := n, fence_hits := h, bus := b, last_now := l\<rparr>"
    and hg: "handed b = handed (bus s)" "gated b = gated (bus s)"
    unfolding env_step_def by (metis mmio.select_convs(6) mmio.simps tx_world.simps)
  show ?case
    by (intro wp_raw_write wp_steps assms(2)) (simp add: env_step_def x hg)
qed

lemma window_accepted:
  assumes inv: "vwin_inv s" and room: "\<not> RFNM_VWIN_QLEN \<le> vwin_prod s - vwin_cons s"
    and x: "env_step (s\<lparr>bus := bus s @ [Wr (RtcEntry e 0) tck]\<rparr>) x"
    and c: "pump_result ((enqueue w x)\<lparr>next_ns := 0\<rparr>) c"
  shows "vwin_inv (c\<lparr>timer := m\<rparr>)" "gated (bus c) = gated (bus s) @ [tck]"
    "taken_from (pending s @ [w]) s (c\<lparr>timer := m\<rparr>)"
    "pending c = [] \<or> next_ns c \<noteq> 0 \<or> tx_dead s"
proof -
  let ?g = "s\<lparr>bus := bus s @ [Wr (RtcEntry e 0) tck]\<rparr>"
  note f = env_fields [OF x]
  have g: "pending ?g = pending s" "vwin_inv ?g = vwin_inv s" "tx_dead ?g = tx_dead s"
    by (simp_all add: pending_def vwin_inv_def tx_dead_def)
  have m: "pending (c\<lparr>timer := m\<rparr>) = pending c" "vwin_inv (c\<lparr>timer := m\<rparr>) = vwin_inv c"
    by (simp_all add: pending_def vwin_inv_def)
  have "vwin_inv x" and "unat (vwin_prod x - vwin_cons x) < 512"
    using inv room by (simp_all add: f g word_le_nat_alt)
  note e = enqueue_pending [OF this]
  have nn: "pending (y\<lparr>next_ns := 0\<rparr>) = pending y" "vwin_inv (y\<lparr>next_ns := 0\<rparr>) = vwin_inv y"
    "tx_dead (y\<lparr>next_ns := 0\<rparr>) = tx_dead y" for y :: "'a tx_world_scheme"
    by (simp_all add: pending_def vwin_inv_def tx_dead_def)
  have q: "bus (enqueue w x) = bus x" "vstats (enqueue w x) = vstats x"
      "tx_dead (enqueue w x) = tx_dead x"
    by (simp_all add: enqueue_def tx_dead_def)
  show "vwin_inv (c\<lparr>timer := m\<rparr>)"
    using c e(2) by (simp add: pump_result_def pumped_def m nn)
  show "gated (bus c) = gated (bus s) @ [tck]"
    using c f by (simp add: pump_result_def pumped_def q)
  show "pending c = [] \<or> next_ns c \<noteq> 0 \<or> tx_dead s"
    using c by (simp add: pump_result_def nn q f g)
  have "taken_from (pending s @ [w]) ((enqueue w x)\<lparr>next_ns := 0\<rparr>) c"
    using c e(1) by (simp add: pump_result_def pumped_def nn f g)
  moreover have "handed (bus x) = handed (bus s)" "vstats x = vstats s"
    by (simp_all add: f)
  ultimately show "taken_from (pending s @ [w]) s (c\<lparr>timer := m\<rparr>)"
    by (simp add: taken_from_def q m)
qed

lemma wp_tx_window:
  assumes "vwin_inv s"
  shows "wp (rfnm_la9310_tx_window tck slot len) (\<lambda>r t.
     if r \<noteq> 0 then window_refused s t \<and> r \<in> {- ENODEV, - EPIPE, - ENOSPC}
     else vwin_inv t \<and> length (pending s) < 512 \<and> gated (bus t) = gated (bus s) @ [tck] \<and>
       (\<exists>w. w_open w = tck \<and> src_slot w = slot \<and> len_slots w = len \<and>
          taken_from (pending s @ [w]) s t) \<and>
       (pending t = [] \<or> timer t \<noteq> None \<or> tx_dead s)) s"
  unfolding rfnm_la9310_tx_window_def set_stats_def
proof (intro wp_steps wp_ifI wp_ccsr_ready wp_rtc_push wp_env [OF env_doorbell]
    wp_mono [OF wp_vwin_pump], goal_cases)
  case (1 ok t)
  then show ?case
    using window_refused_env(1) [OF assms] by (simp add: errno_defs)
next
  case (2 ok t)
  then show ?case
    using window_refused_env(2) [OF assms] by (simp add: EPIPE_def)
next
  case (3 ok t)
  then show ?case
    using window_refused_env(3) [OF assms] by (simp add: errno_defs)
next
  case (4 ok t r u)
  note su = env_step_trans [OF 4(1) 4(6)]
  show ?case
    using window_refused_env(4) [OF assms su] 4(7,8) by simp
next
  case 5
  then show ?case by (simp add: errno_defs EPIPE_def)
next
  case 6
  then show ?case by simp
next
  case (7 ok t e u ru x rc c)
  define n where "n = window_len_ticks (tx_r_shift t (tick t)) len"
  define w where "w = \<lparr>w_open = tck, w_close = tck + n, src_slot = slot, len_slots = len\<rparr>"
  have room: "\<not> RFNM_VWIN_QLEN \<le> vwin_prod s - vwin_cons s"
    using 7(5) by (simp add: env_fields [OF 7(1)])
  have c: "pump_result ((enqueue w x)\<lparr>next_ns := 0\<rparr>) c"
    using 7(9) by (simp add: enqueue_def w_def n_def)
  note a = window_accepted [OF assms room env_step_trans [OF env_ghost [OF 7(1)]
      env_step_trans [OF 7(6) 7(8)]] c]
  have p: "pending (c\<lparr>timer := m\<rparr>) = pending c" for m
    by (simp add: pending_def)
  define m where "m = (if next_ns c \<noteq> 0 then Some (next_ns c) else timer c)"
  have "\<exists>w. w_open w = tck \<and> src_slot w = slot \<and> len_slots w = len \<and>
      taken_from (pending s @ [w]) s (c\<lparr>timer := m\<rparr>)"
    using a(3) [of m] by (intro exI [of _ w]) (simp add: w_def)
  moreover have "pending c = [] \<or> m \<noteq> None \<or> tx_dead s"
    using a(4) by (auto simp: m_def)
  moreover have "length (pending s) < 512"
    using room by (simp add: length_pending word_le_nat_alt)
  ultimately show ?case
    using a(1) [of m] a(2) p unfolding m_def [symmetric] by simp
qed

text \<open>
  C12: a window is either refused or queued, and the gate commands and the queue agree about
  it. When it is refused the queue and the timer are as before and no gate command was
  written; when it is accepted exactly one gate command for its opening tick was written,
  the window was put behind the others and the pump has run on that queue; if windows are
  left then, the timer is running unless the link cannot be used. The queue stays well
  formed.
\<close>

lemma tx_window_outcome:
  assumes "vwin_inv s"
  shows "wp (rfnm_la9310_tx_window tck slot len) (\<lambda>r t.
     if r \<noteq> 0 then window_refused s t \<and> r \<in> {- ENODEV, - EPIPE, - ENOSPC}
     else vwin_inv t \<and> gated (bus t) = gated (bus s) @ [tck] \<and>
       (\<exists>w. w_open w = tck \<and> src_slot w = slot \<and> len_slots w = len \<and>
          taken_from (pending s @ [w]) s t) \<and>
       (pending t = [] \<or> timer t \<noteq> None \<or> tx_dead s)) s"
  by (rule wp_mono [OF wp_tx_window [OF assms]]) (auto split: if_splits)

definition sample_tx :: tx_world where
  "sample_tx = \<lparr>tick = 0, fence_at = (\<lambda>n. False), dev_read = (\<lambda>n a. if a = Rtc ''magic'' then 7 else 0),
      poll_reads = 0, fence_hits = 0, bus = [], has_ccsr = True, has_rtc = True, has_status = True,
      tx_state = (\<lambda>n. 0x20), tx_r_shift = (\<lambda>n. 1), rtc_ring_magic = 7, rtc_ring_entries = 512,
      rtc_arm_tx_window = 1, rtc_doorbell_bit = 2, last_now = 0, vwin_go_param = False,
      vwin_q = replicate 512 \<lparr>w_open = 0, w_close = 0, src_slot = 0, len_slots = 0\<rparr>,
      vwin_prod = 0, vwin_cons = 0, busy_until = 0, busy_valid = False, next_ns = 0, timer = None,
      vstats = \<lparr>st_sent = 0, st_late = 0, st_qfull = 0, st_mbox_busy = 0, st_no_latch = 0, st_rtc_err = 0\<rparr>\<rparr>"

lemma sample_tx_inv: "vwin_inv sample_tx"
  by (simp add: vwin_inv_def sample_tx_def)

lemma sample_tx_accepts: "fst (run_state (rfnm_la9310_tx_window 8000 3 2) sample_tx) = 0"
  by code_simp

text \<open>One window is queued behind a window that is still on the air.\<close>

definition sample_busy :: tx_world where
  "sample_busy = sample_tx\<lparr>vwin_prod := 1, busy_until := 1000, busy_valid := True\<rparr>"

lemma sample_busy_left: "length (pending (snd (run_state rfnm_vwin_timer_fn sample_busy))) = 1"
  by code_simp

lemma vwin_timer_outcome_witness:
  "\<exists>d. timer (snd (run_state rfnm_vwin_timer_fn sample_busy)) = Some d"
proof -
  have "\<not> tx_dead sample_busy"
    by (simp add: tx_dead_def sample_busy_def sample_tx_def)
  moreover have "pending (snd (run_state rfnm_vwin_timer_fn sample_busy)) \<noteq> []"
    using sample_busy_left by auto
  ultimately show ?thesis
    using vwin_timer_outcome [of sample_busy] by (simp add: wp_snd)
qed

lemma tx_window_outcome_witness:
  "\<exists>t. run_state (rfnm_la9310_tx_window 8000 3 2) sample_tx = (0, t) \<and>
     vwin_inv t \<and> gated (bus t) = [8000]"
  using wp_run [OF tx_window_outcome [OF sample_tx_inv, of 8000 3 2]] sample_tx_accepts
  by (cases "run_state (rfnm_la9310_tx_window 8000 3 2) sample_tx") (fastforce simp: sample_tx_def)

section \<open>Refinement of a bounded queue\<close>

text \<open>The specification: a queue of at most 512 windows, to which one may be added and from
  whose front windows are taken.\<close>

inductive queue_step :: "rfnm_vwin list \<Rightarrow> rfnm_vwin list \<Rightarrow> bool" where
  serve: "queue_step q (drop k q)"
| put: "length q < 512 \<Longrightarrow> queue_step q (drop k (q @ [w]))"

inductive_cases queue_stepE: "queue_step q r"

datatype win_op = TxWindow u32 u32 u32 | TimerFires | ResetQueue

fun win_exec :: "win_op \<Rightarrow> ('a tx_world_scheme, int) state" where
  "win_exec (TxWindow tck slot len) = rfnm_la9310_tx_window tck slot len"
| "win_exec TimerFires = do { rfnm_vwin_timer_fn; ret 0 }"
| "win_exec ResetQueue = do { rfnm_vwin_reset; ret 0 }"



end
