(* ===== verification/Session.thy ===== *)
theory Session
  imports Stream_Plan Windows
begin

text \<open>
  The radio session of \<open>la9310rfnm/rfnm_lalib.c\<close>: the mailbox through which the M4 takes
  software commands (\<open>rf_send_swcmd\<close>), the sender of the stream configuration word with its
  deduplication, its first-transmit initialisation and its wait for the anchors, the time
  division pattern, the anchor intent, and \<open>rfnm_la9310_quiesce\<close>, which ends a session; with the
  part of \<open>la9310_rfnm.c\<close> that decides whether a session is alive.

  The layouts of the command and of its arguments and the numbers of the commands are in
  headers outside the repository and are fields of the state: \<open>sw_header\<close> gives the seven
  header words of a posted command, \<open>dump_words\<close> the argument words of the stream command.
  \<open>rx_epoch\<close> and \<open>tx_epoch\<close> are the counters the firmware publishes in host memory, as seen
  at the n-th look; \<open>swcmd_polls\<close> and \<open>publish_polls\<close> are the numbers of looks that fit into
  the two timed waits. Senders hold a mutex in the source and are atomic here.
\<close>

section \<open>State\<close>

record rfnm_session =
  stream_word :: u32
  anchor_tick :: u32
  anchor_valid :: bool
  tdd_period_chunks :: u32
  tdd_armed :: bool

record rf_host_stats =
  sw_cmds_tx :: nat
  sw_cmds_timed_out :: nat
  sw_cmds_desc_busy :: nat

record sess_world = tx_world +
  sw_header :: "u32 \<Rightarrow> u32 list"
  dump_words :: "u32 \<Rightarrow> u32 \<Rightarrow> u32 \<Rightarrow> u32 list"
  rf_status_free :: u32
  rf_status_done :: u32
  cmd_dump_iq :: u32
  cmd_tdd :: u32
  cmd_handoff :: u32
  swcmd_polls :: nat
  publish_polls :: nat
  etick :: nat
  rx_epoch :: "nat \<Rightarrow> u32"
  tx_epoch :: "nat \<Rightarrow> u32"
  rfic_stats :: rf_host_stats
  session :: rfnm_session
  streamed_gen :: u32
  streamed_gen_valid :: bool
  stream_send_cnt :: u32
  restart_stash :: u32
  restart_scheduled :: bool
  reapply_scheduled :: bool
  phy_gen :: u32
  session_phy_gen :: u32
  session_dead :: bool
  session_faults :: u32
  phy64_wraps :: u32
  phy64_last_lo :: u32
  phy64_valid :: bool

definition ENOSYS :: int where "ENOSYS = 38"

definition set_session :: "(rfnm_session \<Rightarrow> rfnm_session) \<Rightarrow> ('a sess_world_scheme, unit) state" where
  "set_session f = modify (\<lambda>s. s\<lparr>session := f (session s)\<rparr>)"

definition set_rfic :: "(rf_host_stats \<Rightarrow> rf_host_stats) \<Rightarrow> ('a sess_world_scheme, unit) state" where
  "set_rfic f = modify (\<lambda>s. s\<lparr>rfic_stats := f (rfic_stats s)\<rparr>)"

section \<open>The command mailbox\<close>

abbreviation SWCMD_STATUS :: waddr where "SWCMD_STATUS \<equiv> HifWord ''host_swcmd.status''"
abbreviation SWCMD_RESULT :: waddr where "SWCMD_RESULT \<equiv> HifWord ''host_swcmd.result''"

definition iord32 :: "waddr \<Rightarrow> ('a mmio_scheme, u32) state" where
  "iord32 a = do { f \<leftarrow> rfnm_la9310_mmio_fenced; if f then ret 0 else raw_read a }"

definition iowr32 :: "waddr \<Rightarrow> u32 \<Rightarrow> ('a mmio_scheme, unit) state" where
  "iowr32 a v = do { f \<leftarrow> rfnm_la9310_mmio_fenced; if f then ret () else raw_write a v }"

definition rf_raise_modem_irq :: "('a mmio_scheme, unit) state" where
  "rf_raise_modem_irq = iowr32 (MsgUnitId ''LA9310_IRQ_MUX_MSG_UNIT'') 1"

definition rf_free_cmd :: "('a sess_world_scheme, unit) state" where
  "rf_free_cmd = do { v \<leftarrow> gets rf_status_free; iowr32 SWCMD_STATUS v }"

fun copy_words :: "nat \<Rightarrow> u32 list \<Rightarrow> ('a mmio_scheme, unit) state" where
  "copy_words i [] = ret ()"
| "copy_words i (w # ws) = do { iowr32 (SwCmd i) w; copy_words (Suc i) ws }"

fun rf_swcmd_get_data :: "nat \<Rightarrow> nat \<Rightarrow> ('a mmio_scheme, u32 list) state" where
  "rf_swcmd_get_data i 0 = ret []"
| "rf_swcmd_get_data i (Suc n) = do {
     v \<leftarrow> iord32 (SwCmd (7 + i));
     vs \<leftarrow> rf_swcmd_get_data (Suc i) n;
     ret (v # vs)
   }"

fun swcmd_wait :: "nat \<Rightarrow> u32 \<Rightarrow> ('a mmio_scheme, unit) state" where
  "swcmd_wait 0 fin = ret ()"
| "swcmd_wait (Suc n) fin = do {
     f \<leftarrow> rfnm_la9310_mmio_fenced;
     if f then ret ()
     else do {
       v \<leftarrow> iord32 SWCMD_STATUS;
       if v \<noteq> fin then swcmd_wait n fin else ret ()
     }
   }"

definition swcmd_take :: "u32 \<Rightarrow> u32 \<Rightarrow> ('a mmio_scheme, bool) state" where
  "swcmd_take free fin = do {
     st \<leftarrow> iord32 SWCMD_STATUS;
     if st \<noteq> free then do { st2 \<leftarrow> iord32 SWCMD_STATUS; ret (st2 = fin) } else ret True
   }"

definition swcmd_answer :: "u32 \<Rightarrow> nat \<Rightarrow> ('a sess_world_scheme, int) state" where
  "swcmd_answer fin n = do {
     st \<leftarrow> iord32 SWCMD_STATUS;
     if st \<noteq> fin
     then do { set_rfic (\<lambda>v. v\<lparr>sw_cmds_timed_out := sw_cmds_timed_out v + 1\<rparr>); ret (- EBUSY) }
     else do {
       set_rfic (\<lambda>v. v\<lparr>sw_cmds_tx := sw_cmds_tx v + 1\<rparr>);
       v \<leftarrow> iord32 SWCMD_RESULT;
       _ \<leftarrow> rf_swcmd_get_data 0 n;
       ret (sint v)
     }
   }"

definition rf_send_swcmd :: "u32 \<Rightarrow> u32 list \<Rightarrow> ('a sess_world_scheme, int) state" where
  "rf_send_swcmd cmd args = do {
     f \<leftarrow> rfnm_la9310_mmio_fenced;
     if f then do { set_rfic (\<lambda>v. v\<lparr>sw_cmds_desc_busy := sw_cmds_desc_busy v + 1\<rparr>); ret (- EBUSY) }
     else do {
       free \<leftarrow> gets rf_status_free;
       fin \<leftarrow> gets rf_status_done;
       ok \<leftarrow> swcmd_take free fin;
       if \<not> ok
       then do { set_rfic (\<lambda>v. v\<lparr>sw_cmds_desc_busy := sw_cmds_desc_busy v + 1\<rparr>); ret (- EBUSY) }
       else do {
         hdr \<leftarrow> gets (\<lambda>s. sw_header s cmd);
         copy_words 0 (hdr @ args);
         rf_raise_modem_irq;
         n \<leftarrow> gets swcmd_polls;
         swcmd_wait n fin;
         r \<leftarrow> swcmd_answer fin (length args);
         iowr32 SWCMD_STATUS free;
         ret r
       }
     }
   }"

section \<open>Is the session alive\<close>

definition rfnm_session_fault :: "('a sess_world_scheme, unit) state" where
  "rfnm_session_fault = do {
     d \<leftarrow> gets session_dead;
     if d then ret ()
     else do {
       modify (\<lambda>s. s\<lparr>session_dead := True\<rparr>);
       modify (\<lambda>s. s\<lparr>session_faults := session_faults s + 1\<rparr>)
     }
   }"

definition rfnm_phy_gen_session_ok :: "'a sess_world_scheme \<Rightarrow> bool" where
  "rfnm_phy_gen_session_ok s \<longleftrightarrow> \<not> session_dead s \<and> session_phy_gen s = phy_gen s"

definition rfnm_phy_gen_bump :: "('a sess_world_scheme, unit) state" where
  "rfnm_phy_gen_bump = do {
     modify (\<lambda>s. s\<lparr>phy64_wraps := 0, phy64_valid := False\<rparr>);
     modify (\<lambda>s. s\<lparr>phy_gen := phy_gen s + 1\<rparr>)
   }"

section \<open>Sending the stream word\<close>

definition tx_bit :: "u32 \<Rightarrow> bool" where "tx_bit t \<longleftrightarrow> t AND 1 \<noteq> 0"
definition rx_bits :: "u32 \<Rightarrow> bool" where "rx_bits t \<longleftrightarrow> drop_bit 1 t AND 15 \<noteq> 0"

definition anchor_granule :: "rfnm_session \<Rightarrow> u32 \<Rightarrow> u32" where
  "anchor_granule ss t =
     (if tdd_period_chunks ss \<noteq> 0
      then tdd_period_chunks ss * push_bit (unat (drop_bit 9 t AND 1)) 384
      else let d = drop_bit 9 t AND 1;
               d = if tx_bit t \<and> drop_bit 10 t AND 1 > d then drop_bit 10 t AND 1 else d
           in push_bit (unat d) 384)"

definition read_epochs :: "('a sess_world_scheme, u32 \<times> u32) state" where
  "read_epochs = do {
     e \<leftarrow> gets (\<lambda>s. (rx_epoch s (etick s), tx_epoch s (etick s)));
     modify (\<lambda>s. s\<lparr>etick := etick s + 1\<rparr>);
     ret e
   }"

definition published :: "bool \<Rightarrow> bool \<Rightarrow> u32 \<times> u32 \<Rightarrow> u32 \<times> u32 \<Rightarrow> bool" where
  "published wait_rx wait_tx pre now \<longleftrightarrow>
     (wait_rx \<longrightarrow> fst now \<noteq> fst pre) \<and> (wait_tx \<longrightarrow> snd now \<noteq> snd pre)"

fun publish_wait :: "nat \<Rightarrow> bool \<Rightarrow> bool \<Rightarrow> u32 \<times> u32 \<Rightarrow> ('a sess_world_scheme, bool) state" where
  "publish_wait 0 wait_rx wait_tx pre = do { e \<leftarrow> read_epochs; ret (published wait_rx wait_tx pre e) }"
| "publish_wait (Suc n) wait_rx wait_tx pre = do {
     e \<leftarrow> read_epochs;
     if published wait_rx wait_tx pre e
     then do { e \<leftarrow> read_epochs; ret (published wait_rx wait_tx pre e) }
     else publish_wait n wait_rx wait_tx pre
   }"

definition send_attempt :: "u32 \<Rightarrow> bool \<Rightarrow> bool \<Rightarrow> u32 \<times> u32 \<Rightarrow> ('a sess_world_scheme, int + bool) state" where
  "send_attempt t wait_rx wait_tx pre = do {
     ss \<leftarrow> gets session;
     args \<leftarrow> gets (\<lambda>s. if anchor_valid ss then dump_words s t (anchor_tick ss) (anchor_granule ss t)
                     else dump_words s t 0 0);
     cmd \<leftarrow> gets cmd_dump_iq;
     r \<leftarrow> rf_send_swcmd cmd args;
     rf_free_cmd;
     if r \<noteq> 0 then ret (Inl r)
     else do {
       st \<leftarrow> gets has_status;
       if st \<and> (wait_rx \<or> wait_tx)
       then do { n \<leftarrow> gets publish_polls; p \<leftarrow> publish_wait n wait_rx wait_tx pre; ret (Inr p) }
       else ret (Inr True)
     }
   }"

text \<open>The loop of two attempts: \<open>Inl\<close> is the error the sender returns.\<close>

fun send_attempts :: "nat \<Rightarrow> u32 \<Rightarrow> bool \<Rightarrow> bool \<Rightarrow> u32 \<times> u32 \<Rightarrow> ('a sess_world_scheme, int) state" where
  "send_attempts 0 t wait_rx wait_tx pre = ret 0"
| "send_attempts (Suc n) t wait_rx wait_tx pre = do {
     r \<leftarrow> send_attempt t wait_rx wait_tx pre;
     (case r of
        Inl e \<Rightarrow> ret e
      | Inr p \<Rightarrow> if p then ret 0 else send_attempts n t wait_rx wait_tx pre)
   }"

definition after_apply :: "u32 \<Rightarrow> ('a sess_world_scheme, unit) state" where
  "after_apply t = do {
     (if bit t 16 then do { _ \<leftarrow> rfnm_rtc_arm; ret () }
      else do {
        rfnm_vwin_reset;
        w \<leftarrow> gets (\<lambda>s. stream_word (session s));
        if bit w 16 \<or> tx_bit t then do { _ \<leftarrow> rfnm_rtc_disarm; ret () } else ret ()
      });
     set_session (\<lambda>v. v\<lparr>stream_word := t\<rparr>);
     modify (\<lambda>s. s\<lparr>stream_send_cnt := stream_send_cnt s + 1\<rparr>);
     (if t AND 0x1F \<noteq> 0
      then modify (\<lambda>s. s\<lparr>streamed_gen := phy_gen s, streamed_gen_valid := True\<rparr>)
      else ret ())
   }"

text \<open>
  The sender and the first-transmit initialisation call each other; the words the
  initialisation sends carry no transmit bit, so its calls never reach it again. The first
  argument is the initialisation to run, and \<open>stream_send_plain\<close> is the sender the
  initialisation calls.
\<close>

definition send_word ::
  "(u32 \<Rightarrow> ('a sess_world_scheme, unit) state) \<Rightarrow> u32 \<Rightarrow> bool \<Rightarrow> ('a sess_world_scheme, int) state" where
  "send_word init t force = do {
     w \<leftarrow> gets (\<lambda>s. stream_word (session s));
     if \<not> force \<and> t = w then ret 0
     else do {
       stale \<leftarrow> gets (\<lambda>s. \<not> streamed_gen_valid s \<or> streamed_gen s \<noteq> phy_gen s);
       (if tx_bit t \<and> stale
        then (if w AND 0x1E \<noteq> 0 then ret () else init t)
        else ret ());
       w \<leftarrow> gets (\<lambda>s. stream_word (session s));
       st \<leftarrow> gets has_status;
       pre \<leftarrow> (if st then read_epochs else ret (0, 0));
       r \<leftarrow> send_attempts 2 t (rx_bits t) (tx_bit t \<and> \<not> (force \<and> t = w)) pre;
       if r \<noteq> 0 then ret r
       else do { after_apply t; ret 0 }
     }
   }"

definition stream_send_with ::
  "(u32 \<Rightarrow> ('a sess_world_scheme, unit) state) \<Rightarrow> u32 \<Rightarrow> bool \<Rightarrow> ('a sess_world_scheme, int) state" where
  "stream_send_with init t force = do {
     armed \<leftarrow> rfnm_rtc_armed;
     send_word init (if armed \<and> tx_bit t then t OR push_bit 16 1 else t) force
   }"

definition stream_send_plain :: "u32 \<Rightarrow> bool \<Rightarrow> ('a sess_world_scheme, int) state" where
  "stream_send_plain = stream_send_with (\<lambda>t. ret ())"

definition rfnm_gen_tx_init_cycle :: "u32 \<Rightarrow> ('a sess_world_scheme, unit) state" where
  "rfnm_gen_tx_init_cycle t = do {
     r \<leftarrow> stream_send_plain ((t AND (push_bit 9 1 OR push_bit 10 1)) OR push_bit 1 1) False;
     if r \<noteq> 0 then ret ()
     else do { _ \<leftarrow> stream_send_plain 0 False; ret () }
   }"

definition rfnm_la9310_stream_send_locked :: "u32 \<Rightarrow> bool \<Rightarrow> ('a sess_world_scheme, int) state" where
  "rfnm_la9310_stream_send_locked = stream_send_with rfnm_gen_tx_init_cycle"

definition rfnm_la9310_stream_send :: "u32 \<Rightarrow> ('a sess_world_scheme, int) state" where
  "rfnm_la9310_stream_send t = rfnm_la9310_stream_send_locked t False"

section \<open>Sending a word again\<close>

definition rfnm_la9310_stream_reapply :: "('a sess_world_scheme, unit) state" where
  "rfnm_la9310_stream_reapply = do {
     t \<leftarrow> gets (\<lambda>s. stream_word (session s));
     if t = 0 \<or> \<not> rx_bits t then ret ()
     else do {
       r \<leftarrow> rfnm_la9310_stream_send_locked t True;
       if r \<noteq> 0 then set_session (\<lambda>v. v\<lparr>stream_word := 0\<rparr>) else ret ()
     }
   }"

definition rfnm_lalib_phy_restart_notify :: "('a sess_world_scheme, unit) state" where
  "rfnm_lalib_phy_restart_notify = do {
     t \<leftarrow> gets (\<lambda>s. stream_word (session s));
     if t = 0 then ret ()
     else do {
       modify (\<lambda>s. s\<lparr>restart_stash := t\<rparr>);
       set_session (\<lambda>v. v\<lparr>stream_word := 0\<rparr>);
       modify (\<lambda>s. s\<lparr>restart_scheduled := True\<rparr>)
     }
   }"

definition rfnm_phy_restart_workfn :: "('a sess_world_scheme, unit) state" where
  "rfnm_phy_restart_workfn = do {
     t \<leftarrow> gets restart_stash;
     modify (\<lambda>s. s\<lparr>restart_stash := 0\<rparr>);
     if t \<noteq> 0 \<and> rx_bits t
     then do { _ \<leftarrow> rfnm_la9310_stream_send_locked t True; ret () }
     else ret ()
   }"

section \<open>Pattern, anchor and the end of a session\<close>

definition rfnm_lalib_vspa_handoff :: "bool \<Rightarrow> ('a sess_world_scheme, int) state" where
  "rfnm_lalib_vspa_handoff on = do {
     cmd \<leftarrow> gets cmd_handoff;
     r \<leftarrow> rf_send_swcmd cmd [if on then 1 else 0];
     rf_free_cmd;
     ret r
   }"

definition rfnm_la9310_tdd :: "u32 \<Rightarrow> u32 \<Rightarrow> ('a sess_world_scheme, int) state" where
  "rfnm_la9310_tdd period_chunks duty_chunks = do {
     ok \<leftarrow> gets rfnm_phy_gen_session_ok;
     if \<not> ok then ret (- ENODEV)
     else do {
       cmd \<leftarrow> gets cmd_tdd;
       r \<leftarrow> rf_send_swcmd cmd [period_chunks, duty_chunks];
       rf_free_cmd;
       (if r = 0
        then do {
          set_session (\<lambda>v. v\<lparr>tdd_armed := (period_chunks \<noteq> 0 \<or> duty_chunks \<noteq> 0)\<rparr>);
          set_session (\<lambda>v. v\<lparr>tdd_period_chunks := period_chunks\<rparr>);
          rfnm_la9310_stream_reapply
        }
        else ret ());
       ret r
     }
   }"

text \<open>A transaction request by its operation, kind, tick and flags; the code of the anchor
  kind is 4.\<close>

definition rfnm_la9310_txn :: "u32 \<Rightarrow> u32 \<Rightarrow> u32 \<Rightarrow> u32 \<Rightarrow> ('a sess_world_scheme, int) state" where
  "rfnm_la9310_txn op kind tck flags = do {
     ok \<leftarrow> gets rfnm_phy_gen_session_ok;
     if \<not> ok then ret (- ENODEV)
     else if op \<noteq> 1 \<or> kind \<noteq> 4 then ret (- ENOSYS)
     else do {
       set_session (\<lambda>v. v\<lparr>anchor_tick := tck\<rparr>);
       set_session (\<lambda>v. v\<lparr>anchor_valid := (flags AND 1 \<noteq> 0)\<rparr>);
       modify (\<lambda>s. s\<lparr>reapply_scheduled := True\<rparr>);
       ret 0
     }
   }"

definition rfnm_la9310_pos_tx_viable :: "'a sess_world_scheme \<Rightarrow> bool" where
  "rfnm_la9310_pos_tx_viable s \<longleftrightarrow> \<not> tdd_armed (session s)"

definition rfnm_la9310_tx_windowed_q :: "'a sess_world_scheme \<Rightarrow> u32" where
  "rfnm_la9310_tx_windowed_q s = drop_bit 16 (stream_word (session s)) AND 1"

definition rfnm_la9310_quiesce :: "('a sess_world_scheme, unit) state" where
  "rfnm_la9310_quiesce = do {
     w \<leftarrow> gets (\<lambda>s. stream_word (session s));
     (if w \<noteq> 0
      then do {
        _ \<leftarrow> rfnm_la9310_stream_send 0;
        set_session (\<lambda>v. v\<lparr>stream_word := 0\<rparr>)
      }
      else ret ());
     a \<leftarrow> gets (\<lambda>s. tdd_armed (session s));
     if a then do { _ \<leftarrow> rfnm_la9310_tdd 0 0; ret () } else ret ()
   }"

text \<open>
  The restart of the stream state machine as far as the session is concerned: the reset calls
  the quiesce of this module, and only when it has returned is the session declared alive
  again. \<open>stopped\<close> is the result of stopping the workers.
\<close>

definition rfnm_restart_sm :: "bool \<Rightarrow> int \<Rightarrow> ('a sess_world_scheme, int) state" where
  "rfnm_restart_sm hard stopped = do {
     if hard \<and> stopped \<noteq> 0 then ret (- ETIMEDOUT)
     else do {
       rfnm_la9310_quiesce;
       modify (\<lambda>s. s\<lparr>session_phy_gen := phy_gen s\<rparr>);
       modify (\<lambda>s. s\<lparr>session_dead := False\<rparr>);
       ret 0
     }
   }"

section \<open>What the operations leave alone\<close>

text \<open>\<open>same_sess\<close>: the mailbox, the ring and the waits do not touch the session;
  \<open>same_but_word\<close>: the sender changes nothing of it but the applied word.\<close>

definition same_sess :: "'a sess_world_scheme \<Rightarrow> 'a sess_world_scheme \<Rightarrow> bool" where
  "same_sess s t \<longleftrightarrow> session t = session s \<and> streamed_gen t = streamed_gen s \<and>
     streamed_gen_valid t = streamed_gen_valid s \<and> stream_send_cnt t = stream_send_cnt s \<and>
     phy_gen t = phy_gen s \<and> session_phy_gen t = session_phy_gen s \<and>
     session_dead t = session_dead s \<and> restart_stash t = restart_stash s \<and>
     fence_at t = fence_at s"

definition same_but_word :: "'a sess_world_scheme \<Rightarrow> 'a sess_world_scheme \<Rightarrow> bool" where
  "same_but_word s t \<longleftrightarrow>
     session t = (session s)\<lparr>stream_word := stream_word (session t)\<rparr> \<and>
     phy_gen t = phy_gen s \<and> session_phy_gen t = session_phy_gen s \<and>
     session_dead t = session_dead s \<and> restart_stash t = restart_stash s \<and>
     fence_at t = fence_at s"

interpretation ss: run_rel same_sess
  by unfold_locales (simp_all add: same_sess_def)

lemma same_but_word_trans: "same_but_word s t \<Longrightarrow> same_but_word t u \<Longrightarrow> same_but_word s u"
  by (cases "session s"; cases "session t"; cases "session u") (simp add: same_but_word_def)

interpretation sw: run_rel same_but_word
  by unfold_locales (simp add: same_but_word_def, rule same_but_word_trans)

lemma same_sess_word: "same_sess s t \<Longrightarrow> same_but_word s t"
  by (simp add: same_sess_def same_but_word_def)

lemma word_of_same: "state_io_rel same_sess m \<Longrightarrow> state_io_rel same_but_word m"
  unfolding state_io_rel_def by (blast intro: same_sess_word)

named_theorems ss_rules "computations that leave the session alone"

lemma ss_mmio [ss_rules]:
  "state_io_rel same_sess rfnm_la9310_mmio_fenced" "state_io_rel same_sess (raw_read a)"
  "state_io_rel same_sess (raw_write a v)" "state_io_rel same_sess (set_rfic f)"
  "state_io_rel same_sess (set_stats g)"
  by (simp_all add: state_io_rel_def same_sess_def rfnm_la9310_mmio_fenced_def raw_read_def
      raw_write_def set_rfic_def set_stats_def)

lemma ss_modify [ss_rules]:
  "state_io_rel same_sess (modify (\<lambda>s. s\<lparr>timer := m\<rparr>))"
  "state_io_rel same_sess (modify (\<lambda>s. s\<lparr>vwin_cons := vwin_prod s\<rparr>))"
  "state_io_rel same_sess (modify (\<lambda>s. s\<lparr>busy_valid := b\<rparr>))"
  "state_io_rel same_sess (modify (\<lambda>s. s\<lparr>next_ns := d\<rparr>))"
  "state_io_rel same_sess (modify (\<lambda>s. s\<lparr>etick := etick s + 1\<rparr>))"
  by (simp_all add: state_io_rel_def same_sess_def)

lemma ss_access [ss_rules]:
  "state_io_rel same_sess (iord32 a)" "state_io_rel same_sess (iowr32 a v)"
  "state_io_rel same_sess rf_raise_modem_irq" "state_io_rel same_sess rf_free_cmd"
  "state_io_rel same_sess rtc_ready" "state_io_rel same_sess rfnm_rtc_doorbell"
  unfolding iord32_def iowr32_def rf_raise_modem_irq_def rf_free_cmd_def rtc_ready_def rfnm_rtc_doorbell_def
  by (intro ss.rel_rules ss_rules)+

lemma ss_ring [ss_rules]:
  "state_io_rel same_sess rfnm_rtc_armed" "state_io_rel same_sess rfnm_rtc_arm"
  "state_io_rel same_sess rfnm_rtc_disarm" "state_io_rel same_sess rfnm_vwin_reset"
  unfolding rfnm_rtc_armed_def rfnm_rtc_arm_def rfnm_rtc_disarm_def rfnm_vwin_reset_def
  by (intro ss.rel_rules ss_rules)+

lemma ss_copy [ss_rules]: "state_io_rel same_sess (copy_words i ws)"
proof (induction ws arbitrary: i)
  case Nil
  show ?case unfolding copy_words.simps by (intro ss.rel_rules)
next
  case (Cons w ws)
  show ?case unfolding copy_words.simps by (intro ss.rel_rules ss_rules Cons.IH)
qed

lemma ss_get_data [ss_rules]: "state_io_rel same_sess (rf_swcmd_get_data i n)"
proof (induction n arbitrary: i)
  case 0
  show ?case unfolding rf_swcmd_get_data.simps by (intro ss.rel_rules)
next
  case (Suc n)
  show ?case unfolding rf_swcmd_get_data.simps by (intro ss.rel_rules ss_rules Suc.IH)
qed

lemma ss_wait [ss_rules]: "state_io_rel same_sess (swcmd_wait n d)"
proof (induction n)
  case 0
  show ?case unfolding swcmd_wait.simps by (intro ss.rel_rules)
next
  case (Suc n)
  show ?case unfolding swcmd_wait.simps by (intro ss.rel_rules ss_rules Suc.IH)
qed

lemma ss_swcmd [ss_rules]: "state_io_rel same_sess (rf_send_swcmd cmd args)"
  unfolding rf_send_swcmd_def swcmd_take_def swcmd_answer_def by (intro ss.rel_rules ss_rules)

lemma ss_epochs [ss_rules]: "state_io_rel same_sess read_epochs"
  unfolding read_epochs_def by (intro ss.rel_rules ss_rules)

lemma ss_publish [ss_rules]: "state_io_rel same_sess (publish_wait n wait_rx wait_tx pre)"
proof (induction n)
  case 0
  show ?case unfolding publish_wait.simps by (intro ss.rel_rules ss_rules)
next
  case (Suc n)
  show ?case unfolding publish_wait.simps by (intro ss.rel_rules ss_rules Suc.IH)
qed

lemma ss_sum:
  "(\<And>a. state_io_rel same_sess (f a)) \<Longrightarrow> (\<And>b. state_io_rel same_sess (g b)) \<Longrightarrow>
     state_io_rel same_sess (case x of Inl a \<Rightarrow> f a | Inr b \<Rightarrow> g b)"
  by (cases x) simp_all

lemma ss_attempt [ss_rules]: "state_io_rel same_sess (send_attempt t wait_rx wait_tx pre)"
  unfolding send_attempt_def by (intro ss.rel_rules ss_rules)

lemma ss_attempts [ss_rules]: "state_io_rel same_sess (send_attempts n t wait_rx wait_tx pre)"
proof (induction n)
  case 0
  show ?case unfolding send_attempts.simps by (intro ss.rel_rules)
next
  case (Suc n)
  show ?case unfolding send_attempts.simps by (intro ss.rel_rules ss_rules ss_sum Suc.IH)
qed

lemma ss_handoff [ss_rules]: "state_io_rel same_sess (rfnm_lalib_vspa_handoff on)"
  unfolding rfnm_lalib_vspa_handoff_def by (intro ss.rel_rules ss_rules)

lemma wp_same: "state_io_rel same_sess m \<Longrightarrow> (\<And>r t. same_sess s t \<Longrightarrow> Q r t) \<Longrightarrow> wp m Q s"
  by (rule wp_mono [OF ss.rel_wp])

section \<open>What a send does to the applied word\<close>

definition word_set :: "u32 \<Rightarrow> 'a sess_world_scheme \<Rightarrow> 'a sess_world_scheme \<Rightarrow> bool" where
  "word_set t s u \<longleftrightarrow> same_but_word s u \<and> stream_word (session u) = t \<and>
     stream_send_cnt u = stream_send_cnt s + 1 \<and>
     (t AND 0x1F \<noteq> 0 \<longrightarrow> streamed_gen_valid u \<and> streamed_gen u = phy_gen s)"

lemma wp_after_apply: "wp (after_apply t) (\<lambda>_ u. word_set t s u) s"
proof -
  have "wp (if bit t 16 then do { _ \<leftarrow> rfnm_rtc_arm; ret () }
      else do {
        rfnm_vwin_reset;
        w \<leftarrow> gets (\<lambda>s. stream_word (session s));
        if bit w 16 \<or> tx_bit t then do { _ \<leftarrow> rfnm_rtc_disarm; ret () } else ret ()
      }) (\<lambda>_ u. same_sess s u) s"
    by (rule ss.rel_wp, intro ss.rel_rules ss_rules)
  then show ?thesis
    unfolding after_apply_def set_session_def
    by (intro wp_steps, elim wp_mono, intro wp_steps wp_ifI)
      (auto simp: word_set_def same_sess_def same_but_word_def)
qed

lemma tx_bit_inject [simp]: "tx_bit (t OR push_bit 16 1) = tx_bit t"
proof -
  have "(t OR push_bit 16 1) AND 1 = t AND 1"
    by (rule bit_word_eqI) (auto simp: bit_simps)
  then show ?thesis by (simp add: tx_bit_def)
qed

definition windowed :: "u32 \<Rightarrow> u32 set" where
  "windowed t = (if tx_bit t then {t, t OR push_bit 16 1} else {t})"

text \<open>The sender with an initialisation that changes nothing but the word, and that only to
  one of \<open>J x w\<close> for the word \<open>x\<close> to be sent and the applied word \<open>w\<close>.\<close>

definition word_result ::
  "(u32 \<Rightarrow> u32 \<Rightarrow> u32 set) \<Rightarrow> u32 \<Rightarrow> bool \<Rightarrow> int \<Rightarrow> 'a sess_world_scheme \<Rightarrow> 'a sess_world_scheme \<Rightarrow> bool" where
  "word_result J x force r s u \<longleftrightarrow> same_but_word s u \<and>
     (if r = 0 then stream_word (session u) = x \<and>
        (same_sess s u \<and> \<not> force \<or>
         (x AND 0x1F \<noteq> 0 \<longrightarrow> streamed_gen_valid u \<and> streamed_gen u = phy_gen s))
      else stream_word (session u) = stream_word (session s) \<or>
        tx_bit x \<and> stream_word (session u) \<in> J x (stream_word (session s)))"

definition init_ok ::
  "(u32 \<Rightarrow> u32 \<Rightarrow> u32 set) \<Rightarrow> (u32 \<Rightarrow> ('a sess_world_scheme, unit) state) \<Rightarrow> bool" where
  "init_ok J init \<longleftrightarrow> (\<forall>x s. wp (init x) (\<lambda>_ u. same_but_word s u \<and>
      stream_word (session u) \<in> J x (stream_word (session s))) s)"

lemma wp_send_word:
  assumes init: "init_ok J init"
  shows "wp (send_word init x force) (\<lambda>r u. word_result J x force r s u) s"
proof -
  define R where "R b \<longleftrightarrow> same_but_word s b \<and> (stream_word (session b) = stream_word (session s) \<or>
      tx_bit x \<and> stream_word (session b) \<in> J x (stream_word (session s)))" for b
  have stage: "wp (if tx_bit x \<and> stale then (if w AND 0x1E \<noteq> 0 then ret () else init x) else ret ())
      (\<lambda>_ b. R b) s" for stale w
    using init sw.R_refl [of s]
    by (auto simp: R_def wp_eqs init_ok_def elim!: allE [of _ x] allE [of _ s] intro: wp_mono)
  have err: "word_result J x force r s c" if "R b" "same_sess b c" "r \<noteq> 0" for b c r
    using that same_but_word_trans [OF _ same_sess_word]
    by (auto simp: R_def word_result_def same_sess_def)
  have ok: "word_result J x force 0 s u" if "R b" "same_sess b c" "word_set x c u" for b c u
  proof -
    have "same_but_word s b" "same_but_word c u"
      using that by (simp_all add: R_def word_set_def)
    then have "same_but_word s u"
      using same_sess_word [OF that(2)] by (blast intro: same_but_word_trans)
    moreover have "phy_gen c = phy_gen s"
      using that by (simp add: R_def same_but_word_def same_sess_def)
    ultimately show ?thesis
      using that(3) by (simp add: word_result_def word_set_def)
  qed
  have pre: "state_io_rel same_sess (if st then read_epochs else ret (0, 0))" for st
    by (intro ss.rel_rules ss_rules)
  show ?thesis
    unfolding send_word_def
  proof (intro wp_steps wp_ifI [where b = "\<not> force \<and> x = w" for w], goal_cases)
    case 1
    then show ?case by (simp add: word_result_def sw.R_refl ss.R_refl)
  next
    case 2
    show ?case
      by (rule wp_mono [OF stage], intro wp_steps wp_same [OF pre] wp_same [OF ss_attempts] wp_ifI
          wp_mono [OF wp_after_apply]) (blast intro: err ok ss.R_trans)+
  qed
qed

text \<open>The result of a send of \<open>t\<close>, whichever of the two words it became.\<close>

definition send_result ::
  "(u32 \<Rightarrow> u32 \<Rightarrow> u32 set) \<Rightarrow> u32 \<Rightarrow> bool \<Rightarrow> int \<Rightarrow> 'a sess_world_scheme \<Rightarrow> 'a sess_world_scheme \<Rightarrow> bool" where
  "send_result J t force r s u \<longleftrightarrow> (\<exists>x \<in> windowed t. word_result J x force r s u)"

lemma wp_send_with:
  assumes "init_ok J init"
  shows "wp (stream_send_with init t force) (\<lambda>r u. send_result J t force r s u) s"
proof -
  have "send_result J t force r s u" if "same_sess s a" "word_result J x force r a u"
    "x \<in> windowed t" for a u r x
  proof -
    have "same_but_word a u"
      using that(2) by (simp add: word_result_def)
    then have "same_but_word s u"
      using same_sess_word [OF that(1)] by (blast intro: same_but_word_trans)
    moreover have "same_sess a u \<Longrightarrow> same_sess s u"
      using that(1) ss.R_trans by blast
    ultimately show ?thesis
      using that by (auto simp: send_result_def word_result_def same_sess_def intro!: bexI [of _ x])
  qed
  then show ?thesis
    unfolding stream_send_with_def
    by (intro wp_steps wp_same [OF ss_ring(1)] wp_mono [OF wp_send_word [OF assms]])
      (auto simp: windowed_def)
qed

definition init_rx_word :: "u32 \<Rightarrow> u32" where
  "init_rx_word t = (t AND (push_bit 9 1 OR push_bit 10 1)) OR push_bit 1 1"

lemma init_rx_word_plain: "\<not> tx_bit (init_rx_word t)" "\<not> tx_bit 0"
proof -
  have "init_rx_word t AND 1 = 0"
    unfolding init_rx_word_def by (rule bit_word_eqI) (simp only: bit_and_iff bit_or_iff bit_push_bit_iff bit_1_iff; auto)
  then show "\<not> tx_bit (init_rx_word t)" by (simp add: tx_bit_def)
  show "\<not> tx_bit 0" by (simp add: tx_bit_def)
qed

lemma wp_send_plain:
  assumes "\<not> tx_bit t"
  shows "wp (stream_send_plain t force) (\<lambda>r u. same_but_word s u \<and>
     stream_word (session u) = (if r = 0 then t else stream_word (session s))) s"
proof -
  have "init_ok (\<lambda>x w. {w}) (\<lambda>t. ret () :: ('a sess_world_scheme, unit) state)"
    by (simp add: init_ok_def wp_eqs sw.R_refl)
  from wp_send_with [OF this, of t force s] show ?thesis
    unfolding stream_send_plain_def
    by (rule wp_mono) (use assms in \<open>auto simp: send_result_def word_result_def windowed_def split: if_splits\<close>)
qed

definition init_words :: "u32 \<Rightarrow> u32 \<Rightarrow> u32 set" where
  "init_words x w = {w, init_rx_word x, 0}"

lemma init_cycle_ok: "init_ok init_words rfnm_gen_tx_init_cycle"
  unfolding init_ok_def
proof (intro allI)
  fix x and s :: "'a sess_world_scheme"
  show "wp (rfnm_gen_tx_init_cycle x) (\<lambda>_ u. same_but_word s u \<and>
      stream_word (session u) \<in> init_words x (stream_word (session s))) s"
    unfolding rfnm_gen_tx_init_cycle_def init_rx_word_def [symmetric]
    by (intro wp_steps wp_ifI wp_mono [OF wp_send_plain [OF init_rx_word_plain(1)]]
        wp_mono [OF wp_send_plain [OF init_rx_word_plain(2)]])
      (auto simp: init_words_def split: if_splits intro: same_but_word_trans)
qed

lemma wp_send_locked:
  "wp (rfnm_la9310_stream_send_locked t force) (\<lambda>r u. send_result init_words t force r s u) s"
  unfolding rfnm_la9310_stream_send_locked_def by (rule wp_send_with [OF init_cycle_ok])

lemma send_result_keeps: "send_result J t force r s u \<Longrightarrow> same_but_word s u"
  by (auto simp: send_result_def word_result_def)

text \<open>
  C13: a send that reports success leaves the word that was asked for as the applied word, with
  the windowed mode bit added only to a word that transmits, and records the generation of
  the timer for a word that switches a channel on; a send that fails leaves the applied word as it was, or, for a word that
  transmits, as the initialisation left it: the word of its receive cycle or the word that
  ends the cycle. Nothing else of the session changes.
\<close>

lemma stream_send_outcome:
  "wp (rfnm_la9310_stream_send t) (\<lambda>r u. same_but_word s u \<and>
     (if r = 0 then
        (stream_word (session u) = t \<or> tx_bit t \<and> stream_word (session u) = t OR push_bit 16 1) \<and>
        (same_sess s u \<or> (stream_word (session u) AND 0x1F \<noteq> 0 \<longrightarrow>
          streamed_gen_valid u \<and> streamed_gen u = phy_gen s))
      else stream_word (session u) = stream_word (session s) \<or>
        tx_bit t \<and> (stream_word (session u) = 0 \<or>
          (\<exists>x \<in> {t, t OR push_bit 16 1}. stream_word (session u) = init_rx_word x)))) s"
  unfolding rfnm_la9310_stream_send_def
  by (rule wp_mono [OF wp_send_locked])
    (auto simp: send_result_def word_result_def windowed_def init_words_def split: if_splits)

section \<open>The end of a session\<close>

lemma sw_set_word [simp]: "state_io_rel same_but_word (set_session (\<lambda>v. v\<lparr>stream_word := w\<rparr>))"
  by (simp add: state_io_rel_def same_but_word_def set_session_def)

lemma same_but_set:
  "same_but_word s t \<Longrightarrow> same_but_word s (t\<lparr>session := (session t)\<lparr>stream_word := w\<rparr>\<rparr>)"
  by (cases "session s"; cases "session t") (simp add: same_but_word_def)

lemma same_but_ok: "same_but_word s t \<Longrightarrow> rfnm_phy_gen_session_ok t = rfnm_phy_gen_session_ok s"
  by (simp add: same_but_word_def rfnm_phy_gen_session_ok_def)

lemma same_but_tdd:
  assumes "same_but_word s t"
  shows "tdd_armed (session t) = tdd_armed (session s)"
    "tdd_period_chunks (session t) = tdd_period_chunks (session s)"
    "anchor_tick (session t) = anchor_tick (session s)"
    "anchor_valid (session t) = anchor_valid (session s)"
proof -
  from assms have s: "session t = (session s)\<lparr>stream_word := stream_word (session t)\<rparr>"
    by (simp add: same_but_word_def)
  show "tdd_armed (session t) = tdd_armed (session s)"
    "tdd_period_chunks (session t) = tdd_period_chunks (session s)"
    "anchor_tick (session t) = anchor_tick (session s)"
    "anchor_valid (session t) = anchor_valid (session s)"
    by (subst s, simp)+
qed

lemma wp_reapply: "wp rfnm_la9310_stream_reapply (\<lambda>_ u. same_but_word s u \<and>
   (stream_word (session s) = 0 \<longrightarrow> stream_word (session u) = 0)) s"
  unfolding rfnm_la9310_stream_reapply_def set_session_def
  by (intro wp_steps wp_ifI wp_mono [OF wp_send_locked])
    (auto simp: sw.R_refl dest: send_result_keeps intro: same_but_set)

lemma wp_tdd:
  "wp (rfnm_la9310_tdd p d) (\<lambda>r u.
     (stream_word (session s) = 0 \<longrightarrow> stream_word (session u) = 0) \<and>
     anchor_tick (session u) = anchor_tick (session s) \<and>
     anchor_valid (session u) = anchor_valid (session s) \<and>
     (if rfnm_phy_gen_session_ok s \<and> r = 0
      then tdd_armed (session u) = (p \<noteq> 0 \<or> d \<noteq> 0) \<and> tdd_period_chunks (session u) = p
      else same_but_word s u \<and> (\<not> rfnm_phy_gen_session_ok s \<longrightarrow> r = - ENODEV \<and> u = s))) s"
  unfolding rfnm_la9310_tdd_def set_session_def
proof (intro wp_steps wp_ifI wp_same [OF ss_swcmd] wp_same [OF ss_access(4)], goal_cases)
  case 1
  then show ?case by (simp add: sw.R_refl errno_defs)
next
  case (2 r t q u)
  let ?v = "u\<lparr>session := (session u)\<lparr>tdd_armed := (p \<noteq> 0 \<or> d \<noteq> 0)\<rparr>\<rparr>"
  let ?w = "?v\<lparr>session := (session ?v)\<lparr>tdd_period_chunks := p\<rparr>\<rparr>"
  have w: "stream_word (session ?w) = stream_word (session s)"
    using 2 by (simp add: same_sess_def)
  show ?case
    by (rule wp_mono [OF wp_reapply]) (use 2 w in \<open>auto simp: same_but_tdd wp_eqs same_sess_def\<close>)
next
  case (3 r t q u)
  then have "same_but_word s u"
    by (blast intro: same_sess_word ss.R_trans)
  with 3 show ?case by (auto simp: same_sess_def same_but_tdd)
qed

definition quiesced :: "'a sess_world_scheme \<Rightarrow> 'a sess_world_scheme \<Rightarrow> bool" where
  "quiesced s u \<longleftrightarrow> stream_word (session u) = 0 \<and>
     anchor_tick (session u) = anchor_tick (session s) \<and>
     anchor_valid (session u) = anchor_valid (session s) \<and>
     (tdd_armed (session u) \<longrightarrow> tdd_armed (session s)) \<and>
     (\<not> rfnm_phy_gen_session_ok s \<longrightarrow>
       tdd_armed (session u) = tdd_armed (session s) \<and>
       tdd_period_chunks (session u) = tdd_period_chunks (session s))"

lemma wp_quiesce: "wp rfnm_la9310_quiesce (\<lambda>_ u. quiesced s u) s"
proof -
  have stage: "wp (if w \<noteq> 0
      then do {
        _ \<leftarrow> rfnm_la9310_stream_send 0;
        set_session (\<lambda>v. v\<lparr>stream_word := 0\<rparr>)
      }
      else ret ()) (\<lambda>_ b. same_but_word s b \<and> (w = stream_word (session s) \<longrightarrow> stream_word (session b) = 0)) s" for w
    unfolding rfnm_la9310_stream_send_def set_session_def
    by (intro wp_steps wp_ifI wp_mono [OF wp_send_locked])
      (auto simp: sw.R_refl dest: send_result_keeps intro: same_but_set)
  show ?thesis
    unfolding rfnm_la9310_quiesce_def
  proof (rule wp_bind [THEN iffD2], rule wp_gets [THEN iffD2], rule wp_bind [THEN iffD2],
      rule wp_mono [OF stage], intro wp_steps wp_ifI wp_mono [OF wp_tdd], goal_cases)
    case (1 r b q u)
    then show ?case
      by (auto simp: quiesced_def same_but_tdd same_but_ok split: if_splits)
  next
    case (2 r b)
    then show ?case
      by (auto simp: quiesced_def same_but_tdd same_but_ok)
  qed
qed

text \<open>
  The boundary of a session. After the quiesce no word is applied and the anchor intent
  survives. When the session was dead or of an old time generation, the pattern stays exactly as it
  was: the disarm is refused before a command is sent. In particular a restart of the state
  machine, which revives the session only after the quiesce, hands a pattern that a dead
  session left armed to the next one: the session is alive again, the pattern is still
  armed, and positional transmission is refused to the new owner.
\<close>

lemma dead_session_leaves_pattern:
  assumes "session_dead s" and "tdd_armed (session s)" and "hard \<longrightarrow> stopped = 0"
  shows "wp (rfnm_restart_sm hard stopped) (\<lambda>r u. r = 0 \<and> rfnm_phy_gen_session_ok u \<and>
     stream_word (session u) = 0 \<and> tdd_armed (session u) \<and>
     tdd_period_chunks (session u) = tdd_period_chunks (session s) \<and>
     \<not> rfnm_la9310_pos_tx_viable u) s"
proof -
  have "\<not> rfnm_phy_gen_session_ok s"
    using assms(1) by (simp add: rfnm_phy_gen_session_ok_def)
  then show ?thesis
    unfolding rfnm_restart_sm_def using assms(2,3)
    by (intro wp_steps wp_ifI wp_mono [OF wp_quiesce])
      (auto simp: quiesced_def rfnm_phy_gen_session_ok_def rfnm_la9310_pos_tx_viable_def)
qed

lemma mult_zero_iff:
  fixes p :: u32
  assumes "e \<le> 1"
  shows "p * push_bit e 384 = 0 \<longleftrightarrow> 2 ^ (25 - e) dvd unat p"
proof -
  have "p * push_bit e 384 = of_nat (unat p * (384 * 2 ^ e))"
    by (simp add: push_bit_eq_mult)
  then have "p * push_bit e 384 = 0 \<longleftrightarrow> 2 ^ 32 dvd unat p * (384 * 2 ^ e)"
    by (simp only: word_of_nat_eq_0_iff) simp
  also have "\<dots> \<longleftrightarrow> 2 ^ (25 - e) * 2 ^ (7 + e) dvd (unat p * 3) * 2 ^ (7 + e)"
  proof -
    have a: "(2 :: nat) ^ 32 = 2 ^ (25 - e) * 2 ^ (7 + e)"
      using assms by (simp only: power_add [symmetric]) simp
    have b: "unat p * (384 * 2 ^ e) = (unat p * 3) * 2 ^ (7 + e)"
      by (simp add: power_add)
    show ?thesis by (simp only: a b)
  qed
  also have "\<dots> \<longleftrightarrow> 2 ^ (25 - e) dvd unat p * 3"
    by (subst dvd_times_right_cancel_iff) simp_all
  also have "\<dots> \<longleftrightarrow> 2 ^ (25 - e) dvd unat p"
  proof -
    have "coprime (2 ^ (25 - e)) (3 :: nat)"
      by (simp add: coprime_power_left_iff)
    then show ?thesis by (simp add: coprime_dvd_mult_left_iff)
  qed
  finally show ?thesis .
qed

lemma unat_one_bit: "unat (w AND 1) \<le> 1" for w :: u32
proof -
  have "w AND 1 \<le> 1" by (rule word_and_le1)
  then show ?thesis by (simp add: word_le_nat_alt)
qed

text \<open>
  The granule sent with an anchor intent is a multiple of the anchor step of the word's
  receive side and never zero, except for one family of patterns: the period is not checked
  when a pattern is set, and a period that is a multiple of \<open>2 ^ 25\<close> (of \<open>2 ^ 24\<close> when the
  receive divider is on) makes the granule zero, by which the driver then divides.
\<close>

lemma anchor_granule_zero:
  "anchor_granule ss t = 0 \<longleftrightarrow>
     tdd_period_chunks ss \<noteq> 0 \<and> 2 ^ (25 - unat (drop_bit 9 t AND 1)) dvd unat (tdd_period_chunks ss)"
proof (cases "tdd_period_chunks ss = 0")
  case True
  have "push_bit (unat d) 384 \<noteq> (0 :: u32)" if "unat d \<le> 1" for d :: u32
    using that mult_zero_iff [of "unat d" 1] by auto
  then show ?thesis
    using True unat_one_bit by (simp add: anchor_granule_def Let_def)
next
  case False
  then show ?thesis
    using mult_zero_iff [OF unat_one_bit] by (simp add: anchor_granule_def)
qed

section \<open>What a command puts on the link\<close>

fun is_rd :: "bus_op \<Rightarrow> bool" where
  "is_rd (Rd a v) = True"
| "is_rd (Wr a v) = False"

definition cmd_ops :: "nat \<Rightarrow> u32 list \<Rightarrow> bus_op list" where
  "cmd_ops i ws = map (\<lambda>(k, w). Wr (SwCmd k) w) (enumerate i ws)"

lemma wp_iord_down:
  assumes "fence_down s" and "\<And>v t. bus_step s t [Rd a v] \<Longrightarrow> fence_down t \<Longrightarrow> Q v t"
  shows "wp (iord32 a) Q s"
  using assms by (simp add: wp_iff_run bus_step_def iord32_def run_fenced_down raw_read_def)

lemma wp_iowr_down:
  assumes "fence_down s" and "\<And>t. bus_step s t [Wr a v] \<Longrightarrow> fence_down t \<Longrightarrow> Q () t"
  shows "wp (iowr32 a v) Q s"
  using assms by (simp add: wp_iff_run bus_step_def iowr32_def run_fenced_down raw_write_def)

lemma wp_copy_down:
  "fence_down s \<Longrightarrow> (\<And>t. bus_step s t (cmd_ops i ws) \<Longrightarrow> fence_down t \<Longrightarrow> Q () t) \<Longrightarrow>
     wp (copy_words i ws) Q s"
proof (induction ws arbitrary: i s)
  case Nil
  then show ?case by (simp add: wp_ret cmd_ops_def bus_step_refl)
next
  case (Cons w ws)
  show ?case
    unfolding copy_words.simps
  proof (intro wp_steps wp_iowr_down Cons.IH Cons.prems(1), goal_cases)
    case 1
    then show ?case by blast
  next
    case (2 t u)
    have "cmd_ops i (w # ws) = [Wr (SwCmd i) w] @ cmd_ops (Suc i) ws"
      by (simp add: cmd_ops_def)
    with 2 Cons.prems(2) show ?case by (metis bus_step_trans)
  qed
qed

lemma wp_wait_down:
  "fence_down s \<Longrightarrow> (\<And>t b. bus_step s t b \<Longrightarrow> fence_down t \<Longrightarrow> \<forall>x \<in> set b. is_rd x \<Longrightarrow> Q () t) \<Longrightarrow>
     wp (swcmd_wait n d) Q s"
proof (induction n arbitrary: s Q)
  case 0
  show ?case unfolding swcmd_wait.simps
    by (intro wp_steps 0(2) [OF bus_step_refl 0(1)]) simp
next
  case (Suc n)
  show ?case
    unfolding swcmd_wait.simps
  proof (intro wp_steps wp_fenced_down wp_ifI wp_iord_down Suc.IH, goal_cases)
    case 1
    show ?case by (rule Suc.prems(1))
  next
    case (2 x)
    then show ?case by simp
  next
    case 3
    then show ?case by blast
  next
    case 4
    then show ?case by blast
  next
    case (5 x v y u b)
    show ?case
      by (rule Suc.prems(2) [OF bus_step_trans [OF 5(1) bus_step_trans [OF 5(4) 5(7)]] 5(8)])
        (use 5(9) in simp)
  next
    case (6 x v y)
    show ?case
      by (rule Suc.prems(2) [OF bus_step_trans [OF 6(1) 6(4)] 6(5)]) simp
  qed
qed

lemma wp_get_data_down:
  "fence_down s \<Longrightarrow> (\<And>r t b. bus_step s t b \<Longrightarrow> fence_down t \<Longrightarrow> \<forall>x \<in> set b. is_rd x \<Longrightarrow> Q r t) \<Longrightarrow>
     wp (rf_swcmd_get_data i n) Q s"
proof (induction n arbitrary: i s Q)
  case 0
  show ?case unfolding rf_swcmd_get_data.simps
    by (intro wp_steps 0(2) [OF bus_step_refl 0(1)]) simp
next
  case (Suc n)
  show ?case
    unfolding rf_swcmd_get_data.simps
  proof (intro wp_steps wp_iord_down Suc.IH Suc.prems(1), goal_cases)
    case 1
    then show ?case by blast
  next
    case (2 v x r u b)
    show ?case
      by (rule Suc.prems(2) [OF bus_step_trans [OF 2(1) 2(3)] 2(4)]) (use 2(5) in simp)
  qed
qed

text \<open>The header of a command and its arguments, the interrupt and the release of the mailbox
  are the only writes of a command, in this order.\<close>

definition mailbox_run :: "u32 \<Rightarrow> u32 list \<Rightarrow> 'a sess_world_scheme \<Rightarrow> bus_op list \<Rightarrow> bool" where
  "mailbox_run cmd args s b \<longleftrightarrow> (\<exists>rd st ans.
     b = rd @ cmd_ops 0 (sw_header s cmd @ args) @ [Wr (MsgUnitId ''LA9310_IRQ_MUX_MSG_UNIT'') 1] @ ans @
       [Wr SWCMD_STATUS (rf_status_free s)] \<and>
     (\<forall>x \<in> set (rd @ ans). is_rd x) \<and> last rd = Rd SWCMD_STATUS st \<and>
     (st = rf_status_free s \<or> st = rf_status_done s))"

lemma wp_take_down:
  assumes "fence_down s"
    and "\<And>ok rd st t. bus_step s t rd \<Longrightarrow> fence_down t \<Longrightarrow> \<forall>x \<in> set rd. is_rd x \<Longrightarrow>
      ok \<longrightarrow> last rd = Rd SWCMD_STATUS st \<and> (st = free \<or> st = fin) \<Longrightarrow> Q ok t"
  shows "wp (swcmd_take free fin) Q s"
  unfolding swcmd_take_def
proof (intro wp_steps wp_ifI wp_iord_down assms(1), goal_cases)
  case 1
  then show ?case by blast
next
  case (2 v t w u)
  show ?case by (rule assms(2) [OF bus_step_trans [OF 2(1) 2(4)] 2(5), of _ w]) simp_all
next
  case (3 v t)
  show ?case by (rule assms(2) [OF 3(1) 3(2), of _ v]) (use 3(3) in simp_all)
qed

lemma bus_step_sess:
  assumes "bus_step s t b"
  shows "same_sess s t" "rfic_stats t = rfic_stats s" "sw_header t = sw_header s"
    "rf_status_free t = rf_status_free s" "rf_status_done t = rf_status_done s" "bus t = bus s @ b"
proof -
  obtain n h where t: "t = s\<lparr>tick := n, fence_hits := h, bus := bus s @ b\<rparr>"
    using assms unfolding bus_step_def by blast
  show "same_sess s t" "rfic_stats t = rfic_stats s" "sw_header t = sw_header s"
    "rf_status_free t = rf_status_free s" "rf_status_done t = rf_status_done s" "bus t = bus s @ b"
    by (simp_all add: t same_sess_def)
qed

definition answered :: "int \<Rightarrow> 'a sess_world_scheme \<Rightarrow> 'a sess_world_scheme \<Rightarrow> bus_op list \<Rightarrow> bool" where
  "answered r s t b \<longleftrightarrow> bus t = bus s @ b \<and> (\<forall>x \<in> set b. is_rd x) \<and> same_sess s t \<and>
     (r = - EBUSY \<and> rfic_stats t =
        (rfic_stats s)\<lparr>sw_cmds_timed_out := sw_cmds_timed_out (rfic_stats s) + 1\<rparr> \<or>
      rfic_stats t = (rfic_stats s)\<lparr>sw_cmds_tx := sw_cmds_tx (rfic_stats s) + 1\<rparr>)"

lemma wp_answer_down:
  assumes "fence_down s"
    and "\<And>r t b. answered r s t b \<Longrightarrow> fence_down t \<Longrightarrow> Q r t"
  shows "wp (swcmd_answer fin n) Q s"
  unfolding swcmd_answer_def set_rfic_def
proof (intro wp_steps wp_ifI wp_iord_down wp_get_data_down assms(1), goal_cases)
  case (1 v t)
  note f = bus_step_sess [OF 1(1)]
  show ?case
    by (rule assms(2) [where b = "[Rd SWCMD_STATUS v]"])
      (use 1(2) f in \<open>simp_all add: answered_def same_sess_def\<close>)
next
  case 2
  then show ?case by simp
next
  case 3
  then show ?case by blast
next
  case (4 v t w u r x b)
  note f = bus_step_sess [OF 4(1)] bus_step_sess [OF 4(4)] bus_step_sess [OF 4(6)]
  show ?case
    by (rule assms(2) [where b = "[Rd SWCMD_STATUS v, Rd SWCMD_RESULT w] @ b"])
      (use 4(7,8) f in \<open>simp_all add: answered_def same_sess_def\<close>)
qed

text \<open>
  C14: a command is posted only into a mailbox that was seen free or done. With the link up,
  a busy mailbox is only read and the call fails with \<open>EBUSY\<close>; otherwise the words of the
  command, the interrupt and, at the end, whether the M4 answered in time or not, the
  release of the mailbox are written, and nothing else; exactly one of the three counters
  counts the call.
\<close>

lemma swcmd_outcome:
  assumes "fence_down s"
  shows "wp (rf_send_swcmd cmd args) (\<lambda>r t. \<exists>b. bus t = bus s @ b \<and> same_sess s t \<and>
     ((\<forall>x \<in> set b. is_rd x) \<and> r = - EBUSY \<and>
        rfic_stats t = (rfic_stats s)\<lparr>sw_cmds_desc_busy := sw_cmds_desc_busy (rfic_stats s) + 1\<rparr> \<or>
      mailbox_run cmd args s b \<and>
       (r = - EBUSY \<and> rfic_stats t =
          (rfic_stats s)\<lparr>sw_cmds_timed_out := sw_cmds_timed_out (rfic_stats s) + 1\<rparr> \<or>
        rfic_stats t = (rfic_stats s)\<lparr>sw_cmds_tx := sw_cmds_tx (rfic_stats s) + 1\<rparr>))) s"
  unfolding rf_send_swcmd_def set_rfic_def rf_raise_modem_irq_def
proof (intro wp_steps wp_ifI wp_fenced_down [OF assms] wp_take_down wp_copy_down wp_iowr_down
    wp_wait_down wp_answer_down, goal_cases)
  case 1
  then show ?case by simp
next
  case 2
  then show ?case by blast
next
  case (3 a ok rd st t)
  note f = bus_step_sess [OF 3(1)] bus_step_sess [OF 3(4)]
  show ?case
    by (rule exI [of _ rd]) (use f 3 in \<open>simp add: same_sess_def\<close>)
next
  case 4
  then show ?case by blast
next
  case 5
  then show ?case by blast
next
  case 6
  then show ?case by blast
next
  case 7
  then show ?case by blast
next
  case 8
  then show ?case by blast
next
  case (9 a ok rd st t x y z b r u c v)
  note f = bus_step_sess [OF 9(1)] bus_step_sess [OF 9(4)] bus_step_sess [OF 9(9)]
    bus_step_sess [OF 9(11)] bus_step_sess [OF 9(13)] bus_step_sess [OF 9(18)]
  let ?b = "rd @ cmd_ops 0 (sw_header s cmd @ args) @ [Wr (MsgUnitId ''LA9310_IRQ_MUX_MSG_UNIT'') 1] @
    (b @ c) @ [Wr SWCMD_STATUS (rf_status_free s)]"
  have run: "mailbox_run cmd args s ?b"
    unfolding mailbox_run_def
    using 9(6,7,8,15,16) f by (intro exI [of _ rd] exI [of _ st] exI [of _ "b @ c"]) (auto simp: answered_def)
  have same: "same_sess s v" and bus: "bus v = bus s @ ?b"
    using 9(16) f by (simp_all add: answered_def same_sess_def)
  have "r = - EBUSY \<and> rfic_stats v =
        (rfic_stats s)\<lparr>sw_cmds_timed_out := sw_cmds_timed_out (rfic_stats s) + 1\<rparr> \<or>
      rfic_stats v = (rfic_stats s)\<lparr>sw_cmds_tx := sw_cmds_tx (rfic_stats s) + 1\<rparr>"
    using 9(16) f by (simp add: answered_def)
  with run same bus show ?case
    by blast
qed

section \<open>A concrete session\<close>

text \<open>A session on a link that is up, with an armed pattern and an M4 that answers at once; \<open>dead\<close>
  says whether it has died.\<close>

definition sample_session :: "bool \<Rightarrow> sess_world" where
  "sample_session dead = tx_world.extend sample_tx
     (sess_world.fields (\<lambda>c. [c, 0, 0, 0, 0, 0, 0]) (\<lambda>t p g. [t, p, g]) 0 2 11 12 13 0 0 0
       (\<lambda>n. 0) (\<lambda>n. 0) \<lparr>sw_cmds_tx = 0, sw_cmds_timed_out = 0, sw_cmds_desc_busy = 0\<rparr>
       \<lparr>stream_word = 2, anchor_tick = 0, anchor_valid = False, tdd_period_chunks = 4, tdd_armed = True\<rparr>
       1 True 5 0 False False 1 1 dead 0 0 0 False)"

lemmas sample_session_defs = sample_session_def sample_tx_def tx_world.defs sess_world.defs

lemma swcmd_outcome_witness:
  "\<exists>r t b. run_state (rf_send_swcmd 11 [5]) (sample_session False) = (r, t) \<and>
     bus t = bus (sample_session False) @ b"
proof -
  have "fence_down (sample_session False)"
    by (simp add: sample_session_defs)
  from wp_run [OF swcmd_outcome [OF this, of 11 "[5]"]] show ?thesis
    by (cases "run_state (rf_send_swcmd 11 [5]) (sample_session False)") blast
qed

lemma stream_send_outcome_witness:
  "stream_word (session (snd (run_state (rfnm_la9310_stream_send 2) (sample_session False)))) = 2"
proof -
  have "fst (run_state (rfnm_la9310_stream_send 2) (sample_session False)) = 0"
    by (simp add: rfnm_la9310_stream_send_def rfnm_la9310_stream_send_locked_def stream_send_with_def
        send_word_def rfnm_rtc_armed_def rtc_ready_def rfnm_la9310_mmio_fenced_def raw_read_def tx_bit_def
        sample_session_defs)
  with stream_send_outcome [of 2 "sample_session False"] show ?thesis
    by (simp add: wp_iff_run tx_bit_def)
qed

lemma dead_session_leaves_pattern_witness:
  "\<exists>t. run_state (rfnm_restart_sm False 0) (sample_session True) = (0, t) \<and>
     rfnm_phy_gen_session_ok t \<and> tdd_armed (session t)"
proof -
  have "session_dead (sample_session True)" "tdd_armed (session (sample_session True))"
    by (simp_all add: sample_session_defs)
  from wp_run [OF dead_session_leaves_pattern [OF this, of False 0]] show ?thesis
    by (cases "run_state (rfnm_restart_sm False 0) (sample_session True)") auto
qed

end
