(* ===== verification/Apply.thy ===== *)
theory Apply
  imports Session
begin

text \<open>
  Applying a stream configuration: \<open>rfnm_la9310_stream\<close> of \<open>la9310rfnm/rfnm_lalib.c\<close> with the
  hard reset and the swap of the DSP image it drives (\<open>la9310rfnm/la9310_rfnm.c\<close>), the stream
  workers, the latency request and the scheduled form of the hard reset.

  The clock chip belongs to another driver: \<open>dcs_cache\<close> is the frequency it reports at the
  n-th question and \<open>dcs_supported\<close> the set of frequencies it can produce. \<open>left\<close> is the number of
  workers that have not exited when the wait of \<open>stop_sm\<close> ends, \<open>starts\<close> whether each
  worker thread could be created, \<open>reprobe_rc\<close> what the reprobe of the endpoint answers
  (its own model is in \<open>Reprobe\<close>); each is indexed by the number of the call. \<open>reprobes\<close> lists the frequencies
  of the reprobes that were started. The image registry is the component \<open>vw\<close>, with the
  model of \<open>Vspa_Registry\<close>.
\<close>

section \<open>State\<close>

record apply_world = sess_world +
  vw :: reg_world
  dcs_cache :: "nat \<Rightarrow> u32"
  dcs_supported :: "u64 \<Rightarrow> bool"
  env_calls :: nat
  left :: "nat \<Rightarrow> nat"
  starts :: "nat \<Rightarrow> nat"
  reprobe_rc :: "nat \<Rightarrow> int"
  quiesce_cb :: bool
  handoff_cb :: bool
  sm_workers :: nat
  sm_stop :: bool
  io_resets :: nat
  commanded_reset :: bool
  reprobes :: "u64 list"
  selected_dcs_freq :: u64
  dcs_reclock_cnt :: u32
  tx_slot_rate_hz :: u64
  anchor_step_ticks :: u32
  tx_was_on :: u8
  flushes :: "bool list"
  qos_held :: bool
  qos_requests :: nat

definition next_call :: "('a apply_world_scheme, nat) state" where
  "next_call = do {
     n \<leftarrow> gets env_calls;
     modify (\<lambda>s. s\<lparr>env_calls := n + 1\<rparr>);
     ret n
   }"

definition on_reg :: "(reg_world, 'r) state \<Rightarrow> ('a apply_world_scheme, 'r) state" where
  "on_reg m = State (\<lambda>s. case run_state m (vw s) of (r, v) \<Rightarrow> (r, s\<lparr>vw := v\<rparr>))"

section \<open>Workers and the latency request\<close>

definition stop_sm :: "('a apply_world_scheme, int) state" where
  "stop_sm = do {
     w \<leftarrow> gets sm_workers;
     if w = 0 then ret 0
     else do {
       modify (\<lambda>s. s\<lparr>sm_stop := True\<rparr>);
       n \<leftarrow> next_call;
       modify (\<lambda>s. s\<lparr>sm_workers := min w (left s n)\<rparr>);
       w \<leftarrow> gets sm_workers;
       if w \<noteq> 0 then ret (- ETIMEDOUT)
       else do { modify (\<lambda>s. s\<lparr>sm_stop := False\<rparr>); ret 0 }
     }
   }"

definition start_sm_work :: "('a apply_world_scheme, unit) state" where
  "start_sm_work = do {
     w \<leftarrow> gets sm_workers;
     if w \<noteq> 0 then ret ()
     else do {
       n \<leftarrow> next_call;
       modify (\<lambda>s. s\<lparr>sm_workers := min 3 (starts s n)\<rparr>)
     }
   }"

definition rfnm_cpu_qos_update :: "bool \<Rightarrow> ('a apply_world_scheme, unit) state" where
  "rfnm_cpu_qos_update streaming = do {
     held \<leftarrow> gets qos_held;
     if streaming \<and> \<not> held
     then do {
       modify (\<lambda>s. s\<lparr>qos_requests := qos_requests s + 1\<rparr>);
       modify (\<lambda>s. s\<lparr>qos_held := True\<rparr>)
     }
     else if \<not> streaming \<and> held
     then do {
       modify (\<lambda>s. s\<lparr>qos_requests := qos_requests s - 1\<rparr>);
       modify (\<lambda>s. s\<lparr>qos_held := False\<rparr>)
     }
     else ret ()
   }"

section \<open>Hard reset and image swap\<close>

definition reset_stream_io :: "('a apply_world_scheme, unit) state" where
  "reset_stream_io = modify (\<lambda>s. s\<lparr>io_resets := io_resets s + 1\<rparr>)"

definition hard_reprobe :: "u64 \<Rightarrow> ('a apply_world_scheme, int) state" where
  "hard_reprobe f = do {
     n \<leftarrow> next_call;
     modify (\<lambda>s. s\<lparr>reprobes := reprobes s @ [f]\<rparr>);
     gets (\<lambda>s. reprobe_rc s n)
   }"

definition reset_body :: "u64 \<Rightarrow> ('a apply_world_scheme, int) state" where
  "reset_body f = do {
     r \<leftarrow> stop_sm;
     if r \<noteq> 0 then ret r
     else do {
       reset_stream_io;
       r \<leftarrow> hard_reprobe f;
       if r \<noteq> 0 then ret r
       else do {
         reset_stream_io;
         rfnm_phy_gen_bump;
         modify (\<lambda>s. s\<lparr>session_phy_gen := phy_gen s\<rparr>);
         start_sm_work;
         ret 0
       }
     }
   }"

definition rfnm_hard_reset_la9310 :: "u64 \<Rightarrow> ('a apply_world_scheme, int) state" where
  "rfnm_hard_reset_la9310 f = do {
     if f = 0 then ret (- EINVAL)
     else do {
       modify (\<lambda>s. s\<lparr>commanded_reset := True\<rparr>);
       cb \<leftarrow> gets quiesce_cb;
       (if cb then rfnm_la9310_quiesce else ret ());
       r \<leftarrow> reset_body f;
       modify (\<lambda>s. s\<lparr>commanded_reset := False\<rparr>);
       ret r
     }
   }"

definition vspa_handoff :: "bool \<Rightarrow> ('a apply_world_scheme, unit) state" where
  "vspa_handoff on = do {
     cb \<leftarrow> gets handoff_cb;
     if cb then do { _ \<leftarrow> rfnm_lalib_vspa_handoff on; ret () } else ret ()
   }"

definition rfnm_vspa_kernel_swap :: "u32 \<Rightarrow> ('a apply_world_scheme, int) state" where
  "rfnm_vspa_kernel_swap required_caps = do {
     busy \<leftarrow> on_reg rfnm_vspa_core_busy;
     cb \<leftarrow> gets quiesce_cb;
     (if busy \<and> cb then rfnm_la9310_quiesce else ret ());
     r \<leftarrow> stop_sm;
     if r \<noteq> 0 then ret r
     else do {
       reset_stream_io;
       vspa_handoff True;
       r \<leftarrow> on_reg (rfnm_vspa_select_for required_caps);
       r \<leftarrow> (if r = 0 then on_reg rfnm_vspa_boot_selected else ret r);
       vspa_handoff False;
       reset_stream_io;
       start_sm_work;
       ret r
     }
   }"

section \<open>Applying a configuration\<close>

definition rfnm_tx_flush_staging :: "bool \<Rightarrow> ('a apply_world_scheme, unit) state" where
  "rfnm_tx_flush_staging scrub = modify (\<lambda>s. s\<lparr>flushes := flushes s @ [scrub]\<rparr>)"

text \<open>The first half: bring the clock and the image to what the plan needs. The result is the
  value the function returns early, or 0 to go on.\<close>

definition stream_reclock :: "rfnm_la9310_dcs_plan \<Rightarrow> ('a apply_world_scheme, int) state" where
  "stream_reclock p = do {
     let f = dcs_freq p;
     if f < RFNM_LA9310_DCS_MIN_HZ \<or> f > RFNM_LA9310_DCS_MAX_HZ then ret (- EINVAL)
     else do {
       ok \<leftarrow> gets (\<lambda>s. dcs_supported s f);
       if \<not> ok then ret (- EINVAL)
       else do {
         r \<leftarrow> on_reg (rfnm_vspa_select_for (rfnm_la9310_dcs_plan.caps p));
         if r \<noteq> 0 then ret r
         else do {
           r \<leftarrow> rfnm_hard_reset_la9310 f;
           if r \<noteq> 0 then ret r
           else do {
             modify (\<lambda>s. s\<lparr>selected_dcs_freq := f\<rparr>);
             set_session (\<lambda>v. v\<lparr>stream_word := 0\<rparr>);
             modify (\<lambda>s. s\<lparr>dcs_reclock_cnt := dcs_reclock_cnt s + 1\<rparr>);
             ret 0
           }
         }
       }
     }
   }"

definition stream_swap :: "rfnm_la9310_dcs_plan \<Rightarrow> ('a apply_world_scheme, int) state" where
  "stream_swap p = do {
     r \<leftarrow> rfnm_vspa_kernel_swap (rfnm_la9310_dcs_plan.caps p);
     r \<leftarrow> (if r \<noteq> 0
          then do {
            r \<leftarrow> on_reg (rfnm_vspa_select_for (rfnm_la9310_dcs_plan.caps p));
            if r = 0 then rfnm_hard_reset_la9310 (dcs_freq p) else ret r
          }
          else ret 0);
     if r \<noteq> 0 then ret r
     else do { set_session (\<lambda>v. v\<lparr>stream_word := 0\<rparr>); ret 0 }
   }"

text \<open>The second half: publish the rates, flush on an edge of the transmitter, take or drop the
  latency request and send the word when it changed.\<close>

definition stream_finish :: "u64 \<Rightarrow> u8 \<Rightarrow> rx_lanes \<Rightarrow> rfnm_la9310_dcs_plan \<Rightarrow> ('a apply_world_scheme, int) state" where
  "stream_finish user tx rx p = do {
     let t = stream_config_word tx rx p;
     modify (\<lambda>s. s\<lparr>tx_slot_rate_hz := (if tx \<noteq> 0 then user div 256 else 0)\<rparr>);
     modify (\<lambda>s. s\<lparr>anchor_step_ticks :=
       push_bit (if rx_dcs p \<noteq> 0 \<or> tx_dcs p \<noteq> 0 then 1 else 0) 384\<rparr>);
     was \<leftarrow> gets tx_was_on;
     (if tx \<noteq> was then rfnm_tx_flush_staging (tx = 0) else ret ());
     modify (\<lambda>s. s\<lparr>tx_was_on := tx\<rparr>);
     rfnm_cpu_qos_update (tx \<noteq> 0 \<or> any_rx rx);
     w \<leftarrow> gets (\<lambda>s. stream_word (session s));
     if t \<noteq> w
     then do { r \<leftarrow> rfnm_la9310_stream_send t; if r \<noteq> 0 then ret r else ret 0 }
     else ret 0
   }"

definition rfnm_la9310_stream :: "u64 \<Rightarrow> u8 \<Rightarrow> rx_lanes \<Rightarrow> ('a apply_world_scheme, int) state" where
  "rfnm_la9310_stream user tx rx = do {
     n \<leftarrow> next_call;
     modify (\<lambda>s. s\<lparr>selected_dcs_freq := ucast (dcs_cache s n)\<rparr>);
     plan \<leftarrow> gets (\<lambda>s. rfnm_la9310_plan (vw s) user tx rx);
     (case plan of
        Inl e \<Rightarrow> ret e
      | Inr p \<Rightarrow> do {
          sel \<leftarrow> gets selected_dcs_freq;
          has \<leftarrow> gets (\<lambda>s. rfnm_vspa_running_has (rfnm_la9310_dcs_plan.caps p) (vw s));
          r \<leftarrow> (if dcs_freq p \<noteq> sel then stream_reclock p
               else if \<not> has then stream_swap p
               else ret 0);
          if r \<noteq> 0 then ret r else stream_finish user tx rx p
        })
   }"

section \<open>The session operations leave the rest alone\<close>

definition more_same :: "'a sess_world_scheme \<Rightarrow> 'a sess_world_scheme \<Rightarrow> bool" where
  "more_same s t \<longleftrightarrow> sess_world.more t = sess_world.more s \<and> phy_gen t = phy_gen s \<and>
     session_phy_gen t = session_phy_gen s \<and> session_dead t = session_dead s"

interpretation mr: run_rel more_same
  by unfold_locales (simp_all add: more_same_def)

named_theorems mr_rules "session operations"

lemma mr_prims [mr_rules]:
  "state_io_rel more_same rfnm_la9310_mmio_fenced" "state_io_rel more_same (raw_read a)"
  "state_io_rel more_same (raw_write a v)" "state_io_rel more_same (set_rfic f)"
  "state_io_rel more_same (set_session h)"
  "state_io_rel more_same (modify (\<lambda>s. s\<lparr>timer := m\<rparr>))"
  "state_io_rel more_same (modify (\<lambda>s. s\<lparr>vwin_cons := vwin_prod s\<rparr>))"
  "state_io_rel more_same (modify (\<lambda>s. s\<lparr>busy_valid := b\<rparr>))"
  "state_io_rel more_same (modify (\<lambda>s. s\<lparr>next_ns := d\<rparr>))"
  "state_io_rel more_same (modify (\<lambda>s. s\<lparr>etick := etick s + 1\<rparr>))"
  "state_io_rel more_same (modify (\<lambda>s. s\<lparr>stream_send_cnt := stream_send_cnt s + 1\<rparr>))"
  "state_io_rel more_same (modify (\<lambda>s. s\<lparr>streamed_gen := phy_gen s, streamed_gen_valid := True\<rparr>))"
  by (simp_all add: state_io_rel_def more_same_def rfnm_la9310_mmio_fenced_def raw_read_def
      raw_write_def set_rfic_def set_session_def)

lemma mr_access [mr_rules]:
  "state_io_rel more_same (iord32 a)" "state_io_rel more_same (iowr32 a v)"
  "state_io_rel more_same rf_raise_modem_irq" "state_io_rel more_same rf_free_cmd"
  "state_io_rel more_same rtc_ready" "state_io_rel more_same rfnm_rtc_doorbell"
  unfolding iord32_def iowr32_def rf_raise_modem_irq_def rf_free_cmd_def rtc_ready_def rfnm_rtc_doorbell_def
  by (intro mr.rel_rules mr_rules)+

lemma mr_ring [mr_rules]:
  "state_io_rel more_same rfnm_rtc_armed" "state_io_rel more_same rfnm_rtc_arm"
  "state_io_rel more_same rfnm_rtc_disarm" "state_io_rel more_same rfnm_vwin_reset"
  unfolding rfnm_rtc_armed_def rfnm_rtc_arm_def rfnm_rtc_disarm_def rfnm_vwin_reset_def
  by (intro mr.rel_rules mr_rules)+

lemma mr_copy [mr_rules]: "state_io_rel more_same (copy_words i ws)"
  by (induction ws arbitrary: i) (simp_all only: copy_words.simps, (intro mr.rel_rules mr_rules | assumption)+)

lemma mr_get_data [mr_rules]: "state_io_rel more_same (rf_swcmd_get_data i n)"
  by (induction n arbitrary: i)
    (simp_all only: rf_swcmd_get_data.simps, (intro mr.rel_rules mr_rules | assumption)+)

lemma mr_wait [mr_rules]: "state_io_rel more_same (swcmd_wait n d)"
  by (induction n) (simp_all only: swcmd_wait.simps, (intro mr.rel_rules mr_rules | assumption)+)

lemma mr_swcmd [mr_rules]: "state_io_rel more_same (rf_send_swcmd cmd args)"
  unfolding rf_send_swcmd_def swcmd_take_def swcmd_answer_def by (intro mr.rel_rules mr_rules)

lemma mr_epochs [mr_rules]: "state_io_rel more_same read_epochs"
  unfolding read_epochs_def by (intro mr.rel_rules mr_rules)

lemma mr_publish [mr_rules]: "state_io_rel more_same (publish_wait n wait_rx wait_tx pre)"
  by (induction n) (simp_all only: publish_wait.simps, (intro mr.rel_rules mr_rules | assumption)+)

lemma mr_sum:
  "(\<And>a. state_io_rel more_same (f a)) \<Longrightarrow> (\<And>b. state_io_rel more_same (g b)) \<Longrightarrow>
     state_io_rel more_same (case x of Inl a \<Rightarrow> f a | Inr b \<Rightarrow> g b)"
  by (cases x) simp_all

lemma mr_attempts [mr_rules]: "state_io_rel more_same (send_attempts n t wait_rx wait_tx pre)"
  by (induction n)
    (simp_all only: send_attempts.simps send_attempt_def, (intro mr.rel_rules mr_rules mr_sum | assumption)+)

lemma mr_apply [mr_rules]: "state_io_rel more_same (after_apply t)"
  unfolding after_apply_def by (intro mr.rel_rules mr_rules)

lemma mr_send_with:
  "(\<And>x. state_io_rel more_same (init x)) \<Longrightarrow> state_io_rel more_same (stream_send_with init t force)"
  unfolding stream_send_with_def send_word_def by (intro mr.rel_rules mr_rules)

lemma mr_send [mr_rules]:
  "state_io_rel more_same (stream_send_plain t force)"
  "state_io_rel more_same (rfnm_la9310_stream_send_locked t force)"
  "state_io_rel more_same (rfnm_la9310_stream_send t)"
proof -
  show plain: "state_io_rel more_same (stream_send_plain t force)" for t force
    unfolding stream_send_plain_def by (intro mr_send_with mr.rel_rules)
  show locked: "state_io_rel more_same (rfnm_la9310_stream_send_locked t force)" for t force
    unfolding rfnm_la9310_stream_send_locked_def rfnm_gen_tx_init_cycle_def
    by (intro mr_send_with mr.rel_rules plain)
  show "state_io_rel more_same (rfnm_la9310_stream_send t)"
    unfolding rfnm_la9310_stream_send_def by (rule locked)
qed

lemma mr_verbs [mr_rules]:
  "state_io_rel more_same rfnm_la9310_stream_reapply"
  "state_io_rel more_same (rfnm_lalib_vspa_handoff on)"
  "state_io_rel more_same (rfnm_la9310_tdd p d)" "state_io_rel more_same rfnm_la9310_quiesce"
  unfolding rfnm_la9310_stream_reapply_def rfnm_lalib_vspa_handoff_def rfnm_la9310_tdd_def
    rfnm_la9310_quiesce_def
  by (intro mr.rel_rules mr_rules)+

section \<open>Frames of the reset and the swap\<close>

definition same_apply :: "'a apply_world_scheme \<Rightarrow> 'a apply_world_scheme \<Rightarrow> bool" where
  "same_apply s t \<longleftrightarrow> dcs_cache t = dcs_cache s \<and> dcs_supported t = dcs_supported s \<and>
     selected_dcs_freq t = selected_dcs_freq s \<and> tx_was_on t = tx_was_on s \<and>
     qos_held t = qos_held s \<and> qos_requests t = qos_requests s \<and> quiesce_cb t = quiesce_cb s \<and>
     handoff_cb t = handoff_cb s \<and> reprobes t = reprobes s"

interpretation sa: run_rel same_apply
  by unfold_locales (simp_all add: same_apply_def)

lemma more_same_apply:
  assumes "more_same s t"
  shows "same_apply s t" "vw t = vw s" "sm_workers t = sm_workers s"
proof -
  have "apply_world.more t = apply_world.more s \<and> same_apply s t \<and> vw t = vw s \<and> sm_workers t = sm_workers s"
    using assms by (cases s; cases t) (simp add: more_same_def same_apply_def)
  then show "same_apply s t" "vw t = vw s" "sm_workers t = sm_workers s"
    by simp_all
qed

lemma sa_session: "state_io_rel more_same m \<Longrightarrow> state_io_rel same_apply m"
  unfolding state_io_rel_def by (blast intro: more_same_apply)

named_theorems sa_rules "operations that keep the clock, the latency request and the reprobes"

lemmas sa_mr [sa_rules] = mr_rules [THEN sa_session]

lemma sa_prims [sa_rules]:
  "state_io_rel same_apply next_call" "state_io_rel same_apply stop_sm"
  "state_io_rel same_apply start_sm_work" "state_io_rel same_apply (on_reg m)"
  "state_io_rel same_apply reset_stream_io" "state_io_rel same_apply rfnm_phy_gen_bump"
  "state_io_rel same_apply (modify (\<lambda>s. s\<lparr>session_phy_gen := phy_gen s\<rparr>))"
  "state_io_rel same_apply (modify (\<lambda>s. s\<lparr>commanded_reset := b\<rparr>))"
  by (auto simp: state_io_rel_def same_apply_def next_call_def stop_sm_def start_sm_work_def on_reg_def
      reset_stream_io_def rfnm_phy_gen_bump_def split: prod.splits)

lemma sa_handoff [sa_rules]: "state_io_rel same_apply (vspa_handoff on)"
  unfolding vspa_handoff_def by (intro sa.rel_rules sa_rules)

lemma sa_swap [sa_rules]: "state_io_rel same_apply (rfnm_vspa_kernel_swap c)"
  unfolding rfnm_vspa_kernel_swap_def by (intro sa.rel_rules sa_rules)

lemma wp_apply: "state_io_rel same_apply m \<Longrightarrow> (\<And>r t. same_apply s t \<Longrightarrow> Q r t) \<Longrightarrow> wp m Q s"
  by (rule wp_mono [OF sa.rel_wp])

lemma wp_session:
  "wp m (\<lambda>r t. P r t) s \<Longrightarrow> state_io_rel more_same m \<Longrightarrow>
     (\<And>r t. P r t \<Longrightarrow> more_same s t \<Longrightarrow> Q r t) \<Longrightarrow> wp m Q s"
  by (rule wp_mono [OF wp_conj [OF _ mr.rel_wp]]) auto

lemma wp_stop_sm: "wp stop_sm (\<lambda>r t. same_apply s t \<and> session t = session s \<and> phy_gen t = phy_gen s \<and>
   (r = 0 \<longrightarrow> sm_workers t = 0) \<and> (r \<noteq> 0 \<longrightarrow> r = - ETIMEDOUT \<and> sm_workers t \<noteq> 0)) s"
  by (simp add: stop_sm_def next_call_def wp_eqs same_apply_def errno_defs)

definition reset_post :: "u64 \<Rightarrow> int \<Rightarrow> 'a apply_world_scheme \<Rightarrow> 'a apply_world_scheme \<Rightarrow> bool" where
  "reset_post f r s t \<longleftrightarrow> same_apply s (t\<lparr>reprobes := reprobes s\<rparr>) \<and>
     (if r = 0 then reprobes t = reprobes s @ [f] \<and> phy_gen t = phy_gen s + 1 \<and>
        session_phy_gen t = phy_gen t
      else phy_gen t = phy_gen s \<and>
        (reprobes t = reprobes s \<or> reprobes t = reprobes s @ [f] \<and> sm_workers t = 0))"

lemma wp_reset_body:
  "wp (reset_body f) (\<lambda>r t. reset_post f r s t \<and> session t = session s) s"
  by (simp add: reset_body_def stop_sm_def next_call_def reset_stream_io_def hard_reprobe_def
      rfnm_phy_gen_bump_def start_sm_work_def wp_eqs reset_post_def same_apply_def errno_defs)

lemma reset_post_trans:
  "same_apply s a \<Longrightarrow> phy_gen a = phy_gen s \<Longrightarrow> reset_post f r a t \<Longrightarrow> reset_post f r s t"
  by (auto simp: reset_post_def same_apply_def split: if_splits)

definition hard_reset_post :: "u64 \<Rightarrow> int \<Rightarrow> 'a apply_world_scheme \<Rightarrow> 'a apply_world_scheme \<Rightarrow> bool" where
  "hard_reset_post f r s t \<longleftrightarrow>
     (if f = 0 then r = - EINVAL \<and> t = s
      else reset_post f r s t \<and> \<not> commanded_reset t \<and> (quiesce_cb s \<longrightarrow> stream_word (session t) = 0))"

lemma wp_hard_reset: "wp (rfnm_hard_reset_la9310 f) (\<lambda>r t. hard_reset_post f r s t) s"
proof (cases "f = 0")
  case True
  then show ?thesis by (simp add: rfnm_hard_reset_la9310_def wp_eqs hard_reset_post_def)
next
  case False
  let ?s = "s\<lparr>commanded_reset := True\<rparr>"
  have fin: "hard_reset_post f r s (t\<lparr>commanded_reset := False\<rparr>)"
    if "reset_post f r a t" "session t = session a" "same_apply ?s a" "phy_gen a = phy_gen s"
      "quiesce_cb s \<longrightarrow> stream_word (session a) = 0" for a t r
    using that False by (auto simp: hard_reset_post_def reset_post_def same_apply_def split: if_splits)
  have stage: "wp (if cb then rfnm_la9310_quiesce else ret ())
     (\<lambda>_ a. same_apply ?s a \<and> phy_gen a = phy_gen s \<and> (cb \<longrightarrow> stream_word (session a) = 0)) ?s" for cb
  proof (intro wp_ifI wp_steps wp_session [OF wp_quiesce mr_verbs(4)], goal_cases)
    case (1 r a)
    from more_same_apply(1) [OF 1(3)] 1 show ?case
      by (simp add: quiesced_def more_same_def)
  next
    case 2
    then show ?case by (simp add: sa.R_refl)
  qed
  show ?thesis
    unfolding rfnm_hard_reset_la9310_def if_not_P [OF False]
  proof (rule wp_bind [THEN iffD2], rule wp_modify [THEN iffD2], rule wp_bind [THEN iffD2],
      rule wp_gets [THEN iffD2], rule wp_bind [THEN iffD2], rule wp_mono [OF stage],
      intro wp_steps wp_mono [OF wp_reset_body], goal_cases)
    case (1 q a r t)
    then show ?case by (intro fin [of r a t]) simp_all
  qed
qed

section \<open>What applying a configuration does\<close>

definition clock_ok :: "'a apply_world_scheme \<Rightarrow> u64 \<Rightarrow> bool" where
  "clock_ok s f \<longleftrightarrow> RFNM_LA9310_DCS_MIN_HZ \<le> f \<and> f \<le> RFNM_LA9310_DCS_MAX_HZ \<and>
     (dcs_supported s f \<or> f = selected_dcs_freq s)"

text \<open>Both ways to change the clock or the image: at most one reprobe was started, on an
  admissible frequency, and on success the clock is the one of the plan.\<close>

definition reclocked :: "rfnm_la9310_dcs_plan \<Rightarrow> int \<Rightarrow> 'a apply_world_scheme \<Rightarrow> 'a apply_world_scheme \<Rightarrow> bool" where
  "reclocked p r s t \<longleftrightarrow>
     (reprobes t = reprobes s \<or> reprobes t = reprobes s @ [dcs_freq p] \<and> clock_ok s (dcs_freq p)) \<and>
     (r = 0 \<longrightarrow> selected_dcs_freq t = dcs_freq p) \<and>
     tx_was_on t = tx_was_on s \<and> qos_held t = qos_held s \<and> qos_requests t = qos_requests s"

lemma wp_stream_reclock: "wp (stream_reclock p) (\<lambda>r t. reclocked p r s t) s"
  unfolding stream_reclock_def Let_def set_session_def
proof (intro wp_steps wp_ifI wp_apply [OF sa_prims(4)] wp_mono [OF wp_hard_reset], goal_cases)
  case 1
  then show ?case by (simp add: reclocked_def errno_defs)
next
  case 2
  then show ?case by (simp add: reclocked_def errno_defs)
next
  case 3
  then show ?case by (simp add: reclocked_def same_apply_def)
next
  case (4 r a q t)
  then show ?case
    by (auto simp: reclocked_def same_apply_def hard_reset_post_def reset_post_def clock_ok_def
        split: if_splits)
next
  case (5 r a q t)
  then show ?case
    by (auto simp: reclocked_def same_apply_def hard_reset_post_def reset_post_def clock_ok_def
        split: if_splits)
qed

lemma wp_stream_swap:
  assumes "selected_dcs_freq s = dcs_freq p" and "RFNM_LA9310_DCS_MIN_HZ \<le> dcs_freq p"
    and "dcs_freq p \<le> RFNM_LA9310_DCS_MAX_HZ"
  shows "wp (stream_swap p) (\<lambda>r t. reclocked p r s t) s"
  unfolding stream_swap_def set_session_def
proof (intro wp_steps wp_ifI wp_apply [OF sa_swap] wp_apply [OF sa_prims(4)] wp_mono [OF wp_hard_reset],
    goal_cases)
  case (1 r a q b x t)
  then show ?case using assms
    by (auto simp: reclocked_def same_apply_def hard_reset_post_def reset_post_def clock_ok_def
        split: if_splits)
next
  case (2 r a q b x t)
  then show ?case using assms
    by (auto simp: reclocked_def same_apply_def hard_reset_post_def reset_post_def clock_ok_def
        split: if_splits)
next
  case 3
  then show ?case using assms by (auto simp: reclocked_def same_apply_def)
next
  case 4
  then show ?case using assms by (auto simp: reclocked_def same_apply_def)
next
  case 5
  then show ?case using assms by (auto simp: reclocked_def same_apply_def)
next
  case 6
  then show ?case using assms by (auto simp: reclocked_def same_apply_def)
qed

definition qos_ok :: "'a apply_world_scheme \<Rightarrow> bool" where
  "qos_ok s \<longleftrightarrow> qos_requests s = (if qos_held s then 1 else 0)"

lemma wp_qos: "wp (rfnm_cpu_qos_update b) (\<lambda>_ t. qos_held t = b \<and> (qos_ok s \<longrightarrow> qos_ok t) \<and>
   reprobes t = reprobes s \<and> selected_dcs_freq t = selected_dcs_freq s \<and> tx_was_on t = tx_was_on s \<and>
   session t = session s) s"
  by (simp add: rfnm_cpu_qos_update_def wp_eqs qos_ok_def)

lemma window_bit_and: "drop_bit k (w OR push_bit 16 1) AND m = drop_bit k w AND m"
  if "\<And>i. bit m i \<Longrightarrow> k + i < 16" for w m :: u32
proof (rule bit_word_eqI)
  fix n
  show "bit (drop_bit k (w OR push_bit 16 1) AND m) n \<longleftrightarrow> bit (drop_bit k w AND m) n"
    using that [of n] by (simp only: bit_and_iff bit_or_iff bit_drop_bit_eq bit_push_bit_iff o_def) linarith
qed

lemma clock_state_window:
  "rfnm_la9310_get_clock_state (w OR push_bit 16 1) = rfnm_la9310_get_clock_state w"
proof -
  have b: "bit (1 :: u32) i \<Longrightarrow> i = 0" "bit (3 :: u32) i \<Longrightarrow> i < 2" for i
    using bit_mask_iff [of 2 i, where 'a = "32 word"] by (auto simp: bit_1_iff mask_eq_exp_minus_1)
  have d: "drop_bit k (w OR push_bit 16 1) AND 1 = drop_bit k w AND 1" if "k < 15" for k
    by (rule window_bit_and) (use that b in force)
  have d3: "drop_bit k (w OR push_bit 16 1) AND 3 = drop_bit k w AND 3" if "k < 14" for k
    by (rule window_bit_and) (use that b in force)
  show ?thesis
    unfolding rfnm_la9310_get_clock_state_def by (simp only: d d3)
qed

lemma clock_state_windowed:
  assumes "w \<in> windowed t"
  shows "rfnm_la9310_get_clock_state w = rfnm_la9310_get_clock_state t"
proof -
  from assms have "w = t \<or> w = t OR push_bit 16 1"
    by (simp only: windowed_def split: if_splits) blast+
  then show ?thesis
    using clock_state_window [of t] by (elim disjE) (simp_all only:)
qed

definition finished :: "u8 \<Rightarrow> rx_lanes \<Rightarrow> rfnm_la9310_dcs_plan \<Rightarrow> int \<Rightarrow>
    'a apply_world_scheme \<Rightarrow> 'a apply_world_scheme \<Rightarrow> bool" where
  "finished tx rx p r s t \<longleftrightarrow> reprobes t = reprobes s \<and> selected_dcs_freq t = selected_dcs_freq s \<and>
     (qos_ok s \<longrightarrow> qos_ok t) \<and> qos_held t = (tx \<noteq> 0 \<or> any_rx rx) \<and> tx_was_on t = tx \<and>
     (r = 0 \<longrightarrow> stream_word (session t) \<in> windowed (stream_config_word tx rx p))"

lemma windowed_self: "t \<in> windowed t"
  by (simp add: windowed_def)

lemma send_result_word: "send_result J t force 0 s u \<Longrightarrow> stream_word (session u) \<in> windowed t"
  by (auto simp: send_result_def word_result_def)

lemma wp_send_applied: "wp (rfnm_la9310_stream_send t) (\<lambda>r u. r = 0 \<longrightarrow> stream_word (session u) \<in> windowed t) s"
  unfolding rfnm_la9310_stream_send_def
  by (rule wp_mono [OF wp_send_locked]) (blast dest: send_result_word)

lemma finished_send:
  assumes "finished tx rx p 1 s a" and "same_apply a t"
    and "r = 0 \<longrightarrow> stream_word (session t) \<in> windowed (stream_config_word tx rx p)"
  shows "finished tx rx p r s t"
  using assms by (simp add: finished_def same_apply_def qos_ok_def)

lemma wp_stream_finish: "wp (stream_finish user tx rx p) (\<lambda>r t. finished tx rx p r s t) s"
proof -
  let ?pre = "\<lambda>a. finished tx rx p 1 s a"
  have tail: "wp (do {
       w \<leftarrow> gets (\<lambda>s. stream_word (session s));
       if stream_config_word tx rx p \<noteq> w
       then do { r \<leftarrow> rfnm_la9310_stream_send (stream_config_word tx rx p); if r \<noteq> 0 then ret r else ret 0 }
       else ret 0
     }) (\<lambda>r t. finished tx rx p r s t) a" if "?pre a" for a
  proof (intro wp_steps wp_ifI wp_session [OF wp_send_applied mr_send(3)], goal_cases)
    case (1 r t)
    with that show ?case by (blast intro: finished_send more_same_apply(1))
  next
    case (2 r t)
    with that show ?case by (auto intro!: finished_send [of tx rx p s a] more_same_apply(1))
  next
    case 3
    with that show ?case by (simp add: finished_def windowed_self)
  qed
  have pre: "?pre b" if "qos_held b = (tx \<noteq> 0 \<or> any_rx rx)" "qos_ok a \<longrightarrow> qos_ok b" "reprobes b = reprobes a"
    "selected_dcs_freq b = selected_dcs_freq a" "tx_was_on b = tx_was_on a"
    "qos_ok a = qos_ok s" "reprobes a = reprobes s" "selected_dcs_freq a = selected_dcs_freq s" "tx_was_on a = tx"
    for a b
    using that by (simp add: finished_def)
  show ?thesis
    unfolding stream_finish_def Let_def rfnm_tx_flush_staging_def
    by (intro wp_steps wp_ifI; rule wp_mono [OF wp_qos]; rule tail; elim conjE; rule pre; assumption?)
      (simp_all add: qos_ok_def)
qed

definition streamed :: "u64 \<Rightarrow> u8 \<Rightarrow> rx_lanes \<Rightarrow> int \<Rightarrow> 'a apply_world_scheme \<Rightarrow> 'a apply_world_scheme \<Rightarrow> bool" where
  "streamed user tx rx r s t \<longleftrightarrow>
     (reprobes t = reprobes s \<or> (\<exists>f. reprobes t = reprobes s @ [f] \<and>
        RFNM_LA9310_DCS_MIN_HZ \<le> f \<and> f \<le> RFNM_LA9310_DCS_MAX_HZ \<and>
        (dcs_supported s f \<or> f = ucast (dcs_cache s (env_calls s))))) \<and>
     (qos_ok s \<longrightarrow> qos_ok t) \<and>
     (r = 0 \<longrightarrow> (\<exists>p. rfnm_la9310_plan (vw s) user tx rx = Inr p \<and> selected_dcs_freq t = dcs_freq p \<and>
        stream_word (session t) \<in> windowed (stream_config_word tx rx p) \<and>
        qos_held t = (tx \<noteq> 0 \<or> any_rx rx) \<and> tx_was_on t = tx))"

lemma reclocked_streamed:
  assumes "reclocked p r s1 a" and "reprobes s1 = reprobes s" and "qos_ok s1 = qos_ok s"
    and "dcs_supported s1 = dcs_supported s" and "selected_dcs_freq s1 = ucast (dcs_cache s (env_calls s))"
    and "r \<noteq> 0"
  shows "streamed user tx rx r s a"
  using assms by (auto simp: reclocked_def streamed_def clock_ok_def qos_ok_def)

lemma finished_streamed:
  assumes "reclocked p 0 s1 a" and "reprobes s1 = reprobes s" and "qos_ok s1 = qos_ok s"
    and "dcs_supported s1 = dcs_supported s" and "selected_dcs_freq s1 = ucast (dcs_cache s (env_calls s))"
    and "finished tx rx p r a t" and "rfnm_la9310_plan (vw s) user tx rx = Inr p"
  shows "streamed user tx rx r s t"
  using assms by (auto simp: reclocked_def streamed_def clock_ok_def qos_ok_def finished_def)

lemma wp_stream: "wp (rfnm_la9310_stream user tx rx) (\<lambda>r t. streamed user tx rx r s t) s"
proof -
  let ?s = "s\<lparr>env_calls := env_calls s + 1, selected_dcs_freq := ucast (dcs_cache s (env_calls s))\<rparr>"
  have s1: "reprobes ?s = reprobes s" "qos_ok ?s = qos_ok s" "dcs_supported ?s = dcs_supported s"
    "selected_dcs_freq ?s = ucast (dcs_cache s (env_calls s))" "vw ?s = vw s"
    by (simp_all add: qos_ok_def)
  have main: "wp (do {
        sel \<leftarrow> gets selected_dcs_freq;
        has \<leftarrow> gets (\<lambda>s. rfnm_vspa_running_has (rfnm_la9310_dcs_plan.caps p) (vw s));
        r \<leftarrow> (if dcs_freq p \<noteq> sel then stream_reclock p else if \<not> has then stream_swap p else ret 0);
        if r \<noteq> 0 then ret r else stream_finish user tx rx p
      }) (\<lambda>r t. streamed user tx rx r s t) ?s"
    if plan: "rfnm_la9310_plan (vw s) user tx rx = Inr p" for p
  proof -
    have pc: "plan_consistent user tx rx p"
      using plan_shape [of user tx rx "vw s"] plan by simp
    have clock: "wp (if dcs_freq p \<noteq> selected_dcs_freq ?s then stream_reclock p
        else if \<not> rfnm_vspa_running_has (rfnm_la9310_dcs_plan.caps p) (vw ?s) then stream_swap p
        else ret 0) (\<lambda>r t. reclocked p r ?s t) ?s"
    proof (intro wp_ifI wp_stream_reclock wp_stream_swap wp_steps, goal_cases)
      case 4
      then show ?case by (simp add: reclocked_def)
    qed (use pc in \<open>simp_all add: plan_consistent_def\<close>)
    show ?thesis
      apply (intro wp_steps)
      apply (rule wp_mono [OF clock])
      apply (intro wp_steps wp_ifI wp_mono [OF wp_stream_finish])
      apply (erule reclocked_streamed [OF _ s1(1-4)], assumption)
      apply (rule finished_streamed [OF _ s1(1-4) _ plan]; simp)
      done
  qed
  show ?thesis
  proof (cases "rfnm_la9310_plan (vw s) user tx rx")
    case (Inl e)
    then have "e \<noteq> 0"
      using plan_shape [of user tx rx "vw s"] by (simp add: errno_defs)
    with Inl show ?thesis
      by (simp add: rfnm_la9310_stream_def next_call_def wp_eqs streamed_def qos_ok_def)
  next
    case (Inr p)
    with main [OF Inr] show ?thesis
      by (simp add: rfnm_la9310_stream_def next_call_def wp_eqs)
  qed
qed


text \<open>
  C18: the reset of the endpoint. It is refused for the frequency 0, and with nothing
  touched. Otherwise it starts at most one reprobe, and none before the stream workers have
  exited. When it succeeds, the timer has a new generation and the session is bound to that one; when it
  fails, the generation is the old one, and if the reprobe had begun no worker runs. The mark of a commanded reset is
  gone in either case.
\<close>

lemma hard_reset_outcome: "wp (rfnm_hard_reset_la9310 f) (\<lambda>r t. hard_reset_post f r s t) s"
  by (rule wp_hard_reset)

text \<open>
  C8: whatever a client asks for, applying it resets the endpoint at most once, and only
  towards a frequency in the validated window which the clock chip can produce or which it
  produces already; and the latency request stays paired with its flag, so that it is never added twice nor
  removed twice.
\<close>

lemma stream_reprobes_safe:
  "wp (rfnm_la9310_stream user tx rx) (\<lambda>r t.
     (reprobes t = reprobes s \<or> (\<exists>f. reprobes t = reprobes s @ [f] \<and>
        RFNM_LA9310_DCS_MIN_HZ \<le> f \<and> f \<le> RFNM_LA9310_DCS_MAX_HZ \<and>
        (dcs_supported s f \<or> f = ucast (dcs_cache s (env_calls s))))) \<and>
     (qos_ok s \<longrightarrow> qos_ok t)) s"
  by (rule wp_mono [OF wp_stream]) (auto simp: streamed_def)


section \<open>A concrete configuration\<close>

text \<open>An endpoint that runs a streaming image at 122.88 MHz and receives on the first channel at 240 kHz.\<close>

definition sample_apply :: apply_world where
  "sample_apply = sess_world.extend
     (sample_session False\<lparr>session := \<lparr>stream_word = 4610, anchor_tick = 0, anchor_valid = False,
        tdd_period_chunks = 4, tdd_armed = False\<rparr>\<rparr>)
     (apply_world.fields (sample_reg False [sample_entry ''apm.eld'' 3]\<lparr>running := 0\<rparr>) (\<lambda>n. 122880000)
       (\<lambda>f. True) 0 (\<lambda>n. 0) (\<lambda>n. 3) (\<lambda>n. 0) True True 3 False 0 False [] 122880000 0 0 384 0 [] False 0)"

lemma sample_apply_runs:
  "fst (run_state (rfnm_la9310_stream 240000 0 \<lparr>rx0 = 1, rx1 = 0, rx2 = 0, rx3 = 0\<rparr>) sample_apply) = 0"
proof -
  let ?rx = "\<lparr>rx0 = 1, rx1 = 0, rx2 = 0, rx3 = 0\<rparr> :: rx_lanes"
  let ?p = "\<lparr>dcs_freq = 122880000, rx_dcs = 1, rx_decimation = 8, tx_dcs = 0, tx_upsampling = 0, caps = 1\<rparr>"
  have "rx_ladder 240000 = Some (122880000, 1, 8)"
    using rx_ladder_choice [of 240000 9] by (simp add: rx_choice_def push_bit_eq_mult)
  then have p: "rfnm_la9310_plan s 240000 0 ?rx = Inr ?p" for s :: reg_world
    by (simp add: plan_rx_eq)
  have w: "stream_config_word 0 ?rx ?p = 4610"
    by (simp add: stream_config_word_def)
  have has: "rfnm_vspa_running_has 1 (sample_reg False [sample_entry ''apm.eld'' 3]\<lparr>running := 0\<rparr>)"
    by (simp add: rfnm_vspa_running_has_def rfnm_vspa_provides_def ent_caps_def sample_entry_def)
  show ?thesis
    by (simp add: rfnm_la9310_stream_def stream_finish_def Let_def next_call_def p w has sample_apply_def
        sample_session_defs apply_world.defs rfnm_cpu_qos_update_def any_rx_def)
qed


lemma stream_reprobes_safe_witness:
  "qos_ok (snd (run_state (rfnm_la9310_stream 240000 0 \<lparr>rx0 = 1, rx1 = 0, rx2 = 0, rx3 = 0\<rparr>) sample_apply))"
proof -
  have "qos_ok sample_apply"
    by (simp add: qos_ok_def sample_apply_def sample_session_defs apply_world.defs)
  with stream_reprobes_safe [of 240000 0 "\<lparr>rx0 = 1, rx1 = 0, rx2 = 0, rx3 = 0\<rparr>" sample_apply] show ?thesis
    by (simp add: wp_iff_run)
qed

end
