(* ===== verification/Phy_Time.thy ===== *)
theory Phy_Time
  imports Apply
begin

text \<open>
  The absolute time of \<open>la9310rfnm/la9310_rfnm.c\<close>: the extension of the 32-bit counter of the
  endpoint to 64 bits, the sampler that counts its wraps once a second and tells a wrap from a
  restart that nobody commanded, and the generation that makes ticks of different restarts
  incomparable.

  The sequence lock of the source is one atomic step here. The provider of the counter is
  \<open>rfnm_la9310_phytimer_now\<close> of \<open>Windows\<close>, the function to be called after a restart
  \<open>rfnm_lalib_phy_restart_notify\<close> of \<open>Session\<close>; \<open>ptmr_cb\<close> and \<open>restart_cb\<close> say whether the module
  that provides them has registered them.
\<close>

section \<open>The sampler and the clock\<close>

record phy_world = apply_world +
  ptmr_cb :: bool
  restart_cb :: bool
  stat_phy_wraps :: u32
  phy64_timer_armed :: bool

abbreviation RFNM_PHY64_MAX_STEP :: u32 where "RFNM_PHY64_MAX_STEP \<equiv> 491520000"

definition phy64_extend :: "u32 \<Rightarrow> 'a sess_world_scheme \<Rightarrow> u64" where
  "phy64_extend lo s =
     push_bit 32 (ucast (if phy64_valid s \<and> lo < phy64_last_lo s then phy64_wraps s + 1 else phy64_wraps s))
     OR ucast lo"

definition rfnm_phytimer_now64 :: "('a phy_world_scheme, u64) state" where
  "rfnm_phytimer_now64 = do {
     cb \<leftarrow> gets ptmr_cb;
     if \<not> cb then ret 0
     else do {
       lo \<leftarrow> rfnm_la9310_phytimer_now;
       gets (phy64_extend lo)
     }
   }"

text \<open>One sample; the result says that the counter has been restarted.\<close>

definition phy64_sample :: "u32 \<Rightarrow> ('a phy_world_scheme, bool) state" where
  "phy64_sample lo = do {
     valid \<leftarrow> gets phy64_valid;
     last \<leftarrow> gets phy64_last_lo;
     if \<not> valid then do {
       modify (\<lambda>s. s\<lparr>phy64_last_lo := lo, phy64_valid := True\<rparr>);
       ret False
     }
     else if lo < last then
       if lo - last > RFNM_PHY64_MAX_STEP then ret True
       else do {
         modify (\<lambda>s. s\<lparr>phy64_wraps := phy64_wraps s + 1\<rparr>);
         modify (\<lambda>s. s\<lparr>stat_phy_wraps := stat_phy_wraps s + 1\<rparr>);
         modify (\<lambda>s. s\<lparr>phy64_last_lo := lo\<rparr>);
         ret False
       }
     else do {
       modify (\<lambda>s. s\<lparr>phy64_last_lo := lo\<rparr>);
       ret False
     }
   }"

definition phy64_restarted :: "('a phy_world_scheme, unit) state" where
  "phy64_restarted = do {
     rfnm_phy_gen_bump;
     cb \<leftarrow> gets restart_cb;
     commanded \<leftarrow> gets commanded_reset;
     if cb \<and> \<not> commanded then rfnm_lalib_phy_restart_notify else ret ()
   }"

definition rfnm_phy64_timer_fn :: "('a phy_world_scheme, unit) state" where
  "rfnm_phy64_timer_fn = do {
     cb \<leftarrow> gets ptmr_cb;
     (if cb then do {
        lo \<leftarrow> rfnm_la9310_phytimer_now;
        restart \<leftarrow> phy64_sample lo;
        if restart then phy64_restarted else ret ()
      } else ret ());
     modify (\<lambda>s. s\<lparr>phy64_timer_armed := True\<rparr>)
   }"

section \<open>The extended counter\<close>

text \<open>\<open>tracks b L s\<close>: the last sample was taken at the true tick \<open>L\<close>, and the generation began
  after \<open>b\<close> wraps.\<close>

definition tracks :: "nat \<Rightarrow> nat \<Rightarrow> 'a sess_world_scheme \<Rightarrow> bool" where
  "tracks b L s \<longleftrightarrow> phy64_valid s \<and> phy64_last_lo s = of_nat L \<and> b \<le> L div 2 ^ 32 \<and>
     phy64_wraps s = of_nat (L div 2 ^ 32 - b)"

lemma unat_tick: "unat (of_nat n :: u32) = n mod 2 ^ 32"
  by (simp add: unat_of_nat)

lemma tick_less: "(of_nat T :: u32) < of_nat L \<longleftrightarrow> T mod 2 ^ 32 < L mod 2 ^ 32"
  by (simp add: word_less_nat_alt unat_tick)

lemma div_step:
  fixes L T N :: nat
  assumes "L \<le> T" and "T - L < N"
  shows "T div N = (if T mod N < L mod N then L div N + 1 else L div N)"
proof -
  obtain d where d: "T = L + d" "d < N"
    using assms by (metis le_add_diff_inverse)
  define q r where "q = L div N" and "r = L mod N"
  have L: "L = q * N + r" and r: "r < N"
    using d(2) by (simp_all add: q_def r_def)
  show ?thesis
  proof (cases "r + d < N")
    case True
    then have "T div N = q" "T mod N = r + d"
      by (simp_all add: d(1) L add.assoc)
    then show ?thesis
      by (simp add: q_def [symmetric] r_def [symmetric])
  next
    case False
    then obtain m where m: "r + d = N + m" "m < N"
      using d(2) r by (metis le_add_diff_inverse nat_add_left_cancel_less not_less add_strict_mono)
    then have "T = (q + 1) * N + m"
      by (simp add: d(1) L)
    then have "T div N = q + 1" "T mod N = m"
      using m(2) by (simp_all only: div_mult_self3 mod_mult_self3 div_less mod_less)
    moreover have "m < r"
      using m(1) d(2) by linarith
    ultimately show ?thesis
      by (simp add: q_def [symmetric] r_def [symmetric])
  qed
qed

lemma push_or_ucast: "push_bit 32 (ucast w) OR ucast v = (of_nat (unat w * 2 ^ 32 + unat v) :: u64)" for w v :: u32
proof -
  have "push_bit 32 (ucast w :: u64) OR ucast v = push_bit 32 (ucast w) + ucast v"
    by (rule disjunctive_add [symmetric]) (auto simp: bit_push_bit_iff bit_ucast_iff dest: bit_imp_le_length)
  then show ?thesis
    by (simp add: push_bit_eq_mult mult.commute)
qed

lemma mod_high:
  fixes q r N :: nat
  shows "(q mod N * N + r) mod (N * N) = (q * N + r) mod (N * N)"
proof -
  have "(q mod N * N + r + N * N * (q div N)) mod (N * N) = (q mod N * N + r) mod (N * N)"
    by simp
  moreover have "q mod N * N + r + N * N * (q div N) = (q mod N + N * (q div N)) * N + r"
    by (simp only: distrib_left distrib_right mult.assoc add.assoc mult.commute mult.left_commute add.commute add.left_commute)
  moreover have "q mod N + N * (q div N) = q"
    by simp
  ultimately show ?thesis
    by simp
qed

lemma of_nat_high: "(of_nat (q mod 2 ^ 32 * 2 ^ 32 + r) :: u64) = of_nat (q * 2 ^ 32 + r)"
proof -
  have e: "(2 :: nat) ^ LENGTH(64) = 2 ^ 32 * 2 ^ 32"
    by simp
  show ?thesis
    unfolding word_unat_eq_iff unat_of_nat e by (rule mod_high)
qed

lemma wraps_step:
  assumes "tracks b L s" and "L \<le> T" and "T - L < 2 ^ 32"
  shows "(if (of_nat T :: u32) < phy64_last_lo s then phy64_wraps s + 1 else phy64_wraps s) =
     of_nat (T div 2 ^ 32 - b)" and "b \<le> T div 2 ^ 32"
  using assms div_step [OF assms(2,3)] unfolding tracks_def
  by (auto simp: tick_less Suc_diff_le)

lemma tracks_extend:
  assumes "tracks b L s" and "L \<le> T" and "T - L < 2 ^ 32"
  shows "phy64_extend (of_nat T) s = of_nat (T - b * 2 ^ 32)"
proof -
  have v: "phy64_valid s"
    using assms(1) by (simp add: tracks_def)
  have "phy64_extend (of_nat T) s =
     push_bit 32 (ucast (of_nat (T div 2 ^ 32 - b) :: u32)) OR ucast (of_nat T :: u32)"
    using wraps_step(1) [OF assms] v by (simp only: phy64_extend_def simp_thms)
  also have "\<dots> = of_nat ((T div 2 ^ 32 - b) mod 2 ^ 32 * 2 ^ 32 + T mod 2 ^ 32)"
    unfolding push_or_ucast unat_tick ..
  also have "\<dots> = of_nat ((T div 2 ^ 32 - b) * 2 ^ 32 + T mod 2 ^ 32)"
    by (rule of_nat_high)
  also have "(T div 2 ^ 32 - b) * 2 ^ 32 + T mod 2 ^ 32 = T - b * 2 ^ 32"
  proof -
    have "(T div 2 ^ 32) * 2 ^ 32 + T mod 2 ^ 32 = T" "b * 2 ^ 32 \<le> (T div 2 ^ 32) * 2 ^ 32"
      using wraps_step(2) [OF assms] by (simp_all only: div_mult_mod_eq mult_le_mono1)
    then show ?thesis
      by (simp only: diff_mult_distrib)
  qed
  finally show ?thesis .
qed


section \<open>A sample\<close>

lemma tick_gap:
  assumes "L \<le> T" and "T - L < 2 ^ 32"
  shows "RFNM_PHY64_MAX_STEP < (of_nat T :: u32) - of_nat L \<longleftrightarrow> 491520000 < T - L"
proof -
  have "(of_nat T :: u32) - of_nat L = of_nat (T - L)"
    using assms(1) by simp
  then show ?thesis
    using assms(2) by (simp only: word_less_nat_alt unat_tick) simp
qed

lemma sample_valid:
  assumes "phy64_valid s"
  shows "run_state (phy64_sample lo) s =
     (if lo < phy64_last_lo s \<and> RFNM_PHY64_MAX_STEP < lo - phy64_last_lo s then (True, s)
      else (False, s\<lparr>phy64_last_lo := lo,
        phy64_wraps := (if lo < phy64_last_lo s then phy64_wraps s + 1 else phy64_wraps s),
        stat_phy_wraps := (if lo < phy64_last_lo s then stat_phy_wraps s + 1 else stat_phy_wraps s)\<rparr>))"
  using assms by (simp add: phy64_sample_def)

lemma tracks_sample:
  assumes "tracks b L s" and "L \<le> T" and "T - L \<le> 491520000"
  shows "wp (phy64_sample (of_nat T)) (\<lambda>r t. \<not> r \<and> tracks b T t \<and> phy_gen t = phy_gen s \<and> ptmr_cb t = ptmr_cb s) s"
proof -
  have lt: "T - L < 2 ^ 32"
    using assms(3) by simp
  have v: "phy64_valid s" "phy64_last_lo s = of_nat L"
    using assms(1) by (simp_all add: tracks_def)
  have "\<not> RFNM_PHY64_MAX_STEP < (of_nat T :: u32) - of_nat L"
    using tick_gap [OF assms(2) lt] assms(3) by simp
  then show ?thesis
    using wraps_step [OF assms(1,2) lt] v by (simp add: wp_iff_run sample_valid tracks_def)
qed

definition same_time :: "'a phy_world_scheme \<Rightarrow> 'a phy_world_scheme \<Rightarrow> bool" where
  "same_time s t \<longleftrightarrow> phy64_wraps t = phy64_wraps s \<and> phy64_last_lo t = phy64_last_lo s \<and>
     phy64_valid t = phy64_valid s \<and> phy_gen t = phy_gen s \<and> ptmr_cb t = ptmr_cb s \<and>
     restart_cb t = restart_cb s \<and> commanded_reset t = commanded_reset s \<and> session t = session s \<and>
     session_phy_gen t = session_phy_gen s"

interpretation st: run_rel same_time
  by unfold_locales (simp_all add: same_time_def)

lemma same_time_now: "state_io_rel same_time rfnm_la9310_phytimer_now"
  by (auto simp: state_io_rel_def rfnm_la9310_phytimer_now_def same_time_def
      rfnm_la9310_mmio_fenced_def raw_write_def raw_read_def)

lemma same_time_tracks: "same_time s t \<Longrightarrow> tracks b L s \<Longrightarrow> tracks b L t"
  by (simp add: same_time_def tracks_def)

lemma same_time_extend: "same_time s t \<Longrightarrow> phy64_extend lo t = phy64_extend lo s"
  by (simp add: same_time_def phy64_extend_def)

lemma same_time_run: "run_state rfnm_la9310_phytimer_now s = (lo, t) \<Longrightarrow> same_time s t"
  using same_time_now [unfolded state_io_rel_def] by (metis snd_conv)

lemma run_now64:
  assumes "run_state rfnm_la9310_phytimer_now s = (lo, t)" and "ptmr_cb s"
  shows "run_state rfnm_phytimer_now64 s = (phy64_extend lo s, t)"
  using assms same_time_extend [OF same_time_run [OF assms(1)]] by (simp add: rfnm_phytimer_now64_def)

lemma wp_timer_fn:
  assumes "run_state rfnm_la9310_phytimer_now s = (lo, t)" and "ptmr_cb s"
    and "wp (phy64_sample lo) (\<lambda>r u. wp (if r then phy64_restarted else ret ())
      (\<lambda>_ u. Q () (u\<lparr>phy64_timer_armed := True\<rparr>)) u) t"
  shows "wp rfnm_phy64_timer_fn Q s"
  using assms by (simp add: rfnm_phy64_timer_fn_def wp_def split_beta)

section \<open>The clock over a generation\<close>

text \<open>\<open>clocked b g L s\<close>: the state \<open>s\<close> is reached in the generation \<open>g\<close> by a first sample, then by
  samples that are at most eight seconds of ticks apart, by reads of the clock and by whatever
  leaves the variables of the clock alone; the last sample was at the true tick \<open>L\<close>.\<close>

inductive clocked :: "nat \<Rightarrow> u32 \<Rightarrow> nat \<Rightarrow> 'a phy_world_scheme \<Rightarrow> bool" for b g where
  first: "\<not> phy64_valid s \<Longrightarrow> phy64_wraps s = 0 \<Longrightarrow> ptmr_cb s \<Longrightarrow> phy_gen s = g \<Longrightarrow> b = T div 2 ^ 32 \<Longrightarrow>
     run_state rfnm_la9310_phytimer_now s = (of_nat T, t) \<Longrightarrow>
     clocked b g T (snd (run_state rfnm_phy64_timer_fn s))"
| sample: "clocked b g L s \<Longrightarrow> run_state rfnm_la9310_phytimer_now s = (of_nat T, t) \<Longrightarrow>
     L \<le> T \<Longrightarrow> T - L \<le> 491520000 \<Longrightarrow> clocked b g T (snd (run_state rfnm_phy64_timer_fn s))"
| read: "clocked b g L s \<Longrightarrow> clocked b g L (snd (run_state rfnm_phytimer_now64 s))"
| other: "clocked b g L s \<Longrightarrow> same_time s t \<Longrightarrow> clocked b g L t"

lemma clocked_tracks: "clocked b g L s \<Longrightarrow> tracks b L s \<and> phy_gen s = g \<and> ptmr_cb s"
proof (induction rule: clocked.induct)
  case (first s T t)
  from same_time_run [OF first.hyps(6)] first.hyps
  have "wp (phy64_sample (of_nat T)) (\<lambda>r u. wp (if r then phy64_restarted else ret ())
      (\<lambda>_ u. tracks b T (u\<lparr>phy64_timer_armed := True\<rparr>) \<and> phy_gen (u\<lparr>phy64_timer_armed := True\<rparr>) = g \<and>
         ptmr_cb (u\<lparr>phy64_timer_armed := True\<rparr>)) u) t"
    by (simp add: phy64_sample_def wp_eqs same_time_def tracks_def)
  from wp_timer_fn [OF first.hyps(6,3) this] show ?case
    by (simp add: wp_iff_run)
next
  case (sample L s T t)
  have "tracks b L t" "phy_gen t = g" "ptmr_cb t"
    using same_time_run [OF sample.hyps(2)] sample.IH by (auto simp: same_time_def tracks_def)
  then have "wp (phy64_sample (of_nat T)) (\<lambda>r u. wp (if r then phy64_restarted else ret ())
      (\<lambda>_ u. tracks b T (u\<lparr>phy64_timer_armed := True\<rparr>) \<and> phy_gen (u\<lparr>phy64_timer_armed := True\<rparr>) = g \<and>
         ptmr_cb (u\<lparr>phy64_timer_armed := True\<rparr>)) u) t"
    by (intro wp_mono [OF tracks_sample [OF _ sample.hyps(3,4)]]) (auto simp: wp_eqs tracks_def)
  from wp_timer_fn [OF sample.hyps(2) _ this] sample.IH show ?case
    by (simp add: wp_iff_run)
next
  case (read L s)
  obtain lo t where r: "run_state rfnm_la9310_phytimer_now s = (lo, t)"
    by (cases "run_state rfnm_la9310_phytimer_now s")
  with read.IH same_time_run [OF r] show ?case
    by (auto simp: run_now64 same_time_def tracks_def)
next
  case (other L s t)
  then show ?case by (simp add: same_time_def tracks_def)
qed

text \<open>
  C11: the clock is right. In a generation whose samples are at most eight seconds apart, a
  reading that is made less than a wrap of the 32-bit counter after the last sample is
  the true tick, counted from the start of the generation, however often the counter has wrapped;
  and the generation has not moved.
\<close>

lemma now64_is_true_tick:
  assumes "clocked b g L s" and "run_state rfnm_la9310_phytimer_now s = (of_nat T, t)"
    and "L \<le> T" and "T - L < 2 ^ 32"
  shows "fst (run_state rfnm_phytimer_now64 s) = of_nat (T - b * 2 ^ 32) \<and> phy_gen s = g"
proof -
  have "tracks b L s" "phy_gen s = g" "ptmr_cb s"
    using clocked_tracks [OF assms(1)] by simp_all
  then show ?thesis
    using run_now64 [OF assms(2)] tracks_extend [OF _ assms(3,4)] by (simp only: fst_conv simp_thms)
qed


text \<open>A sampler that is late: after nine seconds without a sample a wrap is taken for a restart,
  although such a gap is shorter than half a wrap.\<close>

lemma late_sample_restarts:
  assumes "tracks b L s" and "T = L + 9 * 61440000" and "T mod 2 ^ 32 < L mod 2 ^ 32"
  shows "run_state (phy64_sample (of_nat T)) s = (True, s)"
proof -
  have v: "phy64_valid s" "phy64_last_lo s = of_nat L"
    using assms(1) by (simp_all add: tracks_def)
  have "RFNM_PHY64_MAX_STEP < (of_nat T :: u32) - of_nat L" "(of_nat T :: u32) < of_nat L"
    using tick_gap [of L T] tick_less [of T L] assms(2,3) by simp_all
  then show ?thesis
    using v by (simp add: sample_valid)
qed

section \<open>A concrete clock\<close>

text \<open>The counter is one tick before its wrap when it is sampled and has wrapped at the next look.\<close>

definition sample_phy :: phy_world where
  "sample_phy = apply_world.extend
     (sample_apply\<lparr>dev_read := (\<lambda>n a. if n < 3 then 0xFFFFFFFF else 4)\<rparr>)
     (phy_world.fields True True 0 False)"

lemmas sample_phy_defs = sample_phy_def sample_apply_def sample_session_defs apply_world.defs phy_world.defs

lemma sample_phy_now:
  "run_state rfnm_la9310_phytimer_now sample_phy =
     (0xFFFFFFFF, snd (run_state rfnm_la9310_phytimer_now sample_phy))"
  by (simp add: rfnm_la9310_phytimer_now_def rfnm_la9310_mmio_fenced_def raw_write_def raw_read_def
      sample_phy_defs)

lemma now64_is_true_tick_witness:
  "let s = snd (run_state rfnm_phy64_timer_fn sample_phy)
   in fst (run_state rfnm_phytimer_now64 s) = 4294967300 \<and> phy_gen s = 1"
proof -
  let ?s = "snd (run_state rfnm_phy64_timer_fn sample_phy)"
  have n: "run_state rfnm_la9310_phytimer_now sample_phy =
     (of_nat 4294967295, snd (run_state rfnm_la9310_phytimer_now sample_phy))"
    using sample_phy_now by simp
  have c: "clocked 0 1 4294967295 ?s"
    by (rule clocked.first [OF _ _ _ _ _ n]) (simp_all add: sample_phy_defs)
  have r: "run_state rfnm_la9310_phytimer_now ?s = (of_nat 4294967300, snd (run_state rfnm_la9310_phytimer_now ?s))"
    by (simp add: rfnm_phy64_timer_fn_def phy64_sample_def rfnm_la9310_phytimer_now_def
        rfnm_la9310_mmio_fenced_def raw_write_def raw_read_def sample_phy_defs)
  show ?thesis
    using now64_is_true_tick [OF c r] by (simp add: Let_def)
qed


end
