(* ===== verification/Local_Pool.thy ===== *)
theory Local_Pool
  imports Session "HOL-Library.Multiset"
begin

text \<open>
  The packet pools of the local data endpoint (\<open>la9310rfnm/la9310_rfnm.c\<close>): the four lists of
  pool elements, the operations the transports call on them, and the character device with
  its zero-copy calls.

  A pool element names a slot of one of the two packet rings. \<open>in_free\<close> is the list of
  \<open>rfnm_local_buffer_in\<close>, \<open>in_user\<close> that of \<open>rfnm_local_buffer_in_user\<close> (packets ready for the
  client), \<open>out_pend\<close> that of \<open>rfnm_local_buffer_out\<close> (packets waiting for the transmit consumer)
  and \<open>out_free\<close> that of \<open>rfnm_local_buffer_out_user\<close>. \<open>ele_id\<close> stands for the address of the
  element in memory: the code compares elements by it and never reuses one. Every operation
  holds the locks of the lists it changes; a critical section is one step here. The sizes
  of the rings, the packet layouts and the numbers of the calls are in headers outside the
  repository and are fields of the state: \<open>cc_of\<close> reads the packet counter out of a transmit
  packet.
\<close>

section \<open>State\<close>

definition EPERM :: int where "EPERM = 1"

record pool_ele =
  ele_id :: nat
  local_cc :: u64
  ele_addr :: u32
  born_kt :: u64
  enq_kt :: u64

record rx_packet =
  pk_magic :: u32
  pk_fmt :: u32
  pk_phytimer :: u32
  pk_cc :: u64
  pk_adc :: u32
  pk_flags :: u32
  pk_elems :: u32
  pk_buf :: "u8 list"

record local_cb =
  cb_head :: u32
  cb_buf :: "nat \<Rightarrow> u32"
  cb_size :: "nat \<Rightarrow> u32"
  cb_fmt :: "nat \<Rightarrow> u32"
  cb_cc :: "nat \<Rightarrow> u64"

record pool_world = sess_world +
  rx_slots :: u32
  tx_slots :: u32
  flag_discont :: u32
  fmt_packed12 :: u32
  fmt_cs16 :: u32
  cmd_rx_get :: u32
  cmd_rx_put :: u32
  cmd_tx_acq :: u32
  cmd_tx_sub :: u32
  cc_of :: "u8 list \<Rightarrow> u64"
  jiffies :: u64
  hz :: u64
  now_kt :: u64
  in_free :: "pool_ele list"
  in_user :: "pool_ele list"
  out_pend :: "pool_ele list"
  out_free :: "pool_ele list"
  zc_rx :: "pool_ele option list"
  zc_tx :: "pool_ele option list"
  rx_slot :: "u32 \<Rightarrow> rx_packet"
  tx_slot :: "u32 \<Rightarrow> u8 list"
  rx_queue_depth :: int
  rx_queue_bound :: int
  rx_culled :: u64
  last_consume :: u64
  canary :: u64
  last_addr :: u32
  openers :: int
  owner_tgid :: int
  open_refused :: u64
  local_rx_fmt :: u32
  local_rx_ok0 :: u64
  local_rx_err0 :: u64
  local_rx_err1 :: u64
  rx_local :: local_cb
  jump_discont_local :: u32
  local_deadship :: u64

text \<open>\<open>time_before\<close> of the kernel: the sign of the wrapped difference.\<close>

definition time_before :: "u64 \<Rightarrow> u64 \<Rightarrow> bool" where
  "time_before a b \<longleftrightarrow> sint (a - b) < 0"

definition stamp_consume :: "('a pool_world_scheme, unit) state" where
  "stamp_consume = modify (\<lambda>s. s\<lparr>last_consume := jiffies s\<rparr>)"

definition rfnm_local_rx_consumer_alive :: "('a pool_world_scheme, bool) state" where
  "rfnm_local_rx_consumer_alive = gets (\<lambda>s. time_before (jiffies s) (last_consume s + hz s))"

section \<open>Lists\<close>

text \<open>The head of a list, taken off it: \<open>list_first_entry_or_null\<close> and \<open>list_del\<close> under the lock.\<close>

definition pop_in_free :: "('a pool_world_scheme, pool_ele option) state" where
  "pop_in_free = do {
     es \<leftarrow> gets in_free;
     case es of [] \<Rightarrow> ret None | e # r \<Rightarrow> do { modify (\<lambda>s. s\<lparr>in_free := r\<rparr>); ret (Some e) }
   }"

definition pop_in_user :: "('a pool_world_scheme, pool_ele option) state" where
  "pop_in_user = do {
     es \<leftarrow> gets in_user;
     case es of [] \<Rightarrow> ret None | e # r \<Rightarrow> do { modify (\<lambda>s. s\<lparr>in_user := r\<rparr>); ret (Some e) }
   }"

definition pop_out_free :: "('a pool_world_scheme, pool_ele option) state" where
  "pop_out_free = do {
     es \<leftarrow> gets out_free;
     case es of [] \<Rightarrow> ret None | e # r \<Rightarrow> do { modify (\<lambda>s. s\<lparr>out_free := r\<rparr>); ret (Some e) }
   }"

text \<open>
  The insertion walks from the tail of the list to the first element that is not younger;
  the list is seen here from its tail.
\<close>

fun insert_rev :: "pool_ele \<Rightarrow> pool_ele list \<Rightarrow> pool_ele list" where
  "insert_rev e [] = [e]"
| "insert_rev e (c # r) = (if local_cc c \<le> local_cc e then e # c # r else c # insert_rev e r)"

definition insert_sorted :: "pool_ele \<Rightarrow> pool_ele list \<Rightarrow> pool_ele list" where
  "insert_sorted e es = rev (insert_rev e (rev es))"

definition rfnm_local_tx_insert_sorted :: "pool_ele \<Rightarrow> ('a pool_world_scheme, unit) state" where
  "rfnm_local_tx_insert_sorted e = do {
     t \<leftarrow> gets now_kt;
     modify (\<lambda>s. s\<lparr>out_pend := insert_sorted (e\<lparr>enq_kt := t\<rparr>) (out_pend s)\<rparr>)
   }"

section \<open>Transmit side\<close>

definition rfnm_queue_local_buffer_tx :: "u8 list \<Rightarrow> nat \<Rightarrow> u64 \<Rightarrow> ('a pool_world_scheme, int) state" where
  "rfnm_queue_local_buffer_tx buf len born = do {
     x \<leftarrow> pop_out_free;
     case x of None \<Rightarrow> ret (- ENOSPC)
     | Some e \<Rightarrow> do {
         modify (\<lambda>s. s\<lparr>tx_slot := (tx_slot s)(ele_addr e := take len buf @ drop len (tx_slot s (ele_addr e)))\<rparr>);
         cc \<leftarrow> gets (\<lambda>s. cc_of s (tx_slot s (ele_addr e)));
         rfnm_local_tx_insert_sorted (e\<lparr>local_cc := cc, born_kt := born\<rparr>);
         ret 0
       }
   }"

definition rfnm_claim_local_buffer_tx :: "('a pool_world_scheme, pool_ele option) state" where
  "rfnm_claim_local_buffer_tx = do {
     x \<leftarrow> pop_out_free;
     case x of None \<Rightarrow> ret None
     | Some e \<Rightarrow> do { t \<leftarrow> gets now_kt; ret (Some (e\<lparr>born_kt := t\<rparr>)) }
   }"

definition rfnm_commit_local_buffer_tx :: "pool_ele \<Rightarrow> ('a pool_world_scheme, unit) state" where
  "rfnm_commit_local_buffer_tx e = do {
     cc \<leftarrow> gets (\<lambda>s. cc_of s (tx_slot s (ele_addr e)));
     rfnm_local_tx_insert_sorted (e\<lparr>local_cc := cc\<rparr>)
   }"

definition rfnm_abort_local_buffer_tx :: "pool_ele \<Rightarrow> ('a pool_world_scheme, unit) state" where
  "rfnm_abort_local_buffer_tx e = modify (\<lambda>s. s\<lparr>out_free := out_free s @ [e]\<rparr>)"

section \<open>Receive side\<close>

definition rfnm_release_local_buffer_rx_ref :: "pool_ele \<Rightarrow> ('a pool_world_scheme, unit) state" where
  "rfnm_release_local_buffer_rx_ref e = modify (\<lambda>s. s\<lparr>in_free := in_free s @ [e]\<rparr>)"

definition rfnm_dequeue_local_buffer_rx :: "('a pool_world_scheme, int \<times> rx_packet option) state" where
  "rfnm_dequeue_local_buffer_rx = do {
     stamp_consume;
     x \<leftarrow> pop_in_user;
     case x of None \<Rightarrow> ret (- ENOSPC, None)
     | Some e \<Rightarrow> do {
         p \<leftarrow> gets (\<lambda>s. rx_slot s (ele_addr e));
         rfnm_release_local_buffer_rx_ref e;
         ret (0, Some p)
       }
   }"

definition rfnm_dequeue_local_buffer_rx_ref :: "('a pool_world_scheme, pool_ele option) state" where
  "rfnm_dequeue_local_buffer_rx_ref = do {
     stamp_consume;
     x \<leftarrow> pop_in_user;
     case x of None \<Rightarrow> ret None
     | Some e \<Rightarrow> do {
         modify (\<lambda>s. s\<lparr>rx_queue_depth := rx_queue_depth s - 1\<rparr>);
         ret (Some e)
       }
   }"

text \<open>
  The loop of \<open>rfnm_local_rx_cull_stale\<close> ends with the list at the latest: the recursion is on
  the packets that are ready.
\<close>

fun cull :: "int \<Rightarrow> int \<Rightarrow> pool_ele list \<Rightarrow> pool_ele list \<Rightarrow> nat \<Rightarrow>
    pool_ele list \<times> pool_ele list \<times> int \<times> nat" where
  "cull bound depth [] free n = ([], free, depth, n)"
| "cull bound depth (e # r) free n =
     (if depth > bound then cull bound (depth - 1) r (free @ [e]) (Suc n)
      else (e # r, free, depth, n))"

definition mark_discont :: "u32 \<Rightarrow> ('a pool_world_scheme, unit) state" where
  "mark_discont a = modify (\<lambda>s. s\<lparr>rx_slot := (rx_slot s)
     (a := (rx_slot s a)\<lparr>pk_flags := pk_flags (rx_slot s a) OR flag_discont s\<rparr>)\<rparr>)"

definition rfnm_local_rx_cull_stale :: "('a pool_world_scheme, unit) state" where
  "rfnm_local_rx_cull_stale = do {
     bound \<leftarrow> gets rx_queue_bound;
     if bound \<le> 0 then ret ()
     else do {
       p \<leftarrow> gets (\<lambda>s. cull bound (rx_queue_depth s) (in_user s) (in_free s) 0);
       case p of (u, f, d, n) \<Rightarrow> do {
         modify (\<lambda>s. s\<lparr>in_user := u, in_free := f, rx_queue_depth := d\<rparr>);
         if n = 0 then ret ()
         else do {
           (case u of [] \<Rightarrow> ret () | e # _ \<Rightarrow> mark_discont (ele_addr e));
           modify (\<lambda>s. s\<lparr>rx_culled := rx_culled s + of_nat n, last_addr := 0xFFFFFFFF\<rparr>)
         }
       }
     }
   }"

definition rfnm_local_buffer_rx_available :: "('a pool_world_scheme, bool) state" where
  "rfnm_local_buffer_rx_available = do { stamp_consume; gets (\<lambda>s. in_user s \<noteq> []) }"

definition rfnm_local_buffer_tx_free :: "('a pool_world_scheme, bool) state" where
  "rfnm_local_buffer_tx_free = gets (\<lambda>s. out_free s \<noteq> [])"

text \<open>
  The producer's end: the packet that the lane of converter \<open>adc\<close> has filled with \<open>pos\<close> samples is
  handed to the client, and the lane moves on to the slot at the head of the ring.
\<close>

definition set_local :: "(local_cb \<Rightarrow> local_cb) \<Rightarrow> ('a pool_world_scheme, unit) state" where
  "set_local f = modify (\<lambda>s. s\<lparr>rx_local := f (rx_local s)\<rparr>)"

definition ship_ele :: "nat \<Rightarrow> u32 \<Rightarrow> pool_ele \<Rightarrow> ('a pool_world_scheme, unit) state" where
  "ship_ele adc pos e = do {
     alive \<leftarrow> rfnm_local_rx_consumer_alive;
     (if alive then ret () else modify (\<lambda>s. s\<lparr>local_deadship := local_deadship s + 1\<rparr>));
     set_local (\<lambda>l. l\<lparr>cb_cc := (cb_cc l)(adc := cb_cc l adc + 1)\<rparr>);
     l \<leftarrow> gets rx_local;
     let a = cb_buf l adc;
     modify (\<lambda>s. s\<lparr>rx_slot := (rx_slot s)
       (a := (rx_slot s a)\<lparr>pk_elems := pos, pk_fmt := cb_fmt l adc, pk_cc := cb_cc l adc\<rparr>)\<rparr>);
     modify (\<lambda>s. s\<lparr>in_user := in_user s @ [e\<lparr>ele_addr := a\<rparr>], rx_queue_depth := rx_queue_depth s + 1\<rparr>);
     modify (\<lambda>s. s\<lparr>local_rx_ok0 := local_rx_ok0 s + 1\<rparr>)
   }"

definition local_ship :: "nat \<Rightarrow> u32 \<Rightarrow> ('a pool_world_scheme, unit) state" where
  "local_ship adc pos = do {
     x \<leftarrow> pop_in_free;
     (case x of None \<Rightarrow> modify (\<lambda>s. s\<lparr>local_rx_err0 := local_rx_err0 s + 1\<rparr>)
      | Some e \<Rightarrow> ship_ele adc pos e);
     n \<leftarrow> gets rx_slots;
     set_local (\<lambda>l. l\<lparr>cb_size := (cb_size l)(adc := 0), cb_buf := (cb_buf l)(adc := cb_head l),
       cb_head := (if cb_head l + 1 = n then 0 else cb_head l + 1)\<rparr>)
   }"

section \<open>The character device\<close>

definition xchg_rx :: "nat \<Rightarrow> pool_ele option \<Rightarrow> ('a pool_world_scheme, pool_ele option) state" where
  "xchg_rx i v = do {
     x \<leftarrow> gets (\<lambda>s. zc_rx s ! i);
     modify (\<lambda>s. s\<lparr>zc_rx := (zc_rx s)[i := v]\<rparr>);
     ret x
   }"

definition xchg_tx :: "nat \<Rightarrow> pool_ele option \<Rightarrow> ('a pool_world_scheme, pool_ele option) state" where
  "xchg_tx i v = do {
     x \<leftarrow> gets (\<lambda>s. zc_tx s ! i);
     modify (\<lambda>s. s\<lparr>zc_tx := (zc_tx s)[i := v]\<rparr>);
     ret x
   }"

definition poll_local :: "('a pool_world_scheme, bool \<times> bool) state" where
  "poll_local = do {
     stamp_consume;
     r \<leftarrow> gets (\<lambda>s. in_user s \<noteq> []);
     w \<leftarrow> gets (\<lambda>s. out_free s \<noteq> []);
     ret (r, w)
   }"

definition canary_step :: "u32 \<Rightarrow> ('a pool_world_scheme, unit) state" where
  "canary_step idx = do {
     last \<leftarrow> gets last_addr;
     (if last \<noteq> 0xFFFFFFFF then do {
        n \<leftarrow> gets rx_slots;
        let step = (idx + n - last) mod n;
        if step \<noteq> 1
        then modify (\<lambda>s. s\<lparr>canary := canary s + ucast (if step \<noteq> 0 then step - 1 else n - 1)\<rparr>)
        else ret ()
      }
      else ret ());
     modify (\<lambda>s. s\<lparr>last_addr := idx\<rparr>)
   }"

text \<open>\<open>fault\<close>: whether \<open>put_user\<close> fails. The index of the slot is the value written to the client.\<close>

definition local_rx_get :: "bool \<Rightarrow> ('a pool_world_scheme, int \<times> u32 option) state" where
  "local_rx_get fault = do {
     rfnm_local_rx_cull_stale;
     x \<leftarrow> rfnm_dequeue_local_buffer_rx_ref;
     case x of None \<Rightarrow> ret (- ENOSPC, None)
     | Some e \<Rightarrow> do {
         let idx = ele_addr e;
         canary_step idx;
         stale \<leftarrow> xchg_rx (unat idx) (Some e);
         (case stale of None \<Rightarrow> ret ()
          | Some old \<Rightarrow> do {
              rfnm_release_local_buffer_rx_ref old;
              modify (\<lambda>s. s\<lparr>local_rx_err1 := local_rx_err1 s + 1\<rparr>)
            });
         if fault then do {
           stale \<leftarrow> xchg_rx (unat idx) None;
           (case stale of None \<Rightarrow> ret () | Some old \<Rightarrow> rfnm_release_local_buffer_rx_ref old);
           ret (- EFAULT, None)
         }
         else ret (0, Some idx)
       }
   }"

definition local_rx_put :: "u64 \<Rightarrow> ('a pool_world_scheme, int) state" where
  "local_rx_put arg = do {
     n \<leftarrow> gets rx_slots;
     if ucast n \<le> arg then ret (- EINVAL)
     else do {
       x \<leftarrow> xchg_rx (unat arg) None;
       case x of None \<Rightarrow> ret (- EINVAL)
       | Some e \<Rightarrow> do { rfnm_release_local_buffer_rx_ref e; ret 0 }
     }
   }"

definition local_tx_acq :: "bool \<Rightarrow> ('a pool_world_scheme, int \<times> u32 option) state" where
  "local_tx_acq fault = do {
     x \<leftarrow> rfnm_claim_local_buffer_tx;
     case x of None \<Rightarrow> ret (- ENOSPC, None)
     | Some e \<Rightarrow> do {
         stamp_consume;
         let idx = ele_addr e;
         stale \<leftarrow> xchg_tx (unat idx) (Some e);
         (case stale of None \<Rightarrow> ret () | Some old \<Rightarrow> rfnm_abort_local_buffer_tx old);
         if fault then do {
           stale \<leftarrow> xchg_tx (unat idx) None;
           (case stale of None \<Rightarrow> ret () | Some old \<Rightarrow> rfnm_abort_local_buffer_tx old);
           ret (- EFAULT, None)
         }
         else ret (0, Some idx)
       }
   }"

definition local_tx_sub :: "u64 \<Rightarrow> ('a pool_world_scheme, int) state" where
  "local_tx_sub arg = do {
     n \<leftarrow> gets tx_slots;
     if ucast n \<le> arg then ret (- EINVAL)
     else do {
       x \<leftarrow> xchg_tx (unat arg) None;
       case x of None \<Rightarrow> ret (- EINVAL)
       | Some e \<Rightarrow> do { rfnm_commit_local_buffer_tx e; ret 0 }
     }
   }"

definition rfnm_dev_ioctl :: "u32 \<Rightarrow> u64 \<Rightarrow> bool \<Rightarrow> ('a pool_world_scheme, int \<times> u32 option) state" where
  "rfnm_dev_ioctl cmd0 arg fault = do {
     let cmd = cmd0 AND 0xff;
     get \<leftarrow> gets cmd_rx_get;
     put \<leftarrow> gets cmd_rx_put;
     acq \<leftarrow> gets cmd_tx_acq;
     sub \<leftarrow> gets cmd_tx_sub;
     ok \<leftarrow> gets rfnm_phy_gen_session_ok;
     if (cmd = get \<or> cmd = acq \<or> cmd = sub) \<and> \<not> ok then ret (- ENODEV, None)
     else if cmd = get then local_rx_get fault
     else if cmd = put then do { r \<leftarrow> local_rx_put arg; ret (r, None) }
     else if cmd = acq then local_tx_acq fault
     else if cmd = sub then do { r \<leftarrow> local_tx_sub arg; ret (r, None) }
     else ret (- ENOTTY, None)
   }"

text \<open>
  \<open>mmap\<close> of the two rings: what is mapped, as base address, length and whether the mapping may be
  made writable later. \<open>page\<close> is the size of a page; offsets count pages.
\<close>

record ring_map =
  map_rx_pgoff :: u64
  map_tx_pgoff :: u64
  map_rx_base :: u64
  map_tx_base :: u64
  map_rx_span :: nat
  map_tx_span :: nat
  map_page :: nat

definition page_align :: "nat \<Rightarrow> nat \<Rightarrow> nat" where
  "page_align p n = (n + p - 1) div p * p"

definition rfnm_dev_mmap :: "ring_map \<Rightarrow> u64 \<Rightarrow> nat \<Rightarrow> bool \<Rightarrow> int + u64 \<times> nat \<times> bool" where
  "rfnm_dev_mmap m pgoff len writable =
     (if pgoff = map_rx_pgoff m then
        if writable then Inl (- EPERM)
        else if page_align (map_page m) (map_rx_span m) < len then Inl (- EINVAL)
        else Inr (map_rx_base m, len, False)
      else if pgoff = map_tx_pgoff m then
        if page_align (map_page m) (map_tx_span m) < len then Inl (- EINVAL)
        else Inr (map_tx_base m, len, True)
      else Inl (- EINVAL))"

definition rfnm_dev_open :: "int \<Rightarrow> ('a pool_world_scheme, int) state" where
  "rfnm_dev_open tg = do {
     n \<leftarrow> gets openers;
     own \<leftarrow> gets owner_tgid;
     if 0 < n \<and> own \<noteq> tg
     then do { modify (\<lambda>s. s\<lparr>open_refused := open_refused s + 1\<rparr>); ret (- EBUSY) }
     else do {
       modify (\<lambda>s. s\<lparr>owner_tgid := tg\<rparr>);
       modify (\<lambda>s. s\<lparr>openers := openers s + 1\<rparr>);
       ret 0
     }
   }"

fun reclaim_rx :: "nat \<Rightarrow> nat \<Rightarrow> ('a pool_world_scheme, unit) state" where
  "reclaim_rx q 0 = ret ()"
| "reclaim_rx q (Suc n) = do {
     x \<leftarrow> xchg_rx q None;
     (case x of None \<Rightarrow> ret () | Some e \<Rightarrow> rfnm_release_local_buffer_rx_ref e);
     reclaim_rx (Suc q) n
   }"

fun reclaim_tx :: "nat \<Rightarrow> nat \<Rightarrow> ('a pool_world_scheme, unit) state" where
  "reclaim_tx q 0 = ret ()"
| "reclaim_tx q (Suc n) = do {
     x \<leftarrow> xchg_tx q None;
     (case x of None \<Rightarrow> ret () | Some e \<Rightarrow> rfnm_abort_local_buffer_tx e);
     reclaim_tx (Suc q) n
   }"

text \<open>
  What the last close of the device does before it flushes the staged transmit packets, and
  what \<open>rfnm_tx_flush_staging\<close> does to the pool.
\<close>

definition flush_pend :: "('a pool_world_scheme, nat) state" where
  "flush_pend = do {
     es \<leftarrow> gets out_pend;
     modify (\<lambda>s. s\<lparr>out_free := out_free s @ out_pend s, out_pend := []\<rparr>);
     ret (length es)
   }"

definition flush_user :: "('a pool_world_scheme, unit) state" where
  "flush_user = modify (\<lambda>s. s\<lparr>in_free := in_free s @ in_user s, in_user := []\<rparr>)"

text \<open>The transmit consumer gives the element at the head of the pending list back.\<close>

definition tx_return :: "('a pool_world_scheme, unit) state" where
  "tx_return = do {
     es \<leftarrow> gets out_pend;
     case es of [] \<Rightarrow> ret ()
     | e # r \<Rightarrow> modify (\<lambda>s. s\<lparr>out_pend := r, out_free := out_free s @ [e]\<rparr>)
   }"

text \<open>
  The lists as the module's initialisation fills them: the elements of the receive pool are not
  tied to a slot, those of the transmit pool are.
\<close>

definition fresh_ele :: "nat \<Rightarrow> u32 \<Rightarrow> pool_ele" where
  "fresh_ele i a = \<lparr>ele_id = i, local_cc = 0, ele_addr = a, born_kt = 0, enq_kt = 0\<rparr>"

definition pool_setup :: "('a pool_world_scheme, unit) state" where
  "pool_setup = modify (\<lambda>s. s\<lparr>
     in_free := map (\<lambda>q. fresh_ele q 0) [0..<unat (rx_slots s)], in_user := [],
     out_pend := [], out_free := map (\<lambda>q. fresh_ele q (of_nat q)) [0..<unat (tx_slots s)],
     zc_rx := replicate (unat (rx_slots s)) None, zc_tx := replicate (unat (tx_slots s)) None,
     rx_local := (rx_local s)\<lparr>cb_head := 0, cb_buf := (\<lambda>i. 0)\<rparr>\<rparr>)"

definition release_dec :: "('a pool_world_scheme, bool) state" where
  "release_dec = do {
     modify (\<lambda>s. s\<lparr>openers := openers s - 1\<rparr>);
     gets (\<lambda>s. openers s = 0)
   }"

definition release_reclaim :: "('a pool_world_scheme, unit) state" where
  "release_reclaim = do {
     modify (\<lambda>s. s\<lparr>owner_tgid := 0\<rparr>);
     nr \<leftarrow> gets rx_slots;
     reclaim_rx 0 (unat nr);
     nt \<leftarrow> gets tx_slots;
     reclaim_tx 0 (unat nt);
     modify (\<lambda>s. s\<lparr>local_rx_fmt := fmt_packed12 s\<rparr>)
   }"

definition release_last :: "('a pool_world_scheme, bool) state" where
  "release_last = do {
     z \<leftarrow> release_dec;
     (if z then release_reclaim else ret ());
     ret z
   }"

section \<open>Where the elements are\<close>

text \<open>
  The elements that a table of checked-out slots holds, and the account of each side: \<open>h\<close> are the
  elements that a caller holds between two operations.
\<close>

definition opt_ele :: "'e option \<Rightarrow> 'e multiset" where
  "opt_ele x = (case x of None \<Rightarrow> {#} | Some e \<Rightarrow> {#e#})"

definition table :: "'e option list \<Rightarrow> 'e multiset" where
  "table xs = sum_list (map opt_ele xs)"

definition pinned :: "pool_ele option list \<Rightarrow> bool" where
  "pinned xs \<longleftrightarrow> (\<forall>i < length xs. \<forall>e. xs ! i = Some e \<longrightarrow> unat (ele_addr e) = i)"

definition rx_all :: "pool_ele multiset \<Rightarrow> 'a pool_world_scheme \<Rightarrow> pool_ele multiset" where
  "rx_all h s = mset (in_free s) + mset (in_user s) + table (zc_rx s) + h"

definition tx_all :: "pool_ele multiset \<Rightarrow> 'a pool_world_scheme \<Rightarrow> pool_ele multiset" where
  "tx_all h s = mset (out_pend s) + mset (out_free s) + table (zc_tx s) + h"

definition lane_ok :: "'a pool_world_scheme \<Rightarrow> bool" where
  "lane_ok s \<longleftrightarrow> cb_head (rx_local s) < rx_slots s \<and> (\<forall>i. cb_buf (rx_local s) i < rx_slots s)"

definition rx_ok :: "pool_ele multiset \<Rightarrow> 'a pool_world_scheme \<Rightarrow> bool" where
  "rx_ok h s \<longleftrightarrow>
     image_mset ele_id (rx_all h s) = mset [0..<unat (rx_slots s)] \<and>
     length (zc_rx s) = unat (rx_slots s) \<and> pinned (zc_rx s) \<and>
     (\<forall>e \<in> set (in_user s). ele_addr e < rx_slots s) \<and> lane_ok s"

definition tx_ok :: "pool_ele multiset \<Rightarrow> 'a pool_world_scheme \<Rightarrow> bool" where
  "tx_ok h s \<longleftrightarrow>
     image_mset (\<lambda>e. unat (ele_addr e)) (tx_all h s) = mset [0..<unat (tx_slots s)] \<and>
     length (zc_tx s) = unat (tx_slots s) \<and> pinned (zc_tx s) \<and>
     sorted (map local_cc (out_pend s))"

definition pool_ok :: "pool_ele multiset \<Rightarrow> pool_ele multiset \<Rightarrow> 'a pool_world_scheme \<Rightarrow> bool" where
  "pool_ok hr ht s \<longleftrightarrow> rx_ok hr s \<and> tx_ok ht s"

lemma table_Nil [simp]: "table [] = {#}" and table_Cons: "table (x # xs) = opt_ele x + table xs"
  by (simp_all add: table_def)

lemma opt_ele_simps [simp]: "opt_ele None = {#}" "opt_ele (Some e) = {#e#}"
  by (simp_all add: opt_ele_def)

lemma table_update: "i < length xs \<Longrightarrow> table (xs[i := v]) + opt_ele (xs ! i) = table xs + opt_ele v"
proof (induction xs arbitrary: i)
  case (Cons x xs)
  then show ?case
    by (cases i) (simp_all add: table_Cons ac_simps)
qed simp

lemma table_replicate [simp]: "table (replicate n None) = {#}"
  by (induction n) (simp_all add: table_Cons)

lemma pinned_update:
  "pinned xs \<Longrightarrow> (\<And>e. v = Some e \<Longrightarrow> unat (ele_addr e) = i) \<Longrightarrow> pinned (xs[i := v])"
  unfolding pinned_def by (metis length_list_update nth_list_update_eq nth_list_update_neq)

lemma pinned_replicate [simp]: "pinned (replicate n None)"
  by (simp add: pinned_def)

section \<open>Sorted insertion\<close>

lemma mset_insert_rev [simp]: "mset (insert_rev e es) = add_mset e (mset es)"
  by (induction es) auto

lemma mset_insert_sorted [simp]: "mset (insert_sorted e es) = add_mset e (mset es)"
  by (simp add: insert_sorted_def)

lemma set_insert_rev [simp]: "set (insert_rev e es) = insert e (set es)"
  by (induction es) auto

text \<open>Seen from the tail the list descends.\<close>

lemma insert_rev_sorted:
  "sorted_wrt (\<ge>) (map local_cc es) \<Longrightarrow> sorted_wrt (\<ge>) (map local_cc (insert_rev e es))"
proof (induction es)
  case (Cons c es)
  then show ?case
    by (auto intro: order_trans less_imp_le)
qed simp

lemma sorted_insert_sorted:
  "sorted (map local_cc es) \<Longrightarrow> sorted (map local_cc (insert_sorted e es))"
  using insert_rev_sorted [of "rev es" e]
  by (simp add: insert_sorted_def rev_map [symmetric] sorted_wrt_rev)

lemma filter_insert_rev:
  "sorted_wrt (\<ge>) (map local_cc es) \<Longrightarrow>
     filter (\<lambda>x. local_cc x = k) (insert_rev e es) =
       (if local_cc e = k then e # filter (\<lambda>x. local_cc x = k) es else filter (\<lambda>x. local_cc x = k) es)"
proof (induction es)
  case (Cons c es)
  have "filter (\<lambda>x. local_cc x = k) es = []" if "local_cc c < k"
    using Cons.prems that by (auto simp: filter_empty_conv)
  with Cons show ?case by auto
qed simp

lemma filter_insert_sorted:
  assumes "sorted (map local_cc es)"
  shows "filter (\<lambda>x. local_cc x = k) (insert_sorted e es) =
    filter (\<lambda>x. local_cc x = k) es @ (if local_cc e = k then [e] else [])"
proof -
  have "sorted_wrt (\<ge>) (map local_cc (rev es))"
    using assms by (simp add: rev_map [symmetric] sorted_wrt_rev)
  from filter_insert_rev [OF this] show ?thesis
    by (simp add: insert_sorted_def rev_filter [symmetric])
qed

lemma insert_fold:
  "sorted (map local_cc (fold insert_sorted es [])) \<and>
   mset (fold insert_sorted es []) = mset es \<and>
   filter (\<lambda>x. local_cc x = k) (fold insert_sorted es []) = filter (\<lambda>x. local_cc x = k) es"
proof (induction es rule: rev_induct)
  case (snoc e es)
  then show ?case
    by (auto simp: sorted_insert_sorted filter_insert_sorted)
qed simp

end
