(* ===== verification/Pool_Steps.thy ===== *)
theory Pool_Steps
  imports Local_Pool
begin

text \<open>
  The invariant of the local packet pools: every operation of \<open>Local_Pool\<close> keeps every element
  in exactly one place, keeps each checked-out element in the table entry of its own slot and
  keeps the pending list in the order of the packet counters. The zero-copy table is an
  interface of its own, \<open>zero_copy\<close>, which both directions provide.
\<close>

section \<open>What the two accounts depend on\<close>

lemma wp_then:
  "wp m P s \<Longrightarrow> (\<And>r t. P r t \<Longrightarrow> wp (f r) Q t) \<Longrightarrow> wp (State_Monad.bind m f) Q s"
  by (simp add: wp_bind wp_mono)

lemma rx_ok_cong:
  "in_free t = in_free s \<Longrightarrow> in_user t = in_user s \<Longrightarrow> zc_rx t = zc_rx s \<Longrightarrow> rx_slots t = rx_slots s \<Longrightarrow>
     rx_local t = rx_local s \<Longrightarrow> rx_ok h t = rx_ok h s"
  by (simp add: rx_ok_def rx_all_def lane_ok_def)

lemma tx_ok_cong:
  "out_pend t = out_pend s \<Longrightarrow> out_free t = out_free s \<Longrightarrow> zc_tx t = zc_tx s \<Longrightarrow> tx_slots t = tx_slots s \<Longrightarrow>
     tx_ok h t = tx_ok h s"
  by (simp add: tx_ok_def tx_all_def)

text \<open>A change of state that neither account sees.\<close>

definition same_pool :: "'a pool_world_scheme \<Rightarrow> 'a pool_world_scheme \<Rightarrow> bool" where
  "same_pool s t \<longleftrightarrow> in_free t = in_free s \<and> in_user t = in_user s \<and> zc_rx t = zc_rx s \<and>
     rx_slots t = rx_slots s \<and> rx_local t = rx_local s \<and>
     out_pend t = out_pend s \<and> out_free t = out_free s \<and> zc_tx t = zc_tx s \<and> tx_slots t = tx_slots s"

lemma same_pool_ok: "same_pool s t \<Longrightarrow> pool_ok hr ht t = pool_ok hr ht s"
  unfolding pool_ok_def same_pool_def using rx_ok_cong [of t s hr] tx_ok_cong [of t s ht] by simp

lemma pool_modify:
  "pool_ok hr ht s \<Longrightarrow> same_pool s (f s) \<Longrightarrow> wp (modify f) (\<lambda>_. pool_ok hr ht) s"
  by (simp add: wp_eqs same_pool_ok)

lemma wp_stamp_consume: "pool_ok hr ht s \<Longrightarrow> wp stamp_consume (\<lambda>_. pool_ok hr ht) s"
  unfolding stamp_consume_def by (rule pool_modify) (simp_all add: same_pool_def)

lemma wp_mark_discont: "pool_ok hr ht s \<Longrightarrow> wp (mark_discont a) (\<lambda>_. pool_ok hr ht) s"
  unfolding mark_discont_def by (rule pool_modify) (simp_all add: same_pool_def)

lemma wp_canary_step: "pool_ok hr ht s \<Longrightarrow> wp (canary_step i) (\<lambda>_. pool_ok hr ht) s"
  unfolding canary_step_def Let_def
  by (intro wp_steps wp_ifI) (erule same_pool_ok [THEN iffD2, rotated], simp add: same_pool_def)+

section \<open>Lists\<close>

lemma wp_pop_in_free:
  "pool_ok hr ht s \<Longrightarrow> wp pop_in_free (\<lambda>r. pool_ok (hr + opt_ele r) ht) s"
  by (cases "in_free s") (simp_all add: pop_in_free_def wp_eqs pool_ok_def rx_ok_def tx_ok_def rx_all_def tx_all_def lane_ok_def)

lemma wp_pop_in_user:
  "pool_ok hr ht s \<Longrightarrow>
     wp pop_in_user (\<lambda>r t. pool_ok (hr + opt_ele r) ht t \<and> (\<forall>e. r = Some e \<longrightarrow> ele_addr e < rx_slots t)) s"
  by (cases "in_user s") (simp_all add: pop_in_user_def wp_eqs pool_ok_def rx_ok_def tx_ok_def rx_all_def tx_all_def lane_ok_def)

lemma wp_pop_out_free:
  "pool_ok hr ht s \<Longrightarrow> wp pop_out_free (\<lambda>r. pool_ok hr (ht + opt_ele r)) s"
  by (cases "out_free s") (simp_all add: pop_out_free_def wp_eqs pool_ok_def rx_ok_def tx_ok_def rx_all_def tx_all_def lane_ok_def)

lemma wp_release:
  "pool_ok (add_mset e hr) ht s \<Longrightarrow> wp (rfnm_release_local_buffer_rx_ref e) (\<lambda>_. pool_ok hr ht) s"
  by (simp add: rfnm_release_local_buffer_rx_ref_def wp_eqs pool_ok_def rx_ok_def tx_ok_def rx_all_def tx_all_def lane_ok_def)

lemma wp_abort:
  "pool_ok hr (add_mset e ht) s \<Longrightarrow> wp (rfnm_abort_local_buffer_tx e) (\<lambda>_. pool_ok hr ht) s"
  by (simp add: rfnm_abort_local_buffer_tx_def wp_eqs pool_ok_def rx_ok_def tx_ok_def rx_all_def tx_all_def lane_ok_def)

text \<open>An element that is held may have everything but its slot rewritten on the transmit side.\<close>

lemma tx_held_cong:
  "ele_addr e = ele_addr e' \<Longrightarrow> pool_ok hr (add_mset e ht) s \<Longrightarrow> pool_ok hr (add_mset e' ht) s"
  by (simp add: pool_ok_def tx_ok_def tx_all_def)

lemma wp_insert_sorted:
  "pool_ok hr (add_mset e ht) s \<Longrightarrow> wp (rfnm_local_tx_insert_sorted e) (\<lambda>_. pool_ok hr ht) s"
  by (simp add: rfnm_local_tx_insert_sorted_def wp_eqs pool_ok_def rx_ok_def tx_ok_def rx_all_def tx_all_def
      lane_ok_def sorted_insert_sorted)

lemma wp_commit:
  "pool_ok hr (add_mset e ht) s \<Longrightarrow> wp (rfnm_commit_local_buffer_tx e) (\<lambda>_. pool_ok hr ht) s"
  unfolding rfnm_commit_local_buffer_tx_def
  by (intro wp_steps wp_insert_sorted) (erule tx_held_cong [rotated], simp)

lemma wp_claim:
  "pool_ok hr ht s \<Longrightarrow> wp rfnm_claim_local_buffer_tx (\<lambda>r. pool_ok hr (ht + opt_ele r)) s"
  unfolding rfnm_claim_local_buffer_tx_def
  by (rule wp_then [OF wp_pop_out_free], assumption, intro wp_optionI wp_steps)
    (simp, simp, erule tx_held_cong [rotated], simp)

lemma wp_queue:
  "pool_ok hr ht s \<Longrightarrow> wp (rfnm_queue_local_buffer_tx buf len born) (\<lambda>_. pool_ok hr ht) s"
  unfolding rfnm_queue_local_buffer_tx_def
proof (rule wp_then [OF wp_pop_out_free], assumption, intro wp_optionI, goal_cases)
  case (2 r t e)
  have ok: "pool_ok hr (add_mset (e\<lparr>local_cc := x, born_kt := born\<rparr>) ht) (t\<lparr>tx_slot := m\<rparr>)" for x m
  proof -
    have "pool_ok hr (add_mset (e\<lparr>local_cc := x, born_kt := born\<rparr>) ht) t"
      by (rule tx_held_cong [of e]) (use 2 in simp_all)
    then show ?thesis
      by (subst same_pool_ok [of t]) (simp_all add: same_pool_def)
  qed
  show ?case
    by (intro wp_steps) (rule wp_mono [OF wp_insert_sorted [OF ok]], simp add: wp_eqs)
qed (simp add: wp_eqs)

lemma wp_dequeue_ref:
  "pool_ok hr ht s \<Longrightarrow> wp rfnm_dequeue_local_buffer_rx_ref
     (\<lambda>r t. pool_ok (hr + opt_ele r) ht t \<and> (\<forall>e. r = Some e \<longrightarrow> ele_addr e < rx_slots t)) s"
  unfolding rfnm_dequeue_local_buffer_rx_ref_def
proof (rule wp_then [OF wp_stamp_consume], assumption, rule wp_then [OF wp_pop_in_user], assumption,
    intro wp_optionI wp_steps, goal_cases)
  case (2 r t r' t' e)
  then show ?case
    using same_pool_ok [of t' "t'\<lparr>rx_queue_depth := rx_queue_depth t' - 1\<rparr>"] by (simp add: same_pool_def)
qed simp

lemma wp_dequeue:
  "pool_ok hr ht s \<Longrightarrow> wp rfnm_dequeue_local_buffer_rx (\<lambda>_. pool_ok hr ht) s"
  unfolding rfnm_dequeue_local_buffer_rx_def
  by (rule wp_then [OF wp_stamp_consume], assumption, rule wp_then [OF wp_pop_in_user], assumption,
      intro wp_optionI wp_steps) (auto intro!: wp_mono [OF wp_release] simp: wp_eqs)

lemma cull_keeps:
  "cull b d u f n = (u', f', d', n') \<Longrightarrow>
     mset u' + mset f' = mset u + mset f \<and> set u' \<subseteq> set u \<and> d' - int (length u') = d - int (length u)"
  by (induction b d u f n arbitrary: u' f' d' n' rule: cull.induct) (fastforce split: if_splits)+

lemma wp_cull:
  "pool_ok hr ht s \<Longrightarrow> wp rfnm_local_rx_cull_stale (\<lambda>_. pool_ok hr ht) s"
  unfolding rfnm_local_rx_cull_stale_def
proof (intro wp_steps wp_ifI, goal_cases)
  case 2
  obtain u f d n where c: "cull (rx_queue_bound s) (rx_queue_depth s) (in_user s) (in_free s) 0 = (u, f, d, n)"
    by (metis prod_cases4)
  let ?t = "s\<lparr>in_user := u, in_free := f, rx_queue_depth := d\<rparr>"
  have ok: "pool_ok hr ht ?t"
    using 2(1) cull_keeps [OF c]
    by (auto simp: pool_ok_def rx_ok_def tx_ok_def rx_all_def tx_all_def lane_ok_def ac_simps)
  have set2: "pool_ok hr ht (t\<lparr>rx_culled := x, last_addr := y\<rparr>) = pool_ok hr ht t" for t x y
    by (rule same_pool_ok) (simp add: same_pool_def)
  show ?case
    using ok by (cases u) (auto simp: c wp_eqs set2 intro!: wp_mono [OF wp_mark_discont])
qed (simp add: wp_eqs)

lemma wp_ship_ele:
  assumes "pool_ok (add_mset e hr) ht s"
  shows "wp (ship_ele adc pos e) (\<lambda>_. pool_ok hr ht) s"
  using assms unfolding ship_ele_def rfnm_local_rx_consumer_alive_def set_local_def Let_def
  by (simp add: wp_eqs pool_ok_def rx_ok_def tx_ok_def rx_all_def tx_all_def lane_ok_def)

lemma lane_advance:
  assumes "lane_ok s"
  shows "(if cb_head (rx_local s) + 1 = rx_slots s then 0 else cb_head (rx_local s) + 1) < rx_slots s"
proof -
  have h: "cb_head (rx_local s) < rx_slots s" using assms by (simp add: lane_ok_def)
  then have "cb_head (rx_local s) + 1 \<le> rx_slots s"
    by (rule inc_le)
  moreover have "0 < rx_slots s"
    using h by (metis word_gt_0 not_less_zero word_coorder.not_eq_extremum word_neq_0_conv word_not_simps(1))
  ultimately show ?thesis by (simp add: order_less_le)
qed

lemma wp_local_ship:
  assumes "pool_ok hr ht s"
  shows "wp (local_ship adc pos) (\<lambda>_. pool_ok hr ht) s"
  unfolding local_ship_def
proof (rule wp_then [OF wp_pop_in_free [OF assms]], rule wp_then [where P = "\<lambda>_. pool_ok hr ht"], goal_cases)
  case (1 r t)
  then show ?case
    by (cases r)
      (auto intro: wp_ship_ele simp: wp_eqs same_pool_ok [of t "t\<lparr>local_rx_err0 := local_rx_err0 t + 1\<rparr>"] same_pool_def)
next
  case (2 r t r' t')
  have adv: "(if cb_head (rx_local t') + 1 = rx_slots t' then 0 else cb_head (rx_local t') + 1) < rx_slots t'"
    using 2(2) lane_advance [of t'] by (simp add: pool_ok_def rx_ok_def)
  show ?case
    using 2(2) adv
    by (simp add: set_local_def wp_eqs pool_ok_def rx_ok_def tx_ok_def rx_all_def tx_all_def lane_ok_def)
qed

section \<open>The zero-copy table\<close>

text \<open>
  A table of checked-out elements is used through an exchange of one entry and an operation
  that gives an element back to its pool. \<open>inv h\<close> is the invariant while the elements \<open>h\<close> are held.
\<close>

locale zero_copy =
  fixes inv :: "pool_ele multiset \<Rightarrow> 's \<Rightarrow> bool"
    and entries :: "'s \<Rightarrow> nat"
    and xchg :: "nat \<Rightarrow> pool_ele option \<Rightarrow> ('s, pool_ele option) state"
    and give :: "pool_ele \<Rightarrow> ('s, unit) state"
  assumes xchg_law: "\<And>h i v s. inv (h + opt_ele v) s \<Longrightarrow> i < entries s \<Longrightarrow>
      (\<And>e. v = Some e \<Longrightarrow> unat (ele_addr e) = i) \<Longrightarrow>
      wp (xchg i v) (\<lambda>r t. inv (h + opt_ele r) t \<and> entries t = entries s) s"
    and give_law: "\<And>h e s. inv (add_mset e h) s \<Longrightarrow> wp (give e) (\<lambda>_ t. inv h t \<and> entries t = entries s) s"
begin

lemma give_opt:
  assumes "inv (h + opt_ele x) s"
  shows "wp (case x of None \<Rightarrow> ret () | Some e \<Rightarrow> give e) (\<lambda>_ t. inv h t \<and> entries t = entries s) s"
  using assms by (cases x) (auto simp: wp_eqs give_law)

lemma take_out:
  assumes "inv h s" and "i < entries s"
  shows "wp (xchg i None) (\<lambda>r t. inv (h + opt_ele r) t \<and> entries t = entries s) s"
  using xchg_law [of h None s i] assms by simp

lemma put_in:
  assumes "inv (add_mset e h) s" and "unat (ele_addr e) < entries s"
  shows "wp (xchg (unat (ele_addr e)) (Some e)) (\<lambda>r t. inv (h + opt_ele r) t \<and> entries t = entries s) s"
  using xchg_law [of h "Some e" s] assms by simp

lemma give_back:
  assumes "inv h s" and "i < entries s"
  shows "wp (do { x \<leftarrow> xchg i None; case x of None \<Rightarrow> ret () | Some e \<Rightarrow> give e })
    (\<lambda>_ t. inv h t \<and> entries t = entries s) s"
  by (simp add: wp_bind, rule wp_mono [OF take_out [OF assms]]) (auto intro!: wp_mono [OF give_opt])

end

abbreviation rx_entries :: "'a pool_world_scheme \<Rightarrow> nat" where
  "rx_entries s \<equiv> unat (rx_slots s)"

abbreviation tx_entries :: "'a pool_world_scheme \<Rightarrow> nat" where
  "tx_entries s \<equiv> unat (tx_slots s)"

interpretation rxz: zero_copy "\<lambda>h. pool_ok h ht" rx_entries xchg_rx rfnm_release_local_buffer_rx_ref
proof (unfold_locales, goal_cases)
  case (1 h i v s)
  then have "table ((zc_rx s)[i := v]) + opt_ele (zc_rx s ! i) = table (zc_rx s) + opt_ele v"
    "pinned ((zc_rx s)[i := v])"
    by (auto intro!: table_update pinned_update simp: pool_ok_def rx_ok_def)
  with 1(1) show ?case
    by (simp add: xchg_rx_def wp_eqs pool_ok_def rx_ok_def tx_ok_def rx_all_def tx_all_def lane_ok_def)
      (metis (no_types, lifting) image_mset_union union_assoc union_commute)
next
  case (2 h e s)
  show ?case
    by (rule wp_mono [OF wp_conj [OF wp_release [OF 2]]])
      (auto simp: rfnm_release_local_buffer_rx_ref_def wp_eqs)
qed

interpretation txz: zero_copy "\<lambda>h. pool_ok hr h" tx_entries xchg_tx rfnm_abort_local_buffer_tx
proof (unfold_locales, goal_cases)
  case (1 h i v s)
  then have "table ((zc_tx s)[i := v]) + opt_ele (zc_tx s ! i) = table (zc_tx s) + opt_ele v"
    "pinned ((zc_tx s)[i := v])"
    by (auto intro!: table_update pinned_update simp: pool_ok_def tx_ok_def)
  with 1(1) show ?case
    by (simp add: xchg_tx_def wp_eqs pool_ok_def rx_ok_def tx_ok_def rx_all_def tx_all_def lane_ok_def)
      (metis (no_types, lifting) image_mset_union union_assoc union_commute)
next
  case (2 h e s)
  show ?case
    by (rule wp_mono [OF wp_conj [OF wp_abort [OF 2]]])
      (auto simp: rfnm_abort_local_buffer_tx_def wp_eqs)
qed


section \<open>The character device\<close>

lemma unat_up: "unat (ucast (n :: u32) :: u64) = unat n"
proof -
  have "unat n < 2 ^ 64" using unsigned_less [of n, where ?'a = nat] by simp
  then show ?thesis by (simp add: unsigned_ucast_eq take_bit_nat_eq_self_iff)
qed

lemma canary_step_slots: "wp (canary_step i) (\<lambda>_ t. rx_slots t = rx_slots s) s"
  unfolding canary_step_def Let_def by (intro wp_steps wp_ifI) simp_all

lemma err1_ok: "pool_ok hr ht s \<Longrightarrow> pool_ok hr ht (s\<lparr>local_rx_err1 := x\<rparr>)"
  by (subst same_pool_ok [of s]) (simp_all add: same_pool_def)

lemma wp_rx_get:
  assumes "pool_ok hr ht s"
  shows "wp (local_rx_get fault) (\<lambda>_. pool_ok hr ht) s"
  unfolding local_rx_get_def Let_def
proof (rule wp_then [OF wp_cull [OF assms]], rule wp_then [OF wp_dequeue_ref], assumption, intro wp_optionI, goal_cases)
  case (2 r t x u e)
  then have ok: "pool_ok (add_mset e hr) ht u" "unat (ele_addr e) < rx_entries u"
    by (auto simp: word_less_nat_alt)
  show ?case
  proof (rule wp_then [OF wp_conj [OF wp_canary_step [OF ok(1)] canary_step_slots]], elim conjE,
      rule wp_then [OF rxz.put_in], assumption, simp add: ok, elim conjE, goal_cases)
    case (1 _ v old w)
    have "wp (case old of None \<Rightarrow> ret () | Some o' \<Rightarrow> do {
            rfnm_release_local_buffer_rx_ref o';
            modify (\<lambda>s. s\<lparr>local_rx_err1 := local_rx_err1 s + 1\<rparr>)})
        (\<lambda>_ t. pool_ok hr ht t \<and> rx_entries t = rx_entries u) w"
    proof (intro wp_optionI, goal_cases)
      case (2 o')
      have "pool_ok (add_mset o' hr) ht w" using 1 2 by simp
      from rxz.give_law [OF this] show ?case
        by (rule wp_then) (use 1 in \<open>simp add: wp_modify err1_ok\<close>)
    qed (use 1 in \<open>simp add: wp_eqs\<close>)
    then show ?case
    proof (rule wp_then, elim conjE, intro wp_ifI, goal_cases)
      case (1 _ y)
      show ?case
        by (rule wp_then [OF rxz.take_out], rule 1, use ok(2) 1 in simp, elim conjE,
            rule wp_then [OF rxz.give_opt], assumption) (simp add: wp_eqs)
    qed (simp add: wp_eqs)
  qed
qed (simp add: wp_eqs)

lemma wp_rx_put:
  assumes "pool_ok hr ht s"
  shows "wp (local_rx_put arg) (\<lambda>_. pool_ok hr ht) s"
  unfolding local_rx_put_def
proof (intro wp_steps wp_ifI, goal_cases)
  case 2
  then have "unat arg < rx_entries s"
    by (simp add: not_le word_less_nat_alt unat_up)
  from rxz.take_out [OF assms this] show ?case
    by (rule wp_mono) (auto simp: wp_eqs intro!: wp_mono [OF wp_release] split: option.splits)
qed (simp add: wp_eqs assms)

lemma tx_held_slot: "pool_ok hr (add_mset e ht) s \<Longrightarrow> unat (ele_addr e) < tx_entries s"
proof -
  assume "pool_ok hr (add_mset e ht) s"
  then have "unat (ele_addr e) \<in># mset [0..<tx_entries s]"
    unfolding pool_ok_def tx_ok_def tx_all_def by (metis (no_types, lifting) add_mset_add_single
      image_eqI set_image_mset union_iff union_single_eq_member)
  then show ?thesis by simp
qed

lemma wp_tx_acq:
  assumes "pool_ok hr ht s"
  shows "wp (local_tx_acq fault) (\<lambda>_. pool_ok hr ht) s"
  unfolding local_tx_acq_def Let_def
proof (rule wp_then [OF wp_claim [OF assms]], intro wp_optionI, goal_cases)
  case (2 x t e)
  then have ok: "pool_ok hr (add_mset e ht) t" by simp
  show ?case
  proof (rule wp_then [OF wp_stamp_consume [OF ok]], rule wp_then [OF txz.put_in], assumption, erule tx_held_slot,
      elim conjE, rule wp_then [OF txz.give_opt], assumption, elim conjE, intro wp_ifI, goal_cases)
    case (1 _ u old v _ w)
    then have "unat (ele_addr e) < tx_entries w" using tx_held_slot by metis
    then show ?case
      using 1 by (intro wp_then [OF txz.take_out [of hr ht w]] wp_then [OF txz.give_opt]) (auto simp: wp_eqs)
  qed (simp add: wp_eqs)
qed (simp add: wp_eqs)

lemma wp_tx_sub:
  assumes "pool_ok hr ht s"
  shows "wp (local_tx_sub arg) (\<lambda>_. pool_ok hr ht) s"
  unfolding local_tx_sub_def
proof (intro wp_steps wp_ifI, goal_cases)
  case 2
  then have "unat arg < tx_entries s"
    by (simp add: not_le word_less_nat_alt unat_up)
  from txz.take_out [OF assms this] show ?case
    by (rule wp_mono) (auto simp: wp_eqs intro!: wp_mono [OF wp_commit] split: option.splits)
qed (simp add: wp_eqs assms)

lemma wp_ioctl:
  assumes "pool_ok hr ht s"
  shows "wp (rfnm_dev_ioctl cmd arg fault) (\<lambda>_. pool_ok hr ht) s"
  unfolding rfnm_dev_ioctl_def Let_def
  by (intro wp_steps wp_ifI)
    (use assms in \<open>auto intro: wp_rx_get wp_tx_acq wp_mono [OF wp_rx_put] wp_mono [OF wp_tx_sub] simp: wp_eqs\<close>)

lemma wp_open: "pool_ok hr ht s \<Longrightarrow> wp (rfnm_dev_open tg) (\<lambda>_. pool_ok hr ht) s"
  unfolding rfnm_dev_open_def
  by (intro wp_steps wp_ifI) (erule same_pool_ok [THEN iffD2, rotated], simp add: same_pool_def)+

lemma wp_reclaim_rx:
  "pool_ok hr ht s \<Longrightarrow> q + n \<le> rx_entries s \<Longrightarrow>
     wp (reclaim_rx q n) (\<lambda>_. pool_ok hr ht) s"
proof (induction n arbitrary: q s)
  case (Suc n)
  show ?case
    unfolding reclaim_rx.simps
    by (rule wp_then [OF rxz.take_out [OF Suc.prems(1)]], use Suc.prems in simp, elim conjE,
        rule wp_then [OF rxz.give_opt], assumption, rule Suc.IH) (use Suc.prems in auto)
qed (simp add: wp_eqs)

lemma wp_reclaim_tx:
  "pool_ok hr ht s \<Longrightarrow> q + n \<le> tx_entries s \<Longrightarrow>
     wp (reclaim_tx q n) (\<lambda>_. pool_ok hr ht) s"
proof (induction n arbitrary: q s)
  case (Suc n)
  show ?case
    unfolding reclaim_tx.simps
    by (rule wp_then [OF txz.take_out [OF Suc.prems(1)]], use Suc.prems in simp, elim conjE,
        rule wp_then [OF txz.give_opt], assumption, rule Suc.IH) (use Suc.prems in auto)
qed (simp add: wp_eqs)

lemma wp_release_dec: "pool_ok hr ht s \<Longrightarrow> wp release_dec (\<lambda>_. pool_ok hr ht) s"
  unfolding release_dec_def
  by (intro wp_steps) (erule same_pool_ok [THEN iffD2, rotated], simp add: same_pool_def)

lemma wp_release_reclaim:
  assumes "pool_ok hr ht s"
  shows "wp release_reclaim (\<lambda>_. pool_ok hr ht) s"
proof -
  have m: "pool_ok hr ht (t\<lparr>owner_tgid := x\<rparr>) = pool_ok hr ht t"
    "pool_ok hr ht (t\<lparr>local_rx_fmt := f\<rparr>) = pool_ok hr ht t" for t x f
    by (rule same_pool_ok, simp add: same_pool_def)+
  show ?thesis
    unfolding release_reclaim_def
    by (intro wp_steps, rule wp_mono [OF wp_reclaim_rx [of hr ht]], simp add: m assms, simp)
      (intro wp_steps, rule wp_mono [OF wp_reclaim_tx], assumption, simp, simp add: wp_eqs m)
qed

lemma wp_release_last:
  assumes "pool_ok hr ht s"
  shows "wp release_last (\<lambda>_. pool_ok hr ht) s"
  unfolding release_last_def
  by (rule wp_then [OF wp_release_dec [OF assms]]) (auto simp: wp_eqs intro: wp_mono [OF wp_release_reclaim])

lemma wp_flush_pend: "pool_ok hr ht s \<Longrightarrow> wp flush_pend (\<lambda>_. pool_ok hr ht) s"
  by (simp add: flush_pend_def wp_eqs pool_ok_def rx_ok_def tx_ok_def rx_all_def tx_all_def lane_ok_def ac_simps)

lemma wp_flush_user: "pool_ok hr ht s \<Longrightarrow> wp flush_user (\<lambda>_. pool_ok hr ht) s"
  by (auto simp: flush_user_def wp_eqs pool_ok_def rx_ok_def tx_ok_def rx_all_def tx_all_def lane_ok_def ac_simps)

lemma wp_tx_return: "pool_ok hr ht s \<Longrightarrow> wp tx_return (\<lambda>_. pool_ok hr ht) s"
  by (cases "out_pend s")
    (auto simp: tx_return_def wp_eqs pool_ok_def rx_ok_def tx_ok_def rx_all_def tx_all_def lane_ok_def ac_simps)

lemma wp_poll: "pool_ok hr ht s \<Longrightarrow> wp poll_local (\<lambda>_. pool_ok hr ht) s"
  unfolding poll_local_def by (rule wp_then [OF wp_stamp_consume], assumption) (simp add: wp_eqs)

lemma setup_ok:
  assumes "0 < rx_slots s"
  shows "wp pool_setup (\<lambda>_. pool_ok {#} {#}) s"
proof -
  have "map (\<lambda>q. unat (word_of_nat q :: u32)) [0..<tx_entries s] = [0..<tx_entries s]"
    by (rule map_idI) (use unsigned_less [of "tx_slots s", where ?'a = nat] in \<open>simp add: unat_of_nat\<close>)
  then have "image_mset (\<lambda>q. unat (word_of_nat q :: u32)) (mset [0..<tx_entries s]) = mset [0..<tx_entries s]"
    by (metis mset_map)
  then show ?thesis
    using assms
    by (simp add: pool_setup_def wp_eqs pool_ok_def rx_ok_def tx_ok_def rx_all_def tx_all_def lane_ok_def
        fresh_ele_def image_mset.compositionality comp_def del: mset_upt)
qed


section \<open>The system of clients\<close>

text \<open>
  The driver with its callers: the elements that the network transport holds between its calls
  and the open file descriptors, each with the process it belongs to. The client may write any
  packet into the transmit ring and time passes at any moment.
\<close>

type_synonym 'a pool_sys = "'a pool_world_scheme \<times> pool_ele multiset \<times> pool_ele multiset \<times> int multiset"

abbreviation after :: "('s, 'r) state \<Rightarrow> 's \<Rightarrow> 's" where
  "after m s \<equiv> snd (run_state m s)"

inductive pool_step :: "'a pool_sys \<Rightarrow> 'a pool_sys \<Rightarrow> bool" where
  ioctl: "pool_step (s, hr, ht, fd) (after (rfnm_dev_ioctl cmd arg fault) s, hr, ht, fd)"
| poll: "pool_step (s, hr, ht, fd) (after poll_local s, hr, ht, fd)"
| open_ok: "run_state (rfnm_dev_open tg) s = (0, t) \<Longrightarrow> pool_step (s, hr, ht, fd) (t, hr, ht, add_mset tg fd)"
| open_refused: "run_state (rfnm_dev_open tg) s = (r, t) \<Longrightarrow> r \<noteq> 0 \<Longrightarrow> pool_step (s, hr, ht, fd) (t, hr, ht, fd)"
| close: "pool_step (s, hr, ht, add_mset tg fd) (after release_last s, hr, ht, fd)"
| ship: "pool_step (s, hr, ht, fd) (after (local_ship adc pos) s, hr, ht, fd)"
| take_ref: "run_state rfnm_dequeue_local_buffer_rx_ref s = (r, t) \<Longrightarrow>
    pool_step (s, hr, ht, fd) (t, hr + opt_ele r, ht, fd)"
| give_ref: "pool_step (s, add_mset e hr, ht, fd) (after (rfnm_release_local_buffer_rx_ref e) s, hr, ht, fd)"
| dequeue: "pool_step (s, hr, ht, fd) (after rfnm_dequeue_local_buffer_rx s, hr, ht, fd)"
| queue: "pool_step (s, hr, ht, fd) (after (rfnm_queue_local_buffer_tx buf len born) s, hr, ht, fd)"
| claim: "run_state rfnm_claim_local_buffer_tx s = (r, t) \<Longrightarrow> pool_step (s, hr, ht, fd) (t, hr, ht + opt_ele r, fd)"
| commit: "pool_step (s, hr, add_mset e ht, fd) (after (rfnm_commit_local_buffer_tx e) s, hr, ht, fd)"
| abort: "pool_step (s, hr, add_mset e ht, fd) (after (rfnm_abort_local_buffer_tx e) s, hr, ht, fd)"
| consumed: "pool_step (s, hr, ht, fd) (after tx_return s, hr, ht, fd)"
| flush_tx: "pool_step (s, hr, ht, fd) (after flush_pend s, hr, ht, fd)"
| flush_rx: "pool_step (s, hr, ht, fd) (after flush_user s, hr, ht, fd)"
| outside: "pool_step (s, hr, ht, fd) (s\<lparr>tx_slot := m, jiffies := j, now_kt := k, rx_queue_bound := b\<rparr>, hr, ht, fd)"

inductive_cases pool_stepE: "pool_step c d"

text \<open>The descriptors that are open all belong to the recorded owner.\<close>

definition one_owner :: "int multiset \<Rightarrow> 'a pool_world_scheme \<Rightarrow> bool" where
  "one_owner fd s \<longleftrightarrow> openers s = int (size fd) \<and> (\<forall>tg \<in># fd. tg = owner_tgid s)"

text \<open>What the operations other than open and close leave alone.\<close>

definition same_owner :: "'a pool_world_scheme \<Rightarrow> 'a pool_world_scheme \<Rightarrow> bool" where
  "same_owner s t \<longleftrightarrow> openers t = openers s \<and> owner_tgid t = owner_tgid s"

interpretation so: run_rel same_owner
  by unfold_locales (simp_all add: same_owner_def)

lemma so_modify: "(\<And>s. same_owner s (f s)) \<Longrightarrow> state_io_rel same_owner (modify f)"
  by (rule so.modify_rel)

lemma list_rel:
  "state_io_rel R m \<Longrightarrow> (\<And>y ys. state_io_rel R (f y ys)) \<Longrightarrow>
     state_io_rel R (case x of [] \<Rightarrow> m | y # ys \<Rightarrow> f y ys)"
  by (cases x) simp_all

lemmas so_rules = so.rel_rules list_rel so.modify_rel

lemmas pool_op_defs = stamp_consume_def rfnm_local_rx_consumer_alive_def pop_in_free_def pop_in_user_def
  pop_out_free_def rfnm_local_tx_insert_sorted_def rfnm_queue_local_buffer_tx_def
  rfnm_claim_local_buffer_tx_def rfnm_commit_local_buffer_tx_def rfnm_abort_local_buffer_tx_def
  rfnm_release_local_buffer_rx_ref_def rfnm_dequeue_local_buffer_rx_def
  rfnm_dequeue_local_buffer_rx_ref_def mark_discont_def set_local_def ship_ele_def local_ship_def
  xchg_rx_def xchg_tx_def poll_local_def canary_step_def tx_return_def flush_pend_def flush_user_def

lemma so_cull: "state_io_rel same_owner rfnm_local_rx_cull_stale"
  unfolding rfnm_local_rx_cull_stale_def mark_discont_def
  by (intro so_rules) (simp_all add: same_owner_def)

lemma so_get: "state_io_rel same_owner (local_rx_get fault)"
  unfolding local_rx_get_def Let_def canary_step_def xchg_rx_def rfnm_dequeue_local_buffer_rx_ref_def
    rfnm_release_local_buffer_rx_ref_def stamp_consume_def pop_in_user_def
  by (intro so_rules so_cull) (simp_all add: same_owner_def)

lemma so_ioctl: "state_io_rel same_owner (rfnm_dev_ioctl cmd arg fault)"
  unfolding rfnm_dev_ioctl_def local_rx_put_def local_tx_acq_def local_tx_sub_def Let_def pool_op_defs
  by (intro so_rules so_get) (simp_all add: same_owner_def)

lemma so_ops:
  "state_io_rel same_owner poll_local" "state_io_rel same_owner (local_ship adc pos)"
  "state_io_rel same_owner rfnm_dequeue_local_buffer_rx_ref"
  "state_io_rel same_owner (rfnm_release_local_buffer_rx_ref e)"
  "state_io_rel same_owner rfnm_dequeue_local_buffer_rx"
  "state_io_rel same_owner (rfnm_queue_local_buffer_tx buf len born)"
  "state_io_rel same_owner rfnm_claim_local_buffer_tx"
  "state_io_rel same_owner (rfnm_commit_local_buffer_tx e)"
  "state_io_rel same_owner (rfnm_abort_local_buffer_tx e)"
  "state_io_rel same_owner tx_return" "state_io_rel same_owner flush_pend" "state_io_rel same_owner flush_user"
  "state_io_rel same_owner (xchg_rx i v)" "state_io_rel same_owner (xchg_tx i v)"
  unfolding pool_op_defs Let_def by (intro so_rules; simp add: same_owner_def)+

lemma so_reclaim:
  "state_io_rel same_owner (reclaim_rx q n)" "state_io_rel same_owner (reclaim_tx q n)"
  by (induction n arbitrary: q) (auto intro!: so_rules so_ops)

lemma openers_reclaim [simp]:
  "openers (after (reclaim_rx q n) s) = openers s" "openers (after (reclaim_tx q n) s) = openers s"
  using so.rel_run [OF so_reclaim(1), of s q n] so.rel_run [OF so_reclaim(2), of s q n]
  by (simp_all add: same_owner_def)

lemma owner_reclaim [simp]:
  "owner_tgid (after (reclaim_rx q n) s) = owner_tgid s" "owner_tgid (after (reclaim_tx q n) s) = owner_tgid s"
  using so.rel_run [OF so_reclaim(1), of s q n] so.rel_run [OF so_reclaim(2), of s q n]
  by (simp_all add: same_owner_def)

lemma one_owner_same: "one_owner fd s \<Longrightarrow> same_owner s t \<Longrightarrow> one_owner fd t"
  by (simp add: one_owner_def same_owner_def)

lemma one_owner_after: "state_io_rel same_owner m \<Longrightarrow> one_owner fd s \<Longrightarrow> one_owner fd (after m s)"
  by (rule one_owner_same) (auto dest: so.rel_run)


lemma after_ok: "wp m (\<lambda>_. P) s \<Longrightarrow> P (after m s)"
  by (simp add: wp_snd)

lemma open_owner:
  assumes "run_state (rfnm_dev_open tg) s = (r, t)" and "one_owner fd s"
  shows "one_owner (if r = 0 then add_mset tg fd else fd) t"
  using assms unfolding rfnm_dev_open_def one_owner_def
  by (cases "fd = {#}")
    (auto simp: errno_defs State_Monad.bind_def gets_def State_Monad.update_def State_Monad.return_def split: if_splits)

lemma after_bind: "after (State_Monad.bind m f) s = after (f (fst (run_state m s))) (after m s)"
  by (simp add: split_beta)

lemma close_owner:
  assumes "one_owner (add_mset tg fd) s"
  shows "one_owner fd (after release_last s)"
proof -
  let ?t = "s\<lparr>openers := openers s - 1\<rparr>"
  have r: "openers (after release_reclaim u) = openers u" for u :: "'a pool_world_scheme"
    by (simp add: release_reclaim_def after_bind del: State_Monad.run_state_bind)
  show ?thesis
    using assms r [of ?t]
    by (cases "fd = {#}")
      (auto simp: release_last_def release_dec_def one_owner_def after_bind simp del: State_Monad.run_state_bind)
qed

definition sys_ok :: "'a pool_sys \<Rightarrow> bool" where
  "sys_ok c = (case c of (s, hr, ht, fd) \<Rightarrow> pool_ok hr ht s \<and> one_owner fd s)"

lemma outside_pool:
  "pool_ok hr ht (s\<lparr>tx_slot := m, jiffies := j, now_kt := k, rx_queue_bound := b\<rparr>) = pool_ok hr ht s"
  by (rule same_pool_ok) (simp add: same_pool_def)

lemma step_pool: "pool_step c d \<Longrightarrow> (case c of (s, hr, ht, fd) \<Rightarrow> pool_ok hr ht s) \<Longrightarrow> (case d of (s, hr, ht, fd) \<Rightarrow> pool_ok hr ht s)"
proof (induction rule: pool_step.induct)
  case (open_ok tg s t hr ht fd)
  then show ?case using wp_run [OF wp_open, of hr ht s tg 0 t] by simp
next
  case (open_refused tg s r t hr ht fd)
  then show ?case using wp_run [OF wp_open, of hr ht s tg r t] by simp
next
  case (take_ref s r t hr ht fd)
  then show ?case using wp_run [OF wp_dequeue_ref, of hr ht s r t] by simp
next
  case (claim s r t hr ht fd)
  then show ?case using wp_run [OF wp_claim, of hr ht s r t] by simp
next
  case outside
  then show ?case by (simp add: outside_pool)
qed (auto intro: after_ok wp_release_last wp_ioctl wp_poll wp_local_ship wp_release wp_dequeue wp_queue wp_commit
    wp_abort wp_tx_return wp_flush_pend wp_flush_user)

lemma step_owner: "pool_step c d \<Longrightarrow> (case c of (s, hr, ht, fd) \<Rightarrow> one_owner fd s) \<Longrightarrow> (case d of (s, hr, ht, fd) \<Rightarrow> one_owner fd s)"
proof (induction rule: pool_step.induct)
  case (open_ok tg s t hr ht fd)
  then show ?case using open_owner [of tg s 0 t fd] by simp
next
  case (open_refused tg s r t hr ht fd)
  then show ?case using open_owner [of tg s r t fd] by simp
next
  case (close s hr ht tg fd)
  then show ?case using close_owner [of tg fd s] by simp
next
  case (take_ref s r t hr ht fd)
  then show ?case using one_owner_after [OF so_ops(3), of fd s] by simp
next
  case (claim s r t hr ht fd)
  then show ?case using one_owner_after [OF so_ops(7), of fd s] by simp
next
  case outside
  then show ?case by (simp add: one_owner_def)
qed (auto intro: one_owner_after so_ops so_ioctl)

lemma step_ok: "pool_step c d \<Longrightarrow> sys_ok c \<Longrightarrow> sys_ok d"
  using step_pool [of c d] step_owner [of c d] by (auto simp: sys_ok_def split: prod.splits)

lemma steps_ok: "pool_step\<^sup>*\<^sup>* c d \<Longrightarrow> sys_ok c \<Longrightarrow> sys_ok d"
  by (induction rule: rtranclp_induct) (auto intro: step_ok)

lemma setup_sys_ok:
  assumes "0 < rx_slots s" and "openers s = 0"
  shows "sys_ok (after pool_setup s, {#}, {#}, {#})"
  using after_ok [OF setup_ok [OF assms(1)]] assms(2)
  by (simp add: sys_ok_def one_owner_def pool_setup_def)

section \<open>Culling\<close>

lemma cull_eq:
  "cull b d u f n =
     (let k = min (length u) (nat (d - b)) in (drop k u, f @ take k u, d - int k, n + k))"
proof (induction b d u f n rule: cull.induct)
  case (2 b d e r f n)
  show ?case
  proof (cases "d > b")
    case True
    then have "nat (d - b) = Suc (nat (d - 1 - b))" by simp
    with 2 True show ?thesis by (simp add: Let_def)
  qed (simp add: Let_def)
qed simp

lemma reclaim_rx_run:
  "q + n \<le> length (zc_rx s) \<Longrightarrow> run_state (reclaim_rx q n) s =
     ((), s\<lparr>zc_rx := take q (zc_rx s) @ replicate n None @ drop (q + n) (zc_rx s),
        in_free := in_free s @ List.map_filter id (take n (drop q (zc_rx s)))\<rparr>)"
proof (induction n arbitrary: q s)
  case (Suc n)
  then have q: "q < length (zc_rx s)" by simp
  then have d: "drop q (zc_rx s) = zc_rx s ! q # drop (Suc q) (zc_rx s)"
    by (simp add: Cons_nth_drop_Suc)
  have t: "take (Suc q) ((zc_rx s)[q := None]) = take q (zc_rx s) @ [None]"
    using q by (simp add: take_Suc_conv_app_nth)
  show ?case
    using Suc.prems q
    by (cases "zc_rx s ! q")
      (simp_all add: xchg_rx_def rfnm_release_local_buffer_rx_ref_def Suc.IH t d map_filter_simps)
qed simp

lemma reclaim_tx_run:
  "q + n \<le> length (zc_tx s) \<Longrightarrow> run_state (reclaim_tx q n) s =
     ((), s\<lparr>zc_tx := take q (zc_tx s) @ replicate n None @ drop (q + n) (zc_tx s),
        out_free := out_free s @ List.map_filter id (take n (drop q (zc_tx s)))\<rparr>)"
proof (induction n arbitrary: q s)
  case (Suc n)
  then have q: "q < length (zc_tx s)" by simp
  then have d: "drop q (zc_tx s) = zc_tx s ! q # drop (Suc q) (zc_tx s)"
    by (simp add: Cons_nth_drop_Suc)
  have t: "take (Suc q) ((zc_tx s)[q := None]) = take q (zc_tx s) @ [None]"
    using q by (simp add: take_Suc_conv_app_nth)
  show ?case
    using Suc.prems q
    by (cases "zc_tx s ! q")
      (simp_all add: xchg_tx_def rfnm_abort_local_buffer_tx_def Suc.IH t d map_filter_simps)
qed simp


section \<open>Properties\<close>


text \<open>
  C35: the pending list is a stable sort. Whatever the order in which packets are committed, the
  insertion from the tail leaves the list that sorting the arrivals by their packet counter gives,
  packets with the same counter in the order of their arrival.
\<close>

theorem tx_pending_stable_sort: "fold insert_sorted es [] = sort_key local_cc es"
proof -
  have "filter (\<lambda>x. local_cc k = local_cc x) ys = filter (\<lambda>x. local_cc x = local_cc k) ys"
    for k :: pool_ele and ys :: "pool_ele list"
    by (rule filter_cong) auto
  then show ?thesis
    using insert_fold [of es] by (intro properties_for_sort_key [symmetric]) simp_all
qed

text \<open>
  What a get delivers: the cull drops \<open>k\<close> packets, as many as the depth counter exceeds the bound,
  if there are that many.
\<close>

lemma wp_rx_get_value:
  assumes "0 < rx_queue_bound s"
  defines "k \<equiv> min (length (in_user s)) (nat (rx_queue_depth s - rx_queue_bound s))"
  shows "wp (local_rx_get False) (\<lambda>r t.
    case drop k (in_user s) of
      [] \<Rightarrow> r = (- ENOSPC, None) \<and> in_user t = []
    | e # rest \<Rightarrow> r = (0, Some (ele_addr e)) \<and> in_user t = rest \<and>
        rx_queue_depth t = rx_queue_depth s - int k - 1 \<and> rx_culled t = rx_culled s + of_nat k \<and>
        pk_flags (rx_slot t (ele_addr e)) =
          (if k = 0 then pk_flags (rx_slot s (ele_addr e)) else pk_flags (rx_slot s (ele_addr e)) OR flag_discont s)) s"
proof -
  have c: "cull (rx_queue_bound s) (rx_queue_depth s) (in_user s) (in_free s) 0 =
      (drop k (in_user s), in_free s @ take k (in_user s), rx_queue_depth s - int k, k)"
    by (simp add: cull_eq k_def Let_def)
  show ?thesis
    using assms(1)
    by (cases "drop k (in_user s)")
      (auto simp: local_rx_get_def rfnm_local_rx_cull_stale_def c wp_eqs mark_discont_def
        rfnm_dequeue_local_buffer_rx_ref_def stamp_consume_def pop_in_user_def canary_step_def Let_def
        xchg_rx_def rfnm_release_local_buffer_rx_ref_def split: option.splits)
qed



text \<open>
  The last close races with an open. When the process that holds the only descriptor closes it
  and another process opens the device between the decrement and the release of the ownership,
  the new owner is forgotten: its own next open is refused although it is the only process
  with a descriptor.
\<close>

theorem close_forgets_new_owner:
  assumes "openers s = 1" and "tg \<noteq> 0"
  shows "wp (do { z \<leftarrow> release_dec; a \<leftarrow> rfnm_dev_open tg; release_reclaim; b \<leftarrow> rfnm_dev_open tg; ret (z, a, b) })
    (\<lambda>r t. r = (True, 0, - EBUSY) \<and> openers t = 1) s"
proof -
  have "owner_tgid (after release_reclaim t) = 0" "openers (after release_reclaim t) = openers t" for t :: "'a pool_world_scheme"
    using so.rel_run [OF so_reclaim(1)] so.rel_run [OF so_reclaim(2)]
    by (simp_all add: release_reclaim_def after_bind owner_reclaim del: State_Monad.run_state_bind)
  then show ?thesis
    using assms
    by (simp add: release_dec_def rfnm_dev_open_def wp_eqs wp_snd [of release_reclaim])
qed


text \<open>
  C37: the last close brings back what the departed client still held: both tables are empty, the
  elements of the tables are on their free lists in the order of their slots, the packets that
  were ready or pending stay where they are, and the payload format is the default one again.
\<close>

theorem last_close_reclaims:
  assumes "openers s = 1" and "length (zc_rx s) = unat (rx_slots s)" and "length (zc_tx s) = unat (tx_slots s)"
  shows "wp release_last (\<lambda>r t. r \<and> owner_tgid t = 0 \<and>
    zc_rx t = replicate (unat (rx_slots s)) None \<and> zc_tx t = replicate (unat (tx_slots s)) None \<and>
    in_free t = in_free s @ List.map_filter id (zc_rx s) \<and>
    out_free t = out_free s @ List.map_filter id (zc_tx s) \<and>
    in_user t = in_user s \<and> out_pend t = out_pend s \<and> local_rx_fmt t = fmt_packed12 s) s"
  using assms
  by (simp add: release_last_def release_dec_def release_reclaim_def wp_def reclaim_rx_run reclaim_tx_run)

text \<open>
  The first slot of a session is used twice. The reset of the stream puts the lane of every
  converter and the head of the ring on slot 0, so the first packet that is shipped is handed to
  the client in the slot into which the lane goes on writing.
\<close>

theorem first_slot_used_twice:
  assumes "in_free s \<noteq> []" and "cb_buf (rx_local s) adc = cb_head (rx_local s)"
  shows "wp (local_ship adc pos) (\<lambda>_ t. \<exists>e. in_user t = in_user s @ [e] \<and>
    ele_addr e = cb_buf (rx_local t) adc \<and> cb_size (rx_local t) adc = 0) s"
  using assms
  by (cases "in_free s")
    (simp_all add: local_ship_def ship_ele_def pop_in_free_def rfnm_local_rx_consumer_alive_def set_local_def
      wp_eqs Let_def)

section \<open>Witnesses\<close>

text \<open>A pool of two slots in each direction, initialised, in a live or a dead session.\<close>

definition bare_pool :: pool_world where
  "bare_pool = sess_world.extend (sample_session False)
     (pool_world.fields 2 2 1 0 1 10 11 12 13 (\<lambda>b. of_nat (length b)) 5000 250 7 [] [] [] [] [] []
       (\<lambda>i. \<lparr>pk_magic = 0, pk_fmt = 0, pk_phytimer = 0, pk_cc = 0, pk_adc = 0, pk_flags = 0, pk_elems = 0, pk_buf = []\<rparr>)
       (\<lambda>i. []) 0 1 0 5000 0 0xFFFFFFFF 0 0 0 0 0 0 0
       \<lparr>cb_head = 0, cb_buf = (\<lambda>i. 0), cb_size = (\<lambda>i. 0), cb_fmt = (\<lambda>i. 0), cb_cc = (\<lambda>i. 0)\<rparr> 0 0)"

definition sample_pool :: pool_world where
  "sample_pool = after pool_setup bare_pool"

lemmas sample_pool_defs = sample_pool_def pool_setup_def bare_pool_def pool_world.defs sample_session_defs fresh_ele_def




lemma close_forgets_new_owner_witness:
  "fst (run_state (do { z \<leftarrow> release_dec; a \<leftarrow> rfnm_dev_open 42; release_reclaim; b \<leftarrow> rfnm_dev_open 42; ret (z, a, b) })
     (sample_pool\<lparr>openers := 1, owner_tgid := 41\<rparr>)) = (True, 0, - EBUSY)"
  using close_forgets_new_owner [of "sample_pool\<lparr>openers := 1, owner_tgid := 41\<rparr>" 42]
  by (simp add: wp_iff_run del: State_Monad.run_state_bind)

lemma last_close_reclaims_witness:
  "zc_tx (after release_last (sample_pool\<lparr>openers := 1, zc_tx := [None, Some (fresh_ele 1 1)]\<rparr>)) = [None, None]"
proof -
  let ?s = "sample_pool\<lparr>openers := 1, zc_tx := [None, Some (fresh_ele 1 1)]\<rparr>"
  have "rx_slots ?s = 2" "tx_slots ?s = 2" "length (zc_rx ?s) = 2" "openers ?s = 1" "length (zc_tx ?s) = 2"
    by (simp_all add: sample_pool_defs)
  then have "zc_tx (after release_last ?s) = replicate 2 None"
    using last_close_reclaims [of ?s] by (simp add: wp_iff_run)
  also have "\<dots> = [None, None]" by (simp add: numeral_2_eq_2)
  finally show ?thesis .
qed

lemma first_slot_used_twice_witness:
  "\<exists>e. in_user (after (local_ship 2 9) sample_pool) = [e] \<and>
     ele_addr e = cb_buf (rx_local (after (local_ship 2 9) sample_pool)) 2"
proof -
  have "in_free sample_pool \<noteq> []" "in_user sample_pool = []"
    "cb_buf (rx_local sample_pool) 2 = cb_head (rx_local sample_pool)"
    by (simp_all add: sample_pool_defs upt_rec)
  then show ?thesis
    using first_slot_used_twice [of sample_pool 2 9] by (auto simp: wp_iff_run)
qed

end
