(* ===== verification/Usb_Pool.thy ===== *)
theory Usb_Pool
  imports Pool_Steps Apply
begin

text \<open>
  The gadget requests of the USB transport (\<open>la9310rfnm/la9310_rfnm.c\<close>). Receive direction: the
  completion handler \<open>rfnm_submit_usb_req_in\<close>, the gate of the stager, the shipping of a packet
  from its ring slot, the deadline flush with its stall detectors, the queueing by the USB worker
  and the refill of the pool. Transmit direction: the completion handler, the ingest of received
  packets into the local pool, the flush mode. And the operations on all the queues: the flush of
  the staged transmit packets, the reset of the stream state, the restart of the state machine and
  the release of the character device.

  A \<open>usb_ele\<close> is a queue element with its request. \<open>ub_in\<close> is the pool of free receive requests
  (\<open>rfnm_usb_req_buffer_in\<close>), \<open>ub_in_usb\<close> the packets staged for the wire, \<open>inflight\<close> the requests
  queued at the controller, \<open>ub_out\<close> the received packets and \<open>ub_out_usb\<close> requests to be queued
  again. \<open>udc_out\<close> are the transmit-direction requests that the controller holds, \<open>udc_in\<close> the
  receive-direction ones it holds without an element of the driver. The controller is
  another driver: \<open>ep_queue_rc\<close> is the answer to the n-th \<open>usb_ep_queue\<close>, \<open>dequeued\<close> lists the
  requests that \<open>usb_ep_dequeue\<close> was called for. \<open>kfreed\<close> lists the buffers passed to \<open>kfree\<close>.
  The packet layouts are outside the repository: \<open>tx_magic\<close> and \<open>tx_multi\<close> read the header of a
  transmit packet.
\<close>

section \<open>State\<close>

definition ESRCH :: int where "ESRCH = 3"
definition ENXIO :: int where "ENXIO = 6"
definition EOVERFLOW :: int where "EOVERFLOW = 75"
definition ECONNABORTED :: int where "ECONNABORTED = 103"
definition ECONNRESET :: int where "ECONNRESET = 104"
definition ESHUTDOWN :: int where "ESHUTDOWN = 108"
definition EREMOTEIO :: int where "EREMOTEIO = 121"

lemmas usb_errno_defs = ESRCH_def ENXIO_def EOVERFLOW_def ECONNABORTED_def ECONNRESET_def ESHUTDOWN_def EREMOTEIO_def

definition RFNM_USB_INFLIGHT_CAP :: int where "RFNM_USB_INFLIGHT_CAP = 64"
definition RFNM_USB_INFLIGHT_STALE_CAP :: int where "RFNM_USB_INFLIGHT_STALE_CAP = 4"
definition RFNM_USB_IN_EPS_MAX :: nat where "RFNM_USB_IN_EPS_MAX = 8"
definition RFNM_USB_HEAD_GRACE_MS :: nat where "RFNM_USB_HEAD_GRACE_MS = 3000"

datatype usb_buf = NoBuf | Heap nat | Ring u32

record usb_ele =
  ue_id :: nat
  ue_ep :: nat
  ue_buf :: usb_buf
  ue_len :: u32
  ue_actual :: u32
  ue_born :: u64
  seam_cc :: u64
  seam_pt :: u32

record usb_stats =
  st_ok :: nat
  st_dead :: nat
  st_overflow :: nat
  st_default :: nat
  st_remoteio :: nat

record rx18_stats =
  req_created :: u32
  req_destroyed :: u32
  pool_topup :: u32
  queue_fail :: u32
  rate_sweeps :: u32
  udc_pokes :: u32
  full_ok :: u32
  full_gated :: u32
  full_pool_empty :: u32
  partial_ok :: u32
  partial_gated :: u32
  partial_pool_empty :: u32

record usb_world = pool_world +
  ub_in :: "usb_ele list"
  ub_in_usb :: "usb_ele list"
  inflight :: "usb_ele list"
  ub_out :: "usb_ele list"
  ub_out_usb :: "usb_ele list"
  udc_in :: "usb_ele list"
  udc_out :: "usb_ele list"
  inflight_cnt :: int
  gate_armed :: bool
  blocked_since :: u64
  starved_periods :: nat
  in_eps :: "nat list"
  in_done_cnt :: u32
  rate_win_jiffies :: u64
  rate_win_done_base :: u32
  rate_slow_windows :: nat
  last_submit :: u64
  head_grace_until :: u64
  last_ctrl :: u64
  ep_queue_rc :: "nat \<Rightarrow> int"
  ep_calls :: nat
  next_id :: nat
  dequeued :: "nat list"
  kfreed :: "usb_buf list"
  ep_stats :: usb_stats
  rx18 :: rx18_stats
  msecs :: "nat \<Rightarrow> u64"
  usb_slots :: u32
  usb_slot :: "u32 \<Rightarrow> rx_packet"
  rx_usb :: local_cb
  pkt_birth :: "nat \<Rightarrow> u64"
  flush_us :: int
  full_elems :: u32
  usb_head_size :: u32
  r_shift :: nat
  jump_discont_usb :: u32
  seam_expect :: "nat \<Rightarrow> u32"
  seam_valid :: "nat \<Rightarrow> bool"
  seam_epoch :: "nat \<Rightarrow> u8"
  ship_chain_err :: "nat \<Rightarrow> u64"
  inflight_overwrite :: u64
  usb_rx_ok :: u64
  usb_rx_err :: u64
  usb_rx_bytes :: u64
  partial_flushes :: u64
  ubuf :: "usb_buf \<Rightarrow> u8 list"
  spares :: "usb_buf list"
  tx_magic :: "u8 list \<Rightarrow> u32"
  tx_multi :: "u8 list \<Rightarrow> u32"
  tx_head_size :: u32
  tx_slot_bytes :: u32
  tx_multi_max :: u32
  usb_tx_ok :: u64
  usb_tx_err :: u64
  usb_tx_bytes :: u64
  tx_ingested :: u64
  slow_requeue :: u64
  spares_ready :: bool
  spares_max :: nat
  flushmode :: bool
  alloc_ok :: "nat \<Rightarrow> bool"
  alloc_calls :: nat
  consumer_rate :: "nat \<Rightarrow> nat"
  sleeps :: nat
  dequeue_done :: "nat \<Rightarrow> bool"
  la_tail :: u32
  la_adc_cc :: "nat \<Rightarrow> u32"
  phytimer_valid :: "nat \<Rightarrow> bool"
  cc_anchor_pending :: u32
  chain_prints :: nat
  tx_la_head :: u32
  tx_dac_cc :: u32
  tx_usb_cc :: u64
  wq_stop_in :: bool
  wq_stop_out :: bool
  wq_stop_usb :: bool
  scrub_calls :: nat
  pace_ok :: bool
  pace_armed :: bool
  pace_zero_streak :: nat
  tx_stale_since :: u64
  pos_expect_valid :: bool
  tx_last_consume :: u64
  lalib_cb :: bool
  dgb_cb :: bool
  dgb_resets :: nat
  sm_restart_running :: bool

definition set_rx18 :: "(rx18_stats \<Rightarrow> rx18_stats) \<Rightarrow> ('a usb_world_scheme, unit) state" where
  "set_rx18 f = modify (\<lambda>s. s\<lparr>rx18 := f (rx18 s)\<rparr>)"

definition set_usb :: "(local_cb \<Rightarrow> local_cb) \<Rightarrow> ('a usb_world_scheme, unit) state" where
  "set_usb f = modify (\<lambda>s. s\<lparr>rx_usb := f (rx_usb s)\<rparr>)"

definition ep_count :: "(usb_stats \<Rightarrow> usb_stats) \<Rightarrow> ('a usb_world_scheme, unit) state" where
  "ep_count f = modify (\<lambda>s. s\<lparr>ep_stats := f (ep_stats s)\<rparr>)"

definition usb_ep_queue :: "('a usb_world_scheme, int) state" where
  "usb_ep_queue = do {
     n \<leftarrow> gets ep_calls;
     modify (\<lambda>s. s\<lparr>ep_calls := n + 1\<rparr>);
     gets (\<lambda>s. ep_queue_rc s n)
   }"

definition usb_ep_dequeue :: "usb_ele \<Rightarrow> ('a usb_world_scheme, unit) state" where
  "usb_ep_dequeue e = modify (\<lambda>s. s\<lparr>dequeued := dequeued s @ [ue_id e]\<rparr>)"

section \<open>Who is alive\<close>

definition usb_alive :: "'a usb_world_scheme \<Rightarrow> bool" where
  "usb_alive s \<longleftrightarrow> last_submit s \<noteq> 0 \<and> time_before (jiffies s) (last_submit s + hz s)"

definition rfnm_usb_rx_consumer_alive :: "('a usb_world_scheme, bool) state" where
  "rfnm_usb_rx_consumer_alive = gets usb_alive"

definition head_grace :: "'a usb_world_scheme \<Rightarrow> bool" where
  "head_grace s \<longleftrightarrow> head_grace_until s \<noteq> 0 \<and> time_before (jiffies s) (head_grace_until s)"

definition rfnm_usb_rx_head_grace :: "('a usb_world_scheme, bool) state" where
  "rfnm_usb_rx_head_grace = gets head_grace"

definition stage_gated :: "'a usb_world_scheme \<Rightarrow> bool" where
  "stage_gated s \<longleftrightarrow> RFNM_USB_INFLIGHT_CAP \<le> inflight_cnt s \<or>
     (\<not> usb_alive s \<and> \<not> head_grace s \<and> RFNM_USB_INFLIGHT_STALE_CAP \<le> inflight_cnt s)"

definition rfnm_usb_rx_stage_gated :: "('a usb_world_scheme, bool) state" where
  "rfnm_usb_rx_stage_gated = gets stage_gated"

definition nonzero_jiffies :: "'a usb_world_scheme \<Rightarrow> u64" where
  "nonzero_jiffies s = (if jiffies s \<noteq> 0 then jiffies s else 1)"

definition rfnm_note_host_ctrl :: "('a usb_world_scheme, unit) state" where
  "rfnm_note_host_ctrl = modify (\<lambda>s. s\<lparr>last_ctrl := nonzero_jiffies s\<rparr>)"

definition rfnm_host_ctrl_alive :: "('a usb_world_scheme, bool) state" where
  "rfnm_host_ctrl_alive = gets (\<lambda>s. last_ctrl s \<noteq> 0 \<and> time_before (jiffies s) (last_ctrl s + hz s))"

section \<open>Buffers of requests\<close>

fun in_rx_carveout :: "usb_buf \<Rightarrow> bool" where
  "in_rx_carveout (Ring a) = True"
| "in_rx_carveout b = False"

definition kfree_buf :: "usb_buf \<Rightarrow> ('a usb_world_scheme, unit) state" where
  "kfree_buf b = (if b \<noteq> NoBuf \<and> \<not> in_rx_carveout b then modify (\<lambda>s. s\<lparr>kfreed := kfreed s @ [b]\<rparr>) else ret ())"

text \<open>\<open>rfnm_usb_req_free\<close>: the request is gone afterwards; what remains is whether its buffer was freed.\<close>

definition rfnm_usb_req_free :: "usb_ele \<Rightarrow> ('a usb_world_scheme, unit) state" where
  "rfnm_usb_req_free e = kfree_buf (ue_buf e)"

definition rfnm_usb_req_point_at_ring :: "usb_ele \<Rightarrow> u32 \<Rightarrow> ('a usb_world_scheme, usb_ele) state" where
  "rfnm_usb_req_point_at_ring e a = do {
     kfree_buf (ue_buf e);
     ret (e\<lparr>ue_buf := Ring a\<rparr>)
   }"

section \<open>Completion of a receive-direction request\<close>

definition learn_ep :: "nat \<Rightarrow> ('a usb_world_scheme, unit) state" where
  "learn_ep ep = do {
     es \<leftarrow> gets in_eps;
     if ep \<in> set es then ret ()
     else if length es < RFNM_USB_IN_EPS_MAX then modify (\<lambda>s. s\<lparr>in_eps := es @ [ep]\<rparr>)
     else ret ()
   }"

definition destroy_in :: "usb_ele \<Rightarrow> ('a usb_world_scheme, unit) state" where
  "destroy_in e = do {
     set_rx18 (\<lambda>c. c\<lparr>req_destroyed := req_destroyed c + 1\<rparr>);
     rfnm_usb_req_free e
   }"

definition seam_done_check :: "usb_ele \<Rightarrow> ('a usb_world_scheme, unit) state" where
  "seam_done_check e = (case ue_buf e of
       Ring a \<Rightarrow>
         if seam_cc e \<noteq> 0 then do {
           p \<leftarrow> gets (\<lambda>s. usb_slot s a);
           if pk_cc p \<noteq> seam_cc e \<or> pk_phytimer p \<noteq> seam_pt e
           then modify (\<lambda>s. s\<lparr>inflight_overwrite := inflight_overwrite s + 1\<rparr>)
           else ret ()
         }
         else ret ()
     | _ \<Rightarrow> ret ())"

definition note_completion :: "int \<Rightarrow> usb_ele \<Rightarrow> ('a usb_world_scheme, usb_ele) state" where
  "note_completion status e =
     (if status = 0 then do {
        modify (\<lambda>s. s\<lparr>last_submit := nonzero_jiffies s\<rparr>);
        modify (\<lambda>s. s\<lparr>head_grace_until := 0\<rparr>);
        modify (\<lambda>s. s\<lparr>in_done_cnt := in_done_cnt s + 1\<rparr>);
        ep_count (\<lambda>c. c\<lparr>st_ok := st_ok c + 1\<rparr>);
        seam_done_check e;
        ret (e\<lparr>seam_cc := 0\<rparr>)
      }
      else if status = - ECONNABORTED \<or> status = - ECONNRESET then do {
        ep_count (\<lambda>c. c\<lparr>st_dead := st_dead c + 1\<rparr>);
        ret e
      }
      else if status = - EREMOTEIO then do {
        ep_count (\<lambda>c. c\<lparr>st_remoteio := st_remoteio c + 1\<rparr>);
        ret e
      }
      else do {
        (if status = - EOVERFLOW then ep_count (\<lambda>c. c\<lparr>st_overflow := st_overflow c + 1\<rparr>) else ret ());
        ep_count (\<lambda>c. c\<lparr>st_default := st_default c + 1\<rparr>);
        ret e
      })"

definition settle_in :: "nat \<Rightarrow> bool \<Rightarrow> int \<Rightarrow> usb_ele \<Rightarrow> ('a usb_world_scheme, unit) state" where
  "settle_in ep ss status e =
     (if \<not> ss then destroy_in e
      else if status = - ESHUTDOWN then do {
        ep_count (\<lambda>c. c\<lparr>st_dead := st_dead c + 1\<rparr>);
        destroy_in e
      }
      else do {
        e \<leftarrow> note_completion status e;
        learn_ep ep;
        modify (\<lambda>s. s\<lparr>ub_in := ub_in s @ [e\<lparr>ue_ep := ep\<rparr>]\<rparr>);
        modify (\<lambda>s. s\<lparr>usb_rx_bytes := usb_rx_bytes s + ucast (ue_actual e)\<rparr>)
      })"

text \<open>
  \<open>tracked\<close>: the request carries its element in its context; otherwise the handler allocates one, which
  fails when \<open>mem\<close> is false. \<open>ss\<close>: the endpoint is enabled.
\<close>

definition rfnm_submit_usb_req_in ::
  "nat \<Rightarrow> bool \<Rightarrow> int \<Rightarrow> bool \<Rightarrow> bool \<Rightarrow> usb_ele \<Rightarrow> ('a usb_world_scheme, unit) state" where
  "rfnm_submit_usb_req_in ep ss status tracked mem e =
     (if tracked then do {
        modify (\<lambda>s. s\<lparr>inflight := remove1 e (inflight s), inflight_cnt := inflight_cnt s - 1\<rparr>);
        settle_in ep ss status e
      }
      else do {
        modify (\<lambda>s. s\<lparr>udc_in := remove1 e (udc_in s)\<rparr>);
        if \<not> mem then ret ()
        else do {
          set_rx18 (\<lambda>c. c\<lparr>req_created := req_created c + 1\<rparr>);
          settle_in ep ss status e
        }
      })"

section \<open>Shipping a packet\<close>

definition rfnm_rx_seam_ship_check :: "nat \<Rightarrow> usb_ele \<Rightarrow> ('a usb_world_scheme, usb_ele) state" where
  "rfnm_rx_seam_ship_check lane e = do {
     p \<leftarrow> gets (\<lambda>s. usb_slot s (cb_buf (rx_usb s) lane));
     disc \<leftarrow> gets flag_discont;
     let epoch = (ucast (drop_bit 8 (pk_flags p)) :: u8);
     old \<leftarrow> gets (\<lambda>s. seam_epoch s lane);
     (if pk_flags p AND disc \<noteq> 0 \<or> epoch \<noteq> old
      then modify (\<lambda>s. s\<lparr>seam_valid := (seam_valid s)(lane := False), seam_epoch := (seam_epoch s)(lane := epoch)\<rparr>)
      else ret ());
     v \<leftarrow> gets (\<lambda>s. seam_valid s lane);
     x \<leftarrow> gets (\<lambda>s. seam_expect s lane);
     (if v \<and> pk_phytimer p \<noteq> x
      then modify (\<lambda>s. s\<lparr>ship_chain_err := (ship_chain_err s)(lane := ship_chain_err s lane + 1)\<rparr>)
      else ret ());
     sh \<leftarrow> gets r_shift;
     modify (\<lambda>s. s\<lparr>seam_expect := (seam_expect s)(lane := pk_phytimer p + drop_bit 1 (push_bit sh (pk_elems p))),
       seam_valid := (seam_valid s)(lane := True)\<rparr>);
     ret (e\<lparr>seam_cc := pk_cc p, seam_pt := pk_phytimer p\<rparr>)
   }"

text \<open>Common to both places that ship: the packet gets its counter and its length, the request its buffer.\<close>

definition usb_fill_req :: "nat \<Rightarrow> u32 \<Rightarrow> usb_ele \<Rightarrow> ('a usb_world_scheme, usb_ele) state" where
  "usb_fill_req lane pos e = do {
     set_usb (\<lambda>l. l\<lparr>cb_cc := (cb_cc l)(lane := cb_cc l lane + 1)\<rparr>);
     l \<leftarrow> gets rx_usb;
     let a = cb_buf l lane;
     modify (\<lambda>s. s\<lparr>usb_slot := (usb_slot s)(a := (usb_slot s a)\<lparr>pk_cc := cb_cc l lane, pk_elems := pos\<rparr>)\<rparr>);
     e \<leftarrow> rfnm_usb_req_point_at_ring e a;
     h \<leftarrow> gets usb_head_size;
     rfnm_rx_seam_ship_check lane (e\<lparr>ue_len := h + pos * 3\<rparr>)
   }"

definition usb_advance :: "nat \<Rightarrow> ('a usb_world_scheme, unit) state" where
  "usb_advance lane = do {
     n \<leftarrow> gets usb_slots;
     set_usb (\<lambda>l. l\<lparr>cb_buf := (cb_buf l)(lane := cb_head l),
       cb_head := (if cb_head l + 1 = n then 0 else cb_head l + 1)\<rparr>)
   }"

definition usb_clear_size :: "nat \<Rightarrow> ('a usb_world_scheme, unit) state" where
  "usb_clear_size lane = set_usb (\<lambda>l. l\<lparr>cb_size := (cb_size l)(lane := 0)\<rparr>)"

definition pop_ub_in :: "('a usb_world_scheme, usb_ele option) state" where
  "pop_ub_in = do {
     es \<leftarrow> gets ub_in;
     case es of [] \<Rightarrow> ret None | e # r \<Rightarrow> do { modify (\<lambda>s. s\<lparr>ub_in := r\<rparr>); ret (Some e) }
   }"

definition stage :: "usb_ele \<Rightarrow> ('a usb_world_scheme, unit) state" where
  "stage e = modify (\<lambda>s. s\<lparr>ub_in_usb := ub_in_usb s @ [e]\<rparr>)"

text \<open>
  The producer's ship of a packet that cannot take the next piece: without a free request, or with
  the gate closed, the packet is dropped and its slot is used again.
\<close>

definition usb_ship :: "nat \<Rightarrow> u32 \<Rightarrow> ('a usb_world_scheme, unit) state" where
  "usb_ship lane pos = do {
     gated \<leftarrow> rfnm_usb_rx_stage_gated;
     x \<leftarrow> (if gated then ret None else pop_ub_in);
     (case x of
       None \<Rightarrow> do {
         (if gated then set_rx18 (\<lambda>c. c\<lparr>full_gated := full_gated c + 1\<rparr>)
          else set_rx18 (\<lambda>c. c\<lparr>full_pool_empty := full_pool_empty c + 1\<rparr>));
         modify (\<lambda>s. s\<lparr>usb_rx_err := usb_rx_err s + 1\<rparr>);
         modify (\<lambda>s. s\<lparr>jump_discont_usb := jump_discont_usb s OR push_bit lane 1\<rparr>);
         usb_clear_size lane
       }
     | Some e \<Rightarrow> do {
         e \<leftarrow> usb_fill_req lane pos e;
         stage e;
         modify (\<lambda>s. s\<lparr>usb_rx_ok := usb_rx_ok s + 1\<rparr>);
         set_rx18 (\<lambda>c. c\<lparr>full_ok := full_ok c + 1\<rparr>);
         usb_clear_size lane;
         usb_advance lane
       })
   }"

section \<open>The deadline flush and its stall detectors\<close>

definition rfnm_usb_in_dequeue_sweep :: "('a usb_world_scheme, unit) state" where
  "rfnm_usb_in_dequeue_sweep = do {
     es \<leftarrow> gets (\<lambda>s. take (nat RFNM_USB_INFLIGHT_CAP) (inflight s));
     set_rx18 (\<lambda>c. c\<lparr>udc_pokes := udc_pokes c + 1\<rparr>);
     modify (\<lambda>s. s\<lparr>dequeued := dequeued s @ map ue_id es\<rparr>)
   }"

definition rate_trigger :: "('a usb_world_scheme, unit) state" where
  "rate_trigger = do {
     s \<leftarrow> gets (\<lambda>s. s);
     if rate_win_jiffies s = 0
     then modify (\<lambda>s. s\<lparr>rate_win_jiffies := jiffies s, rate_win_done_base := in_done_cnt s\<rparr>)
     else if time_before (rate_win_jiffies s + msecs s 500) (jiffies s) then do {
       (if in_done_cnt s - rate_win_done_base s < 40 \<and> usb_alive s \<and> 0 < inflight_cnt s
        then do {
          modify (\<lambda>s. s\<lparr>rate_slow_windows := rate_slow_windows s + 1\<rparr>);
          n \<leftarrow> gets rate_slow_windows;
          if 3 \<le> n then do {
            rfnm_usb_in_dequeue_sweep;
            set_rx18 (\<lambda>c. c\<lparr>rate_sweeps := rate_sweeps c + 1\<rparr>);
            modify (\<lambda>s. s\<lparr>rate_slow_windows := 0\<rparr>)
          }
          else ret ()
        }
        else modify (\<lambda>s. s\<lparr>rate_slow_windows := 0\<rparr>));
       modify (\<lambda>s. s\<lparr>rate_win_jiffies := jiffies s, rate_win_done_base := in_done_cnt s\<rparr>)
     }
     else ret ()
   }"

definition starved :: "'a usb_world_scheme \<Rightarrow> bool" where
  "starved s \<longleftrightarrow> RFNM_USB_INFLIGHT_CAP \<le> inflight_cnt s \<or> (0 < inflight_cnt s \<and> ub_in s = [])"

definition poke_stalled :: "('a usb_world_scheme, unit) state" where
  "poke_stalled = do {
     modify (\<lambda>s. s\<lparr>starved_periods := starved_periods s + 1\<rparr>);
     n \<leftarrow> gets starved_periods;
     if 3 \<le> n then do {
       rfnm_usb_in_dequeue_sweep;
       modify (\<lambda>s. s\<lparr>starved_periods := 0\<rparr>)
     }
     else do {
       es \<leftarrow> gets inflight;
       case es of [] \<Rightarrow> ret ()
       | e # r \<Rightarrow> do {
           set_rx18 (\<lambda>c. c\<lparr>udc_pokes := udc_pokes c + 1\<rparr>);
           usb_ep_dequeue e
         }
     }
   }"

definition stall_detector :: "('a usb_world_scheme, unit) state" where
  "stall_detector = do {
     s \<leftarrow> gets (\<lambda>s. s);
     if \<not> gate_armed s
     then modify (\<lambda>s. s\<lparr>gate_armed := True, blocked_since := jiffies s\<rparr>)
     else if time_before (blocked_since s + msecs s 500) (jiffies s) then do {
       (if int (length (inflight s)) \<noteq> inflight_cnt s
        then modify (\<lambda>s. s\<lparr>inflight_cnt := int (length (inflight s))\<rparr>)
        else if usb_alive s then poke_stalled
        else ret ());
       modify (\<lambda>s. s\<lparr>gate_armed := False\<rparr>)
     }
     else ret ()
   }"

definition flush_lane :: "nat \<Rightarrow> ('a usb_world_scheme, bool) state" where
  "flush_lane lane = do {
     s \<leftarrow> gets (\<lambda>s. s);
     let pos = cb_size (rx_usb s) lane;
     if pos = 0 then ret True
     else if sint (now_kt s - pkt_birth s lane) div 1000 < flush_us s then ret True
     else if starved s then do { stall_detector; ret False }
     else do {
       modify (\<lambda>s. s\<lparr>starved_periods := 0, gate_armed := False\<rparr>);
       gated \<leftarrow> rfnm_usb_rx_stage_gated;
       if gated then do { set_rx18 (\<lambda>c. c\<lparr>partial_gated := partial_gated c + 1\<rparr>); ret False }
       else do {
         x \<leftarrow> pop_ub_in;
         case x of
           None \<Rightarrow> do { set_rx18 (\<lambda>c. c\<lparr>partial_pool_empty := partial_pool_empty c + 1\<rparr>); ret False }
         | Some e \<Rightarrow> do {
             e \<leftarrow> usb_fill_req lane pos e;
             stage e;
             usb_clear_size lane;
             usb_advance lane;
             modify (\<lambda>s. s\<lparr>usb_rx_ok := usb_rx_ok s + 1\<rparr>);
             full \<leftarrow> gets full_elems;
             (if pos = full then set_rx18 (\<lambda>c. c\<lparr>full_ok := full_ok c + 1\<rparr>)
              else do {
                modify (\<lambda>s. s\<lparr>partial_flushes := partial_flushes s + 1\<rparr>);
                set_rx18 (\<lambda>c. c\<lparr>partial_ok := partial_ok c + 1\<rparr>)
              });
             ret True
           }
       }
     }
   }"

fun flush_lanes :: "nat \<Rightarrow> nat \<Rightarrow> ('a usb_world_scheme, unit) state" where
  "flush_lanes lane 0 = ret ()"
| "flush_lanes lane (Suc n) = do { go \<leftarrow> flush_lane lane; if go then flush_lanes (Suc lane) n else ret () }"

definition rfnm_rx_flush_partial_usb :: "('a usb_world_scheme, unit) state" where
  "rfnm_rx_flush_partial_usb = do {
     us \<leftarrow> gets flush_us;
     if us \<le> 0 then ret () else do { rate_trigger; flush_lanes 0 4 }
   }"


section \<open>Queueing by the worker\<close>

definition kill_status :: "int \<Rightarrow> bool" where
  "kill_status rc \<longleftrightarrow> rc = - ESHUTDOWN \<or> rc = - ENODEV \<or> rc = - ESRCH"

definition ship_in :: "usb_ele \<Rightarrow> ('a usb_world_scheme, unit) state" where
  "ship_in e = do {
     modify (\<lambda>s. s\<lparr>inflight := inflight s @ [e], inflight_cnt := inflight_cnt s + 1\<rparr>);
     rc \<leftarrow> usb_ep_queue;
     if rc = 0 then ret ()
     else do {
       modify (\<lambda>s. s\<lparr>inflight := remove1 e (inflight s), inflight_cnt := inflight_cnt s - 1\<rparr>);
       set_rx18 (\<lambda>c. c\<lparr>queue_fail := queue_fail c + 1\<rparr>);
       if \<not> kill_status rc then modify (\<lambda>s. s\<lparr>ub_in := ub_in s @ [e]\<rparr>)
       else destroy_in e
     }
   }"

text \<open>A request of the transmit direction goes back to the controller; when that fails it is lost.\<close>

definition arm_out :: "usb_ele \<Rightarrow> ('a usb_world_scheme, unit) state" where
  "arm_out e = do {
     rc \<leftarrow> usb_ep_queue;
     if rc = 0 then modify (\<lambda>s. s\<lparr>udc_out := udc_out s @ [e]\<rparr>) else ret ()
   }"

definition rfnm_usb_buffer_done_out :: "usb_ele \<Rightarrow> ('a usb_world_scheme, unit) state" where
  "rfnm_usb_buffer_done_out e = do {
     modify (\<lambda>s. s\<lparr>ub_out := remove1 e (ub_out s)\<rparr>);
     arm_out e
   }"

text \<open>
  One packet of the receive direction, then one request of the transmit direction, until none of
  these is left; \<open>n\<close> bounds their number.
\<close>

fun ship_loop :: "nat \<Rightarrow> ('a usb_world_scheme, unit) state" where
  "ship_loop n = do {
     st \<leftarrow> gets ub_in_usb;
     (case st of [] \<Rightarrow> ret () | e # r \<Rightarrow> do { modify (\<lambda>s. s\<lparr>ub_in_usb := r\<rparr>); ship_in e });
     ou \<leftarrow> gets ub_out_usb;
     (case ou of [] \<Rightarrow> ret ()
      | e # r \<Rightarrow> do {
          modify (\<lambda>s. s\<lparr>ub_out_usb := r\<rparr>);
          arm_out e;
          (case n of 0 \<Rightarrow> ret () | Suc m \<Rightarrow> ship_loop m)
        })
   }"

declare ship_loop.simps [simp del]

section \<open>Transmit direction\<close>

definition rfnm_submit_usb_req_out :: "bool \<Rightarrow> int \<Rightarrow> usb_ele \<Rightarrow> ('a usb_world_scheme, unit) state" where
  "rfnm_submit_usb_req_out ss status e = do {
     modify (\<lambda>s. s\<lparr>udc_out := remove1 e (udc_out s)\<rparr>);
     if \<not> ss then ret ()
     else if status = - ESHUTDOWN then do {
       ep_count (\<lambda>c. c\<lparr>st_dead := st_dead c + 1\<rparr>);
       modify (\<lambda>s. s\<lparr>kfreed := kfreed s @ [ue_buf e]\<rparr>)
     }
     else do {
       (if status = 0 then ep_count (\<lambda>c. c\<lparr>st_ok := st_ok c + 1\<rparr>)
        else if status = - ECONNABORTED \<or> status = - ECONNRESET then ep_count (\<lambda>c. c\<lparr>st_dead := st_dead c + 1\<rparr>)
        else if status = - EREMOTEIO then ep_count (\<lambda>c. c\<lparr>st_remoteio := st_remoteio c + 1\<rparr>)
        else do {
          (if status = - EOVERFLOW then ep_count (\<lambda>c. c\<lparr>st_overflow := st_overflow c + 1\<rparr>) else ret ());
          ep_count (\<lambda>c. c\<lparr>st_default := st_default c + 1\<rparr>)
        });
       modify (\<lambda>s. s\<lparr>ub_out := ub_out s @ [e\<lparr>ue_born := now_kt s\<rparr>]\<rparr>);
       modify (\<lambda>s. s\<lparr>usb_tx_bytes := usb_tx_bytes s + ucast (ue_actual e)\<rparr>)
     }
   }"

text \<open>While the worker sleeps, the transmit consumer gives elements of the pool back.\<close>

fun returns :: "nat \<Rightarrow> ('a pool_world_scheme, unit) state" where
  "returns 0 = ret ()"
| "returns (Suc n) = do { tx_return; returns n }"

definition nap :: "('a usb_world_scheme, unit) state" where
  "nap = do {
     n \<leftarrow> gets (\<lambda>s. consumer_rate s (sleeps s));
     modify (\<lambda>s. s\<lparr>sleeps := sleeps s + 1\<rparr>);
     returns n
   }"

text \<open>The bounded retry: the answer is the number of tries that were left, 0 when all have failed.\<close>

fun queue_tries :: "u8 list \<Rightarrow> nat \<Rightarrow> u64 \<Rightarrow> nat \<Rightarrow> ('a usb_world_scheme, nat) state" where
  "queue_tries buf len born 0 = ret 0"
| "queue_tries buf len born (Suc n) = do {
     r \<leftarrow> rfnm_queue_local_buffer_tx buf len born;
     if r = 0 then ret (Suc n)
     else if n = 0 then ret 0
     else do { nap; queue_tries buf len born n }
   }"

definition spares_init :: "('a usb_world_scheme, unit) state" where
  "spares_init = do {
     ready \<leftarrow> gets spares_ready;
     if ready then ret ()
     else modify (\<lambda>s. s\<lparr>spares := map (\<lambda>i. Heap (next_id s + i)) [0..<spares_max s],
       next_id := next_id s + spares_max s, spares_ready := True\<rparr>)
   }"

definition tx_frame_ok :: "'a usb_world_scheme \<Rightarrow> usb_ele \<Rightarrow> bool" where
  "tx_frame_ok s e \<longleftrightarrow> tx_magic s (ubuf s (ue_buf e)) = 0x758f4d4a \<and>
     1 \<le> tx_multi s (ubuf s (ue_buf e)) \<and> tx_multi s (ubuf s (ue_buf e)) \<le> tx_multi_max s \<and>
     ue_actual e = tx_head_size s + tx_multi s (ubuf s (ue_buf e)) * tx_slot_bytes s"

definition count_ingested :: "('a usb_world_scheme, unit) state" where
  "count_ingested = modify (\<lambda>s. s\<lparr>usb_tx_ok := usb_tx_ok s + 1, tx_ingested := tx_ingested s + 1\<rparr>)"

text \<open>One received packet; the answer is whether the loop goes on.\<close>

definition ingest_one :: "usb_ele \<Rightarrow> ('a usb_world_scheme, bool) state" where
  "ingest_one e = do {
     s \<leftarrow> gets (\<lambda>s. s);
     let buf = ubuf s (ue_buf e);
     let need = unat (tx_head_size s + tx_multi s buf * tx_slot_bytes s);
     if \<not> tx_frame_ok s e then do {
       modify (\<lambda>s. s\<lparr>usb_tx_err := usb_tx_err s + 1\<rparr>);
       rfnm_usb_buffer_done_out e;
       ret True
     }
     else if spares s \<noteq> [] then do {
       modify (\<lambda>s. s\<lparr>spares := butlast (spares s)\<rparr>);
       modify (\<lambda>s. s\<lparr>ub_out := remove1 e (ub_out s)\<rparr>);
       arm_out (e\<lparr>ue_buf := last (spares s)\<rparr>);
       left \<leftarrow> queue_tries buf need (ue_born e) 50;
       (if left = 0 then modify (\<lambda>s. s\<lparr>usb_tx_err := usb_tx_err s + 1\<rparr>) else ret ());
       modify (\<lambda>s. s\<lparr>spares := spares s @ [ue_buf e]\<rparr>);
       count_ingested;
       ret True
     }
     else do {
       modify (\<lambda>s. s\<lparr>slow_requeue := slow_requeue s + 1\<rparr>);
       r \<leftarrow> rfnm_queue_local_buffer_tx buf need (ue_born e);
       if r \<noteq> 0 then do { nap; ret False }
       else do { rfnm_usb_buffer_done_out e; count_ingested; ret True }
     }
   }"

fun ingest :: "nat \<Rightarrow> ('a usb_world_scheme, unit) state" where
  "ingest 0 = ret ()"
| "ingest (Suc n) = do {
     es \<leftarrow> gets ub_out;
     case es of [] \<Rightarrow> ret ()
     | e # r \<Rightarrow> do { go \<leftarrow> ingest_one e; if go then ingest n else ret () }
   }"

section \<open>Flush mode\<close>

text \<open>
  Every request of the four queues is queued to the controller with length 0 and its element freed,
  whatever the answer.
\<close>

fun flush_in :: "usb_ele list \<Rightarrow> ('a usb_world_scheme, unit) state" where
  "flush_in [] = ret ()"
| "flush_in (e # es) = do {
     rc \<leftarrow> usb_ep_queue;
     (if rc = 0 then modify (\<lambda>s. s\<lparr>udc_in := udc_in s @ [e\<lparr>ue_len := 0\<rparr>]\<rparr>) else ret ());
     flush_in es
   }"

fun flush_out :: "usb_ele list \<Rightarrow> ('a usb_world_scheme, unit) state" where
  "flush_out [] = ret ()"
| "flush_out (e # es) = do { arm_out (e\<lparr>ue_len := 0\<rparr>); flush_out es }"

definition flush_mode :: "('a usb_world_scheme, unit) state" where
  "flush_mode = do {
     a \<leftarrow> gets ub_in;
     modify (\<lambda>s. s\<lparr>ub_in := []\<rparr>);
     flush_in a;
     b \<leftarrow> gets ub_in_usb;
     modify (\<lambda>s. s\<lparr>ub_in_usb := []\<rparr>);
     flush_in b;
     c \<leftarrow> gets ub_out;
     modify (\<lambda>s. s\<lparr>ub_out := []\<rparr>);
     flush_out c;
     d \<leftarrow> gets ub_out_usb;
     modify (\<lambda>s. s\<lparr>ub_out_usb := []\<rparr>);
     flush_out d;
     modify (\<lambda>s. s\<lparr>flushmode := False\<rparr>)
   }"

text \<open>One pass of the worker; the answer is whether it goes on.\<close>

definition rfnm_handler_usb :: "('a usb_world_scheme, bool) state" where
  "rfnm_handler_usb = do {
     spares_init;
     n \<leftarrow> gets (\<lambda>s. length (ub_out s));
     ingest n;
     f \<leftarrow> gets flushmode;
     (if f then flush_mode else ret ());
     stop \<leftarrow> gets wq_stop_usb;
     if stop then do { modify (\<lambda>s. s\<lparr>wq_stop_usb := False\<rparr>); ret False }
     else do {
       m \<leftarrow> gets (\<lambda>s. length (ub_out_usb s));
       ship_loop m;
       ret True
     }
   }"

definition can_run_handler_usb :: "'a usb_world_scheme \<Rightarrow> bool" where
  "can_run_handler_usb s \<longleftrightarrow> ub_in_usb s \<noteq> [] \<or> ub_out s \<noteq> [] \<or> flushmode s \<or> wq_stop_usb s"

section \<open>Refill, reset and restart\<close>

definition try_alloc :: "('a usb_world_scheme, bool) state" where
  "try_alloc = do {
     n \<leftarrow> gets alloc_calls;
     modify (\<lambda>s. s\<lparr>alloc_calls := n + 1\<rparr>);
     gets (\<lambda>s. alloc_ok s n)
   }"

text \<open>The i-th fresh request: three allocations, the buffer freed again when the last one fails.\<close>

definition mint :: "nat \<Rightarrow> ('a usb_world_scheme, bool) state" where
  "mint i = do {
     a \<leftarrow> try_alloc;
     if \<not> a then ret False
     else do {
       b \<leftarrow> try_alloc;
       if \<not> b then ret False
       else do {
         k \<leftarrow> gets next_id;
         modify (\<lambda>s. s\<lparr>next_id := k + 1\<rparr>);
         es \<leftarrow> gets in_eps;
         c \<leftarrow> try_alloc;
         let e = \<lparr>ue_id = k, ue_ep = es ! (i mod length es), ue_buf = Heap k, ue_len = 4096, ue_actual = 0,
           ue_born = 0, seam_cc = 0, seam_pt = 0\<rparr>;
         if \<not> c then do { rfnm_usb_req_free e; ret False }
         else do { modify (\<lambda>s. s\<lparr>ub_in := ub_in s @ [e]\<rparr>); ret True }
       }
     }
   }"

fun mint_loop :: "nat \<Rightarrow> nat \<Rightarrow> ('a usb_world_scheme, nat) state" where
  "mint_loop i 0 = ret i"
| "mint_loop i (Suc n) = do { go \<leftarrow> mint i; if go then mint_loop (Suc i) n else ret i }"

definition rfnm_usb_in_pool_topup :: "('a usb_world_scheme, unit) state" where
  "rfnm_usb_in_pool_topup = do {
     es \<leftarrow> gets in_eps;
     if es = [] then ret ()
     else do {
       alive \<leftarrow> gets (\<lambda>s. inflight_cnt s + int (length (ub_in s)));
       made \<leftarrow> mint_loop 0 (nat (RFNM_USB_INFLIGHT_CAP - alive));
       set_rx18 (\<lambda>c. c\<lparr>req_created := req_created c + of_nat made, pool_topup := pool_topup c + of_nat made\<rparr>)
     }
   }"

text \<open>
  The drain of the queued requests, oldest first: \<open>dequeue_done\<close> tells whether the n-th call of
  \<open>usb_ep_dequeue\<close> has completed its request when the driver looks again.
\<close>

fun drain_inflight :: "nat \<Rightarrow> ('a usb_world_scheme, unit) state" where
  "drain_inflight 0 = ret ()"
| "drain_inflight (Suc n) = do {
     es \<leftarrow> gets inflight;
     case es of [] \<Rightarrow> ret ()
     | e # r \<Rightarrow> do {
         k \<leftarrow> gets (\<lambda>s. length (dequeued s));
         usb_ep_dequeue e;
         d \<leftarrow> gets (\<lambda>s. dequeue_done s k);
         (if d then rfnm_submit_usb_req_in (ue_ep e) True (- ECONNRESET) True True e else ret ());
         drain_inflight n
       }
   }"

definition zero_stats :: "('a usb_world_scheme, unit) state" where
  "zero_stats = modify (\<lambda>s. s\<lparr>usb_rx_ok := 0, usb_rx_err := 0, usb_rx_bytes := 0, usb_tx_ok := 0, usb_tx_err := 0,
     usb_tx_bytes := 0, local_rx_ok0 := 0, local_rx_err0 := 0, local_rx_err1 := 0\<rparr>)"

definition reset_cb :: "local_cb \<Rightarrow> local_cb" where
  "reset_cb l = l\<lparr>cb_head := 0, cb_buf := (\<lambda>i. if i < 4 then 0 else cb_buf l i),
     cb_size := (\<lambda>i. if i < 4 then 0 else cb_size l i)\<rparr>"

definition reset_chains :: "('a usb_world_scheme, unit) state" where
  "reset_chains = do {
     modify (\<lambda>s. s\<lparr>la_tail := 0\<rparr>);
     rfnm_note_host_ctrl;
     modify (\<lambda>s. s\<lparr>chain_prints := 0, cc_anchor_pending := 0xf\<rparr>);
     modify (\<lambda>s. s\<lparr>la_adc_cc := (\<lambda>i. if i < 4 then 0 else la_adc_cc s i),
       phytimer_valid := (\<lambda>i. i \<ge> 4 \<and> phytimer_valid s i)\<rparr>);
     modify (\<lambda>s. s\<lparr>tx_la_head := 0, tx_dac_cc := 0, tx_usb_cc := 0\<rparr>);
     modify (\<lambda>s. s\<lparr>wq_stop_in := False, wq_stop_out := False, wq_stop_usb := False\<rparr>)
   }"

definition arm_grace :: "('a usb_world_scheme, unit) state" where
  "arm_grace = do {
     modify (\<lambda>s. s\<lparr>gate_armed := False\<rparr>);
     modify (\<lambda>s. s\<lparr>head_grace_until := jiffies s + msecs s RFNM_USB_HEAD_GRACE_MS\<rparr>)
   }"

definition rfnm_reset_stream_io_state :: "('a usb_world_scheme, unit) state" where
  "rfnm_reset_stream_io_state = do {
     drain_inflight 256;
     modify (\<lambda>s. s\<lparr>ub_in := ub_in s @ ub_in_usb s, ub_in_usb := []\<rparr>);
     set_usb reset_cb;
     set_local reset_cb;
     reset_chains;
     modify (\<lambda>s. s\<lparr>ub_out_usb := ub_out_usb s @ ub_out s, ub_out := []\<rparr>);
     flush_pend;
     flush_user;
     arm_grace;
     zero_stats
   }"

fun requeue_all :: "usb_ele list \<Rightarrow> ('a usb_world_scheme, unit) state" where
  "requeue_all [] = ret ()"
| "requeue_all (e # es) = do { rfnm_usb_buffer_done_out e; requeue_all es }"

definition tx_scrub_ring :: "('a usb_world_scheme, unit) state" where
  "tx_scrub_ring = modify (\<lambda>s. s\<lparr>scrub_calls := scrub_calls s + 1\<rparr>)"

definition tx_flush_staging :: "bool \<Rightarrow> ('a usb_world_scheme, nat) state" where
  "tx_flush_staging scrub = do {
     n \<leftarrow> flush_pend;
     es \<leftarrow> gets ub_out;
     requeue_all es;
     (if scrub then tx_scrub_ring else ret ());
     modify (\<lambda>s. s\<lparr>pace_ok := False, pace_armed := False, pace_zero_streak := 0, tx_stale_since := 0,
       pos_expect_valid := False\<rparr>);
     modify (\<lambda>s. s\<lparr>tx_last_consume := jiffies s - msecs s 1000\<rparr>);
     ret (n + length es)
   }"

definition rfnm_dev_release :: "('a usb_world_scheme, unit) state" where
  "rfnm_dev_release = do {
     last \<leftarrow> release_last;
     if last then do { tx_flush_staging True; ret () } else ret ()
   }"

text \<open>
  \<open>rfnm_reset_sm\<close> ends the radio session first, when its module is there, and has the front-end
  driver forget the results it has published.
\<close>

definition rfnm_reset_sm :: "('a usb_world_scheme, unit) state" where
  "rfnm_reset_sm = do {
     q \<leftarrow> gets lalib_cb;
     (if q then rfnm_la9310_quiesce else ret ());
     d \<leftarrow> gets dgb_cb;
     (if d then modify (\<lambda>s. s\<lparr>dgb_resets := dgb_resets s + 1\<rparr>) else ret ());
     rfnm_reset_stream_io_state
   }"

text \<open>
  The body of a restart of the state machine. \<open>hard\<close>: the workers are stopped, \<open>works\<close> is whether
  they did (the wait is modelled in \<open>Apply\<close>). Otherwise a worker is asked to flush the requests,
  \<open>works\<close> is whether one does so in time.
\<close>

definition restart_sm_body :: "bool \<Rightarrow> bool \<Rightarrow> ('a usb_world_scheme, int) state" where
  "restart_sm_body hard works =
     (if hard \<and> \<not> works then ret (- ETIMEDOUT)
      else do {
        (if hard then ret ()
         else do {
           modify (\<lambda>s. s\<lparr>flushmode := True\<rparr>);
           if works then flush_mode else modify (\<lambda>s. s\<lparr>flushmode := False\<rparr>)
         });
        tx_flush_staging True;
        rfnm_usb_in_pool_topup;
        rfnm_reset_sm;
        ret 0
      })"

text \<open>
  The request for a restart from the USB control path: one at a time, the published results are
  forgotten at once; \<open>queued\<close> is whether the work could be queued.
\<close>

definition rfnm_schedule_restart_sm :: "bool \<Rightarrow> ('a usb_world_scheme, int) state" where
  "rfnm_schedule_restart_sm queued = do {
     r \<leftarrow> gets sm_restart_running;
     if r then ret (- EBUSY)
     else do {
       modify (\<lambda>s. s\<lparr>sm_restart_running := True\<rparr>);
       d \<leftarrow> gets dgb_cb;
       (if d then modify (\<lambda>s. s\<lparr>dgb_resets := dgb_resets s + 1\<rparr>) else ret ());
       if \<not> queued then do { modify (\<lambda>s. s\<lparr>sm_restart_running := False\<rparr>); ret (- EBUSY) }
       else ret 0
     }
   }"

end
