(* ===== verification/Usb_Steps.thy ===== *)
theory Usb_Steps
  imports Usb_Pool
begin

text \<open>
  The accounts of the USB transport: every buffer that the allocator has handed out is in exactly one
  place and none is freed twice or freed inside the ring; the counter of the queued requests agrees
  with their list; the requests of the receive direction are the created ones less the destroyed ones.
  Every operation of \<open>Usb_Pool\<close> keeps the first two, and every one but the flush mode the third.
\<close>

section \<open>Accounts\<close>

definition heap_of :: "usb_buf \<Rightarrow> nat multiset" where
  "heap_of b = (case b of Heap i \<Rightarrow> {#i#} | _ \<Rightarrow> {#})"

definition is_heap :: "usb_buf \<Rightarrow> bool" where
  "is_heap b = (case b of Heap i \<Rightarrow> True | _ \<Rightarrow> False)"

definition heaps :: "usb_buf list \<Rightarrow> nat multiset" where
  "heaps bs = sum_list (map heap_of bs)"

abbreviation bufs :: "usb_ele list \<Rightarrow> nat multiset" where
  "bufs es \<equiv> heaps (map ue_buf es)"

definition all_bufs :: "'a usb_world_scheme \<Rightarrow> nat multiset" where
  "all_bufs s = bufs (ub_in s) + bufs (ub_in_usb s) + bufs (inflight s) + bufs (udc_in s) +
     bufs (ub_out s) + bufs (ub_out_usb s) + bufs (udc_out s) + heaps (spares s) + heaps (kfreed s)"

definition out_heap :: "'a usb_world_scheme \<Rightarrow> bool" where
  "out_heap s \<longleftrightarrow> (\<forall>e \<in> set (ub_out s) \<union> set (ub_out_usb s) \<union> set (udc_out s). is_heap (ue_buf e)) \<and>
     (\<forall>b \<in> set (spares s) \<union> set (kfreed s). is_heap b)"

text \<open>\<open>h\<close>: the buffers that an operation holds at the moment.\<close>

definition mem_ok :: "nat multiset \<Rightarrow> 'a usb_world_scheme \<Rightarrow> bool" where
  "mem_ok h s \<longleftrightarrow> (\<forall>i. count (all_bufs s + h) i \<le> 1) \<and> (\<forall>i \<in># all_bufs s + h. i < next_id s) \<and> out_heap s"

text \<open>\<open>n\<close>: the elements an operation holds; \<open>b\<close>: the balance of births and deaths.\<close>

definition population :: "'a usb_world_scheme \<Rightarrow> nat" where
  "population s = length (ub_in s) + length (ub_in_usb s) + length (inflight s)"

definition acct :: "nat \<Rightarrow> u32 \<Rightarrow> 'a usb_world_scheme \<Rightarrow> bool" where
  "acct n b s \<longleftrightarrow> inflight_cnt s = int (length (inflight s)) \<and>
     of_nat (population s + n) = req_created (rx18 s) - req_destroyed (rx18 s) + b"

lemma heaps_simps [simp]:
  "heaps [] = {#}" "heaps (b # bs) = heap_of b + heaps bs" "heaps (as @ bs) = heaps as + heaps bs"
  by (simp_all add: heaps_def)

lemma heap_of_simps [simp]: "heap_of (Heap i) = {#i#}" "heap_of (Ring a) = {#}" "heap_of NoBuf = {#}"
  by (simp_all add: heap_of_def)

lemma is_heap_simps [simp]: "is_heap (Heap i)" "\<not> is_heap (Ring a)" "\<not> is_heap NoBuf"
  by (simp_all add: is_heap_def)

lemma bufs_remove1: "e \<in> set es \<Longrightarrow> bufs (remove1 e es) + heap_of (ue_buf e) = bufs es"
  by (induction es) (auto simp: ac_simps)

lemma heaps_butlast: "bs \<noteq> [] \<Longrightarrow> heaps (butlast bs) + heap_of (last bs) = heaps bs"
  by (induction bs) (auto simp: ac_simps)

lemma mem_ok_sub:
  assumes "mem_ok h s" and "all_bufs t + h' \<subseteq># all_bufs s + h" and "next_id s \<le> next_id t" and "out_heap t"
  shows "mem_ok h' t"
  unfolding mem_ok_def
proof (intro conjI allI ballI)
  show "count (all_bufs t + h') i \<le> 1" for i
    using assms(1,2) unfolding mem_ok_def subseteq_mset_def by (meson order_trans)
  show "i < next_id t" if "i \<in># all_bufs t + h'" for i
    using assms(1,3) mset_subset_eqD [OF assms(2) that] unfolding mem_ok_def by (meson order_less_le_trans)
qed fact

lemma mem_ok_eq:
  "mem_ok h s \<Longrightarrow> all_bufs t + h' = all_bufs s + h \<Longrightarrow> next_id t = next_id s \<Longrightarrow> out_heap t \<Longrightarrow> mem_ok h' t"
  by (erule mem_ok_sub) simp_all

section \<open>What the accounts depend on\<close>

definition usb_view :: "'a usb_world_scheme \<Rightarrow> _" where
  "usb_view s = (ub_in s, ub_in_usb s, inflight s, inflight_cnt s, udc_in s, ub_out s, ub_out_usb s, udc_out s,
     spares s, kfreed s, next_id s, req_created (rx18 s), req_destroyed (rx18 s))"

definition same_usb :: "'a usb_world_scheme \<Rightarrow> 'a usb_world_scheme \<Rightarrow> bool" where
  "same_usb s t \<longleftrightarrow> usb_view t = usb_view s \<and> same_pool s t"

interpretation su: run_rel same_usb
  by unfold_locales (simp_all add: same_usb_def same_pool_def)

definition usb_ok :: "nat multiset \<Rightarrow> nat \<Rightarrow> u32 \<Rightarrow> pool_ele multiset \<Rightarrow> pool_ele multiset \<Rightarrow> 'a usb_world_scheme \<Rightarrow> bool" where
  "usb_ok h n b hr ht s \<longleftrightarrow> mem_ok h s \<and> acct n b s \<and> pool_ok hr ht s"

lemma same_usb_ok: "same_usb s t \<Longrightarrow> usb_ok h n b hr ht t = usb_ok h n b hr ht s"
  unfolding usb_ok_def same_usb_def
  by (auto simp: usb_view_def mem_ok_def all_bufs_def out_heap_def acct_def population_def same_pool_ok)

lemma su_wp:
  "state_io_rel same_usb m \<Longrightarrow> usb_ok h n b hr ht s \<Longrightarrow> wp m (\<lambda>_. usb_ok h n b hr ht) s"
  using su.rel_wp [of m s] by (rule wp_mono) (auto simp: same_usb_ok)

text \<open>The operations of the local pool do not see the USB transport.\<close>

definition same_more :: "'a pool_world_scheme \<Rightarrow> 'a pool_world_scheme \<Rightarrow> bool" where
  "same_more s t \<longleftrightarrow> pool_world.more t = pool_world.more s"

interpretation sm: run_rel same_more
  by unfold_locales (simp_all add: same_more_def)

lemma same_more_usb:
  assumes "same_more s t"
  shows "usb_view t = usb_view s"
  using assms by (cases s; cases t) (simp add: same_more_def usb_view_def)

lemma sm_wp:
  assumes "state_io_rel same_more m" and "usb_ok h n b hr ht s" and "wp m (\<lambda>r. pool_ok (hr' r) (ht' r)) s"
  shows "wp m (\<lambda>r. usb_ok h n b (hr' r) (ht' r)) s"
  using wp_conj [OF sm.rel_wp [OF assms(1), of s] assms(3)]
proof (rule wp_mono, elim conjE)
  fix r t assume "same_more s t" "pool_ok (hr' r) (ht' r) t"
  then show "usb_ok h n b (hr' r) (ht' r) t"
    using assms(2) same_more_usb [of s t]
    by (simp add: usb_ok_def usb_view_def mem_ok_def all_bufs_def out_heap_def acct_def population_def)
qed

lemma sm_reclaim:
  "state_io_rel same_more (reclaim_rx q n)" "state_io_rel same_more (reclaim_tx q n)"
  by (induction n arbitrary: q)
    (auto intro!: so_rules sm.rel_rules sm.modify_rel simp: pool_op_defs same_more_def)

lemma sm_ops:
  "state_io_rel same_more (rfnm_queue_local_buffer_tx buf len born)" "state_io_rel same_more tx_return"
  "state_io_rel same_more flush_pend" "state_io_rel same_more flush_user" "state_io_rel same_more release_last"
  unfolding pool_op_defs release_last_def release_dec_def release_reclaim_def Let_def
  by (intro sm.rel_rules list_rel sm.modify_rel sm_reclaim; simp add: same_more_def)+

lemma wp_usb_queue:
  "usb_ok h n b hr ht s \<Longrightarrow> wp (rfnm_queue_local_buffer_tx buf len born) (\<lambda>_. usb_ok h n b hr ht) s"
  by (rule sm_wp [OF sm_ops(1)], assumption, rule wp_queue) (simp add: usb_ok_def)

lemma wp_usb_return: "usb_ok h n b hr ht s \<Longrightarrow> wp tx_return (\<lambda>_. usb_ok h n b hr ht) s"
  by (rule sm_wp [OF sm_ops(2)], assumption, rule wp_tx_return) (simp add: usb_ok_def)

lemma wp_usb_flush_pend: "usb_ok h n b hr ht s \<Longrightarrow> wp flush_pend (\<lambda>_. usb_ok h n b hr ht) s"
  by (rule sm_wp [OF sm_ops(3)], assumption, rule wp_flush_pend) (simp add: usb_ok_def)

lemma wp_usb_flush_user: "usb_ok h n b hr ht s \<Longrightarrow> wp flush_user (\<lambda>_. usb_ok h n b hr ht) s"
  by (rule sm_wp [OF sm_ops(4)], assumption, rule wp_flush_user) (simp add: usb_ok_def)

lemma wp_usb_release: "usb_ok h n b hr ht s \<Longrightarrow> wp release_last (\<lambda>_. usb_ok h n b hr ht) s"
  by (rule sm_wp [OF sm_ops(5)], assumption, rule wp_release_last) (simp add: usb_ok_def)

text \<open>Operations that only count or look.\<close>

lemma su_seam_done: "state_io_rel same_usb (seam_done_check e)"
  unfolding seam_done_check_def
  by (cases "ue_buf e")
    (auto intro!: su.rel_rules su.modify_rel simp: same_usb_def usb_view_def same_pool_def)

lemma su_ops:
  "state_io_rel same_usb (ep_count f)" "state_io_rel same_usb usb_ep_queue" "state_io_rel same_usb (usb_ep_dequeue e)"
  "state_io_rel same_usb (learn_ep ep)" "state_io_rel same_usb (note_completion status e)"
  "state_io_rel same_usb (rfnm_rx_seam_ship_check lane e)" "state_io_rel same_usb (set_usb g)"
  "state_io_rel same_usb rfnm_usb_rx_stage_gated" "state_io_rel same_usb rfnm_note_host_ctrl"
  "state_io_rel same_usb zero_stats" "state_io_rel same_usb tx_scrub_ring" "state_io_rel same_usb count_ingested"
  unfolding ep_count_def usb_ep_queue_def usb_ep_dequeue_def learn_ep_def note_completion_def
    rfnm_rx_seam_ship_check_def set_usb_def rfnm_usb_rx_stage_gated_def rfnm_note_host_ctrl_def zero_stats_def
    tx_scrub_ring_def count_ingested_def Let_def
  by (intro su.rel_rules su.modify_rel su_seam_done; simp add: same_usb_def usb_view_def same_pool_def)+

lemma su_rx18:
  "(\<And>c. req_created (f c) = req_created c) \<Longrightarrow> (\<And>c. req_destroyed (f c) = req_destroyed c) \<Longrightarrow>
     state_io_rel same_usb (set_rx18 f)"
  unfolding set_rx18_def by (rule su.modify_rel) (simp add: same_usb_def usb_view_def same_pool_def)


section \<open>Operations that move elements\<close>

lemma usb_modify:
  assumes "usb_ok h n b hr ht s" and "all_bufs (f s) + h' \<subseteq># all_bufs s + h" and "next_id s \<le> next_id (f s)"
    and "out_heap s \<Longrightarrow> out_heap (f s)" and "acct n b s \<Longrightarrow> acct n' b' (f s)" and "same_pool s (f s)"
  shows "wp (modify f) (\<lambda>_. usb_ok h' n' b' hr ht) s"
  using assms mem_ok_sub [of h s "f s" h'] same_pool_ok [OF assms(6)]
  by (simp add: usb_ok_def wp_modify mem_ok_def [of h s])

lemmas view_defs = all_bufs_def out_heap_def acct_def population_def same_pool_def

lemma wp_untrack:
  assumes "usb_ok h n b hr ht s" and "e \<in> set (inflight s)"
  shows "wp (modify (\<lambda>s. s\<lparr>inflight := remove1 e (inflight s), inflight_cnt := inflight_cnt s - 1\<rparr>))
    (\<lambda>_. usb_ok (heap_of (ue_buf e) + h) (Suc n) b hr ht) s"
proof (rule usb_modify [OF assms(1)], goal_cases)
  case 1
  then show ?case
    by (simp add: all_bufs_def bufs_remove1 [OF assms(2), symmetric] ac_simps)
next
  case 4
  have "length (inflight s) = Suc (length (remove1 e (inflight s)))"
    using length_pos_if_in_set [OF assms(2)] by (simp add: length_remove1 assms(2))
  with 4 show ?case by (simp add: acct_def population_def)
qed (simp_all add: view_defs)

lemma wp_from_udc_in:
  assumes "usb_ok h n b hr ht s" and "e \<in> set (udc_in s)"
  shows "wp (modify (\<lambda>s. s\<lparr>udc_in := remove1 e (udc_in s)\<rparr>)) (\<lambda>_. usb_ok (heap_of (ue_buf e) + h) n b hr ht) s"
proof (rule usb_modify [OF assms(1)], goal_cases)
  case 1
  then show ?case
    by (simp add: all_bufs_def bufs_remove1 [OF assms(2), symmetric] ac_simps)
qed (simp_all add: view_defs)

lemma wp_from_udc_out:
  assumes "usb_ok h n b hr ht s" and "e \<in> set (udc_out s)"
  shows "wp (modify (\<lambda>s. s\<lparr>udc_out := remove1 e (udc_out s)\<rparr>)) (\<lambda>_. usb_ok (heap_of (ue_buf e) + h) n b hr ht) s"
proof (rule usb_modify [OF assms(1)], goal_cases)
  case 1
  then show ?case
    by (simp add: all_bufs_def bufs_remove1 [OF assms(2), symmetric] ac_simps)
next
  case 3
  then show ?case by (auto simp: out_heap_def dest: notin_set_remove1 set_remove1_subset [THEN subsetD])
qed (simp_all add: view_defs)

lemma wp_from_ub_out:
  assumes "usb_ok h n b hr ht s" and "e \<in> set (ub_out s)"
  shows "wp (modify (\<lambda>s. s\<lparr>ub_out := remove1 e (ub_out s)\<rparr>)) (\<lambda>_. usb_ok (heap_of (ue_buf e) + h) n b hr ht) s"
proof (rule usb_modify [OF assms(1)], goal_cases)
  case 1
  then show ?case
    by (simp add: all_bufs_def bufs_remove1 [OF assms(2), symmetric] ac_simps)
next
  case 3
  then show ?case by (auto simp: out_heap_def dest: set_remove1_subset [THEN subsetD])
qed (simp_all add: view_defs)

lemma wp_created:
  assumes "usb_ok h n b hr ht s"
  shows "wp (set_rx18 (\<lambda>c. c\<lparr>req_created := req_created c + 1\<rparr>)) (\<lambda>_. usb_ok h (Suc n) b hr ht) s"
  unfolding set_rx18_def by (rule usb_modify [OF assms]) (simp_all add: view_defs)

lemma wp_kfree:
  assumes "usb_ok (heap_of x + h) n b hr ht s"
  shows "wp (kfree_buf x) (\<lambda>_. usb_ok h n b hr ht) s"
proof (cases x)
  case (Heap i)
  then show ?thesis
    unfolding kfree_buf_def by simp (rule usb_modify [OF assms], simp_all add: view_defs ac_simps)
qed (use assms in \<open>simp_all add: kfree_buf_def wp_ret\<close>)

lemma wp_destroy:
  assumes "usb_ok (heap_of (ue_buf e) + h) (Suc n) b hr ht s"
  shows "wp (destroy_in e) (\<lambda>_. usb_ok h n b hr ht) s"
proof -
  have "wp (set_rx18 (\<lambda>c. c\<lparr>req_destroyed := req_destroyed c + 1\<rparr>))
      (\<lambda>_. usb_ok (heap_of (ue_buf e) + h) n b hr ht) s"
    unfolding set_rx18_def
    by (rule usb_modify [OF assms]) (simp_all add: view_defs algebra_simps)
  then show ?thesis
    unfolding destroy_in_def rfnm_usb_req_free_def by (rule wp_then) (rule wp_kfree)
qed

lemma wp_enrol:
  assumes "usb_ok (heap_of (ue_buf e) + h) (Suc n) b hr ht s"
  shows "wp (modify (\<lambda>s. s\<lparr>ub_in := ub_in s @ [e]\<rparr>)) (\<lambda>_. usb_ok h n b hr ht) s"
  by (rule usb_modify [OF assms]) (simp_all add: view_defs ac_simps)

lemma wp_stage:
  assumes "usb_ok (heap_of (ue_buf e) + h) (Suc n) b hr ht s"
  shows "wp (stage e) (\<lambda>_. usb_ok h n b hr ht) s"
  unfolding stage_def by (rule usb_modify [OF assms]) (simp_all add: view_defs ac_simps)

lemma wp_track:
  assumes "usb_ok (heap_of (ue_buf e) + h) (Suc n) b hr ht s"
  shows "wp (modify (\<lambda>s. s\<lparr>inflight := inflight s @ [e], inflight_cnt := inflight_cnt s + 1\<rparr>))
    (\<lambda>_ t. usb_ok h n b hr ht t \<and> e \<in> set (inflight t)) s"
  by (rule wp_conj [OF usb_modify [OF assms]]) (simp_all add: view_defs ac_simps wp_modify)

lemma wp_pop_ub_in:
  assumes "usb_ok h n b hr ht s"
  shows "wp pop_ub_in (\<lambda>r t. case r of None \<Rightarrow> usb_ok h n b hr ht t
    | Some e \<Rightarrow> usb_ok (heap_of (ue_buf e) + h) (Suc n) b hr ht t) s"
proof (cases "ub_in s")
  case (Cons e r)
  have "wp (modify (\<lambda>s. s\<lparr>ub_in := r\<rparr>)) (\<lambda>_. usb_ok (heap_of (ue_buf e) + h) (Suc n) b hr ht) s"
    by (rule usb_modify [OF assms]) (simp_all add: Cons view_defs ac_simps)
  with Cons show ?thesis
    by (simp add: pop_ub_in_def wp_eqs)
qed (simp add: pop_ub_in_def wp_eqs assms)

lemma usb_drop: "usb_ok (x + h) n b hr ht s \<Longrightarrow> usb_ok h n b hr ht s"
proof -
  assume ok: "usb_ok (x + h) n b hr ht s"
  then have "mem_ok (x + h) s" "out_heap s" by (simp_all add: usb_ok_def mem_ok_def)
  then have "mem_ok h s" using mem_ok_sub [of "x + h" s s h] by simp
  with ok show ?thesis by (simp add: usb_ok_def)
qed

lemma wp_arm_out:
  assumes "usb_ok (heap_of (ue_buf e) + h) n b hr ht s" and "is_heap (ue_buf e)"
  shows "wp (arm_out e) (\<lambda>_. usb_ok h n b hr ht) s"
  unfolding arm_out_def
proof (rule wp_then [OF su_wp [OF su_ops(2) assms(1)]], intro wp_ifI, goal_cases)
  case (1 r t)
  then show ?case
    by (intro usb_modify [OF 1(1)]) (use assms(2) in \<open>auto simp: view_defs ac_simps\<close>)
next
  case (2 r t)
  then show ?case by (simp add: wp_ret usb_drop)
qed

lemma out_is_heap: "usb_ok h n b hr ht s \<Longrightarrow> e \<in> set (ub_out s) \<union> set (ub_out_usb s) \<union> set (udc_out s) \<Longrightarrow> is_heap (ue_buf e)"
  by (simp add: usb_ok_def mem_ok_def out_heap_def)

lemma wp_done_out:
  assumes "usb_ok h n b hr ht s" and "e \<in> set (ub_out s)"
  shows "wp (rfnm_usb_buffer_done_out e) (\<lambda>_. usb_ok h n b hr ht) s"
  unfolding rfnm_usb_buffer_done_out_def
  by (rule wp_then [OF wp_from_ub_out [OF assms]], rule wp_arm_out, assumption)
    (use out_is_heap [OF assms(1)] assms(2) in simp)

section \<open>The receive direction\<close>

lemma note_same_buf: "wp (note_completion status e) (\<lambda>e' _. ue_buf e' = ue_buf e) s"
  unfolding note_completion_def by (simp add: wp_eqs wp_def split: prod.split)

lemma wp_settle_in:
  assumes ok: "usb_ok (heap_of (ue_buf e) + h) (Suc n) b hr ht s"
  shows "wp (settle_in ep ss status e) (\<lambda>_. usb_ok h n b hr ht) s"
  unfolding settle_in_def
proof (intro wp_ifI, goal_cases)
  case 2
  show ?case by (rule wp_then [OF su_wp [OF su_ops(1) ok]]) (rule wp_destroy)
next
  case 3
  have fin: "wp (modify (\<lambda>s. s\<lparr>usb_rx_bytes := usb_rx_bytes s + ucast (ue_actual x)\<rparr>)) (\<lambda>_. usb_ok h n b hr ht) t"
    if "usb_ok h n b hr ht t" for t x
    using that by (intro su_wp [OF su.modify_rel]) (simp_all add: same_usb_def usb_view_def same_pool_def)
  show ?case
  proof (rule wp_then [OF wp_conj [OF su_wp [OF su_ops(5) ok] note_same_buf]], elim conjE,
      rule wp_then [OF su_wp [OF su_ops(4)]], assumption, goal_cases)
    case (1 x t y u)
    then show ?case
      by (intro wp_then [OF wp_enrol fin]) simp
  qed
qed (rule wp_destroy [OF ok])

lemma wp_submit_in:
  assumes "usb_ok h n b hr ht s" and "tracked \<Longrightarrow> e \<in> set (inflight s)" and "\<not> tracked \<Longrightarrow> e \<in> set (udc_in s)"
  shows "wp (rfnm_submit_usb_req_in ep ss status tracked mem e) (\<lambda>_. usb_ok h n b hr ht) s"
  unfolding rfnm_submit_usb_req_in_def
proof (intro wp_ifI, goal_cases)
  case 1
  show ?case by (rule wp_then [OF wp_untrack [OF assms(1,2)]], rule 1) (rule wp_settle_in)
next
  case 2
  show ?case
  proof (rule wp_then [OF wp_from_udc_in [OF assms(1,3)]], rule 2, intro wp_ifI, goal_cases)
    case (1 r t)
    then show ?case by (simp add: wp_ret usb_drop)
  next
    case (2 r t)
    show ?case by (rule wp_then [OF wp_created [OF 2(1)]]) (rule wp_settle_in)
  qed
qed


text \<open>Filling a request frees the buffer it came with, if any, and points it into the ring.\<close>

lemma wp_fill_req:
  assumes "usb_ok (heap_of (ue_buf e) + h) n b hr ht s"
  shows "wp (usb_fill_req lane pos e) (\<lambda>e' t. usb_ok (heap_of (ue_buf e') + h) n b hr ht t) s"
proof -
  have slot: "usb_ok h n b hr ht (t\<lparr>usb_slot := f\<rparr>) = usb_ok h n b hr ht t" for h t f
    by (rule same_usb_ok) (simp add: same_usb_def usb_view_def same_pool_def)
  have ck: "wp (rfnm_rx_seam_ship_check lane x) (\<lambda>e' _. ue_buf e' = ue_buf x) t" for x and t :: "'a usb_world_scheme"
    unfolding rfnm_rx_seam_ship_check_def Let_def by (simp add: wp_eqs)
  show ?thesis
    unfolding usb_fill_req_def rfnm_usb_req_point_at_ring_def Let_def
  proof (rule wp_then [OF su_wp [OF su_ops(7) assms]], intro wp_steps, rule wp_mono [OF wp_kfree [of _ h n b hr ht]],
      simp add: slot, intro wp_steps, goal_cases)
    case (1 r t u v)
    show ?case
      by (rule wp_mono [OF wp_conj [OF su_wp [OF su_ops(6) 1(2)] ck]]) auto
  qed
qed

lemma wp_usb_advance: "usb_ok h n b hr ht s \<Longrightarrow> wp (usb_advance lane) (\<lambda>_. usb_ok h n b hr ht) s"
  unfolding usb_advance_def by (intro wp_steps su_wp [OF su_ops(7)])

lemma wp_usb_clear: "usb_ok h n b hr ht s \<Longrightarrow> wp (usb_clear_size lane) (\<lambda>_. usb_ok h n b hr ht) s"
  unfolding usb_clear_size_def by (rule su_wp [OF su_ops(7)])

text \<open>Changes of counters and flags.\<close>

lemma su_flags:
  "state_io_rel same_usb (modify (\<lambda>s. s\<lparr>usb_rx_err := usb_rx_err s + 1\<rparr>))"
  "state_io_rel same_usb (modify (\<lambda>s. s\<lparr>usb_rx_ok := usb_rx_ok s + 1\<rparr>))"
  "state_io_rel same_usb (modify (\<lambda>s. s\<lparr>usb_tx_err := usb_tx_err s + 1\<rparr>))"
  "state_io_rel same_usb (modify (\<lambda>s. s\<lparr>slow_requeue := slow_requeue s + 1\<rparr>))"
  "state_io_rel same_usb (modify (\<lambda>s. s\<lparr>partial_flushes := partial_flushes s + 1\<rparr>))"
  "state_io_rel same_usb (modify (\<lambda>s. s\<lparr>jump_discont_usb := jump_discont_usb s OR x\<rparr>))"
  "state_io_rel same_usb (modify (\<lambda>s. s\<lparr>starved_periods := 0, gate_armed := False\<rparr>))"
  "state_io_rel same_usb (modify (\<lambda>s. s\<lparr>flushmode := f\<rparr>))"
  "state_io_rel same_usb (modify (\<lambda>s. s\<lparr>wq_stop_usb := f\<rparr>))"
  by (rule su.modify_rel, simp add: same_usb_def usb_view_def same_pool_def)+

lemma su_counts:
  "state_io_rel same_usb (set_rx18 (\<lambda>c. c\<lparr>full_gated := full_gated c + 1\<rparr>))"
  "state_io_rel same_usb (set_rx18 (\<lambda>c. c\<lparr>full_pool_empty := full_pool_empty c + 1\<rparr>))"
  "state_io_rel same_usb (set_rx18 (\<lambda>c. c\<lparr>full_ok := full_ok c + 1\<rparr>))"
  "state_io_rel same_usb (set_rx18 (\<lambda>c. c\<lparr>partial_gated := partial_gated c + 1\<rparr>))"
  "state_io_rel same_usb (set_rx18 (\<lambda>c. c\<lparr>partial_pool_empty := partial_pool_empty c + 1\<rparr>))"
  "state_io_rel same_usb (set_rx18 (\<lambda>c. c\<lparr>partial_ok := partial_ok c + 1\<rparr>))"
  "state_io_rel same_usb (set_rx18 (\<lambda>c. c\<lparr>queue_fail := queue_fail c + 1\<rparr>))"
  "state_io_rel same_usb (set_rx18 (\<lambda>c. c\<lparr>udc_pokes := udc_pokes c + 1\<rparr>))"
  "state_io_rel same_usb (set_rx18 (\<lambda>c. c\<lparr>rate_sweeps := rate_sweeps c + 1\<rparr>))"
  by (rule su_rx18; simp)+

lemma su_usb_sizes: "state_io_rel same_usb (usb_advance lane)" "state_io_rel same_usb (usb_clear_size lane)"
  unfolding usb_advance_def usb_clear_size_def by (intro su.rel_rules su_ops)+

lemma wp_usb_ship:
  assumes "usb_ok h n b hr ht s"
  shows "wp (usb_ship lane pos) (\<lambda>_. usb_ok h n b hr ht) s"
  unfolding usb_ship_def
proof (rule wp_then [OF su_wp [OF su_ops(8) assms]],
    rule wp_then [where P = "\<lambda>r t. case r of None \<Rightarrow> usb_ok h n b hr ht t
      | Some e \<Rightarrow> usb_ok (heap_of (ue_buf e) + h) (Suc n) b hr ht t"], goal_cases)
  case (1 g t)
  then show ?case by (auto simp: wp_ret intro: wp_pop_ub_in)
next
  case (2 g t x u)
  note held = 2(2)
  show ?case
  proof (intro wp_optionI, goal_cases)
    case 1
    then show ?case
      using held by (intro su_wp su.rel_rules su_flags su_counts su_usb_sizes) simp_all
  next
    case (2 e)
    with held have "usb_ok (heap_of (ue_buf e) + h) (Suc n) b hr ht u" by simp
    then show ?case
      by (rule wp_then [OF wp_fill_req]) (rule wp_then [OF wp_stage], assumption,
        intro su_wp su.rel_rules su_flags su_counts su_usb_sizes)
  qed
qed


section \<open>The deadline flush\<close>

lemma su_sweep: "state_io_rel same_usb rfnm_usb_in_dequeue_sweep"
  unfolding rfnm_usb_in_dequeue_sweep_def
  by (intro su.rel_rules su_counts su.modify_rel) (simp add: same_usb_def usb_view_def same_pool_def)

lemma su_rate: "state_io_rel same_usb rate_trigger"
  unfolding rate_trigger_def
  by (intro su.rel_rules su_counts su_sweep su.modify_rel) (simp_all add: same_usb_def usb_view_def same_pool_def)

lemma su_poke: "state_io_rel same_usb poke_stalled"
  unfolding poke_stalled_def
  by (intro su.rel_rules list_rel su_counts su_sweep su_ops su.modify_rel)
    (simp_all add: same_usb_def usb_view_def same_pool_def)

lemma wp_stall_detector:
  assumes "usb_ok h n b hr ht s"
  shows "wp stall_detector (\<lambda>_. usb_ok h n b hr ht) s"
proof -
  have cnt: "inflight_cnt s = int (length (inflight s))"
    using assms by (simp add: usb_ok_def acct_def)
  have flags: "state_io_rel same_usb (modify (\<lambda>s. s\<lparr>gate_armed := True, blocked_since := jiffies s\<rparr>))"
    "state_io_rel same_usb (modify (\<lambda>s. s\<lparr>gate_armed := False\<rparr>))"
    by (rule su.modify_rel, simp add: same_usb_def usb_view_def same_pool_def)+
  show ?thesis
    unfolding stall_detector_def
  proof (intro wp_steps wp_ifI, goal_cases)
    case 1
    show ?case using su_wp [OF flags(1) assms] by (simp add: wp_modify)
  next
    case 2
    with cnt show ?case by simp
  next
    case 3
    show ?case
      by (rule wp_mono [OF su_wp [OF su_poke assms]]) (rule su_wp [OF flags(2)])
  next
    case 4
    show ?case using su_wp [OF flags(2) assms] by (simp add: wp_modify)
  qed (rule assms)
qed

lemma wp_flush_lane:
  assumes "usb_ok h n b hr ht s"
  shows "wp (flush_lane lane) (\<lambda>_. usb_ok h n b hr ht) s"
  unfolding flush_lane_def Let_def
proof (intro wp_steps wp_ifI, goal_cases)
  case 3
  show ?case by (rule wp_mono [OF wp_stall_detector [OF assms]]) (simp add: wp_ret)
next
  case 4
  have a: "usb_ok h n b hr ht (s\<lparr>starved_periods := 0, gate_armed := False\<rparr>)"
    using su_wp [OF su_flags(7) assms] by (simp add: wp_modify)
  show ?case
  proof (rule wp_mono [OF su_wp [OF su_ops(8) a]], intro wp_ifI wp_steps, goal_cases)
    case (1 r t)
    show ?case by (rule wp_mono [OF su_wp [OF su_counts(4) 1(1)]]) (simp add: wp_ret)
  next
    case (2 r t)
    show ?case
    proof (rule wp_mono [OF wp_pop_ub_in [OF 2(1)]], intro wp_optionI wp_steps, goal_cases)
      case (1 x u)
      then show ?case
        by (intro wp_mono [OF su_wp [OF su_counts(5)]]) (simp_all add: wp_ret)
    next
      case (2 x u e)
      then have e: "usb_ok (heap_of (ue_buf e) + h) (Suc n) b hr ht u" by simp
      show ?case
        by (rule wp_mono [OF wp_fill_req [OF e]], rule wp_then [OF wp_stage], assumption,
            intro su_wp su.rel_rules su_flags su_counts su_usb_sizes)
    qed
  qed
qed (simp_all add: assms)

lemma wp_flush_lanes: "usb_ok h n b hr ht s \<Longrightarrow> wp (flush_lanes lane k) (\<lambda>_. usb_ok h n b hr ht) s"
proof (induction k arbitrary: lane s)
  case (Suc k)
  then show ?case
    by simp (rule wp_then [OF wp_flush_lane], assumption, auto simp: wp_ret)
qed (simp add: wp_ret)

lemma wp_flush_partial:
  "usb_ok h n b hr ht s \<Longrightarrow> wp rfnm_rx_flush_partial_usb (\<lambda>_. usb_ok h n b hr ht) s"
  unfolding rfnm_rx_flush_partial_usb_def
  by (intro wp_steps wp_ifI) (auto intro: wp_mono [OF su_wp [OF su_rate]] wp_flush_lanes)

section \<open>The worker\<close>

lemma wp_ship_in:
  assumes "usb_ok (heap_of (ue_buf e) + h) (Suc n) b hr ht s"
  shows "wp (ship_in e) (\<lambda>_. usb_ok h n b hr ht) s"
proof -
  have q: "wp usb_ep_queue (\<lambda>_ t. usb_ok h n b hr ht t \<and> e \<in> set (inflight t)) t"
    if "usb_ok h n b hr ht t \<and> e \<in> set (inflight t)" for t
    by (rule wp_conj [OF su_wp [OF su_ops(2)]]) (use that in \<open>simp_all add: usb_ep_queue_def wp_eqs\<close>)
  show ?thesis
    unfolding ship_in_def
  proof (rule wp_then [OF wp_track [OF assms]], rule wp_then [OF q], assumption, intro wp_ifI, goal_cases)
    case (2 r t rc u)
    then show ?case
    proof (elim conjE, goal_cases)
      case 1
      show ?case
      proof (rule wp_then [OF wp_untrack], fact 1, fact 1, rule wp_then [OF su_wp [OF su_counts(7)]], assumption,
          intro wp_ifI wp_enrol wp_destroy)
      qed
    qed
  qed (simp add: wp_ret)
qed

lemma wp_pop_staged:
  assumes "usb_ok h n b hr ht s" and "ub_in_usb s = e # r"
  shows "wp (modify (\<lambda>s. s\<lparr>ub_in_usb := r\<rparr>)) (\<lambda>_. usb_ok (heap_of (ue_buf e) + h) (Suc n) b hr ht) s"
  by (rule usb_modify [OF assms(1)]) (simp_all add: view_defs assms(2) ac_simps)

lemma wp_pop_out_usb:
  assumes "usb_ok h n b hr ht s" and "ub_out_usb s = e # r"
  shows "wp (modify (\<lambda>s. s\<lparr>ub_out_usb := r\<rparr>)) (\<lambda>_. usb_ok (heap_of (ue_buf e) + h) n b hr ht) s"
  by (rule usb_modify [OF assms(1)]) (simp_all add: view_defs assms(2) ac_simps)

lemma wp_ship_loop: "usb_ok h n b hr ht s \<Longrightarrow> wp (ship_loop k) (\<lambda>_. usb_ok h n b hr ht) s"
proof (induction k arbitrary: s rule: nat.induct)
  fix k and s :: "'a usb_world_scheme"
  have gen: "wp (ship_loop m) (\<lambda>_. usb_ok h n b hr ht) s"
    if ok: "usb_ok h n b hr ht s"
      and ih: "\<And>m' (s :: 'a usb_world_scheme). m = Suc m' \<Longrightarrow> usb_ok h n b hr ht s \<Longrightarrow> wp (ship_loop m') (\<lambda>_. usb_ok h n b hr ht) s"
    for m and s :: "'a usb_world_scheme"
  proof -
    have first: "wp (case ub_in_usb s of [] \<Rightarrow> ret () | e # r \<Rightarrow> do { modify (\<lambda>s. s\<lparr>ub_in_usb := r\<rparr>); ship_in e })
        (\<lambda>_. usb_ok h n b hr ht) s"
    proof (cases "ub_in_usb s")
      case (Cons e r)
      then show ?thesis
        by simp (rule wp_then [OF wp_pop_staged [OF ok Cons]], rule wp_ship_in)
    qed (simp add: wp_ret ok)
    have tail: "wp (case m of 0 \<Rightarrow> ret () | Suc m' \<Rightarrow> ship_loop m') (\<lambda>_. usb_ok h n b hr ht) t"
      if "usb_ok h n b hr ht t" for t :: "'a usb_world_scheme"
      using that by (cases m) (simp_all add: wp_ret ih)
    show ?thesis
      unfolding ship_loop.simps [of m]
    proof (intro wp_steps, rule wp_mono [OF first], intro wp_steps, goal_cases)
      case (1 r t)
      show ?case
      proof (cases "ub_out_usb t")
        case (Cons e r)
        have hp: "is_heap (ue_buf e)" using out_is_heap [OF 1] Cons by simp
        show ?thesis
          by (simp add: Cons, rule wp_then [OF wp_pop_out_usb [OF 1 Cons]], rule wp_then [OF wp_arm_out], assumption,
              rule hp) (rule tail)
      qed (use 1 in \<open>simp add: wp_ret\<close>)
    qed
  qed
  show "usb_ok h n b hr ht s \<Longrightarrow> wp (ship_loop 0) (\<lambda>_. usb_ok h n b hr ht) s"
    by (rule gen) simp_all
  show "wp (ship_loop (Suc k)) (\<lambda>_. usb_ok h n b hr ht) s"
    if "\<And>s :: 'a usb_world_scheme. usb_ok h n b hr ht s \<Longrightarrow> wp (ship_loop k) (\<lambda>_. usb_ok h n b hr ht) s" "usb_ok h n b hr ht s"
    by (rule gen [OF that(2)]) (use that(1) in simp)
qed


section \<open>The transmit direction\<close>

lemma wp_submit_out:
  assumes "usb_ok h n b hr ht s" and "e \<in> set (udc_out s)"
  shows "wp (rfnm_submit_usb_req_out ss status e) (\<lambda>_. usb_ok h n b hr ht) s"
proof -
  have hp: "is_heap (ue_buf e)" using out_is_heap [OF assms(1)] assms(2) by simp
  have free: "wp (modify (\<lambda>s. s\<lparr>kfreed := kfreed s @ [ue_buf e]\<rparr>)) (\<lambda>_. usb_ok h n b hr ht) t"
    if "usb_ok (heap_of (ue_buf e) + h) n b hr ht t" for t
    by (rule usb_modify [OF that]) (use hp in \<open>auto simp: view_defs ac_simps\<close>)
  have add: "wp (modify (\<lambda>s. s\<lparr>ub_out := ub_out s @ [e\<lparr>ue_born := now_kt s\<rparr>]\<rparr>)) (\<lambda>_. usb_ok h n b hr ht) t"
    if "usb_ok (heap_of (ue_buf e) + h) n b hr ht t" for t
    by (rule usb_modify [OF that]) (use hp in \<open>auto simp: view_defs ac_simps\<close>)
  have bytes: "state_io_rel same_usb (modify (\<lambda>s. s\<lparr>usb_tx_bytes := usb_tx_bytes s + x\<rparr>))" for x
    by (rule su.modify_rel) (simp add: same_usb_def usb_view_def same_pool_def)
  have cnt: "state_io_rel same_usb (if status = 0 then ep_count (\<lambda>c. c\<lparr>st_ok := st_ok c + 1\<rparr>)
        else if status = - ECONNABORTED \<or> status = - ECONNRESET then ep_count (\<lambda>c. c\<lparr>st_dead := st_dead c + 1\<rparr>)
        else if status = - EREMOTEIO then ep_count (\<lambda>c. c\<lparr>st_remoteio := st_remoteio c + 1\<rparr>)
        else do {
          (if status = - EOVERFLOW then ep_count (\<lambda>c. c\<lparr>st_overflow := st_overflow c + 1\<rparr>) else ret ());
          ep_count (\<lambda>c. c\<lparr>st_default := st_default c + 1\<rparr>)
        })"
    by (intro su.rel_rules su_ops)
  show ?thesis
    unfolding rfnm_submit_usb_req_out_def
  proof (rule wp_then [OF wp_from_udc_out [OF assms]], intro wp_ifI, goal_cases)
    case (1 r t)
    then show ?case by (simp add: wp_ret usb_drop)
  next
    case (2 r t)
    show ?case by (rule wp_then [OF su_wp [OF su_ops(1) 2(1)]]) (rule free)
  next
    case (3 r t)
    show ?case
      by (rule wp_then [OF su_wp [OF cnt 3(1)]], rule wp_then [OF add], assumption) (rule su_wp [OF bytes])
  qed
qed

lemma wp_returns: "usb_ok h n b hr ht s \<Longrightarrow> wp (returns k) (\<lambda>_. usb_ok h n b hr ht) s"
proof (induction k arbitrary: s)
  case (Suc k)
  then show ?case by simp (rule wp_then [OF wp_usb_return])
qed (simp add: wp_ret)

lemma wp_nap:
  assumes "usb_ok h n b hr ht s"
  shows "wp nap (\<lambda>_. usb_ok h n b hr ht) s"
proof -
  have "usb_ok h n b hr ht (s\<lparr>sleeps := k\<rparr>)" for k
    using assms by (subst same_usb_ok [of s]) (simp_all add: same_usb_def usb_view_def same_pool_def)
  then show ?thesis
    unfolding nap_def by (intro wp_steps wp_returns)
qed

lemma wp_queue_tries:
  "usb_ok h n b hr ht s \<Longrightarrow> wp (queue_tries buf len born k) (\<lambda>_. usb_ok h n b hr ht) s"
proof (induction k arbitrary: s)
  case (Suc k)
  show ?case
    unfolding queue_tries.simps
    by (rule wp_then [OF wp_usb_queue [OF Suc.prems]]) (auto simp: wp_ret intro: wp_then [OF wp_nap] Suc.IH)
qed (simp add: wp_ret)

lemma wp_take_spare:
  assumes "usb_ok h n b hr ht s" and "spares s \<noteq> []"
  shows "wp (modify (\<lambda>s. s\<lparr>spares := butlast (spares s)\<rparr>)) (\<lambda>_. usb_ok (heap_of (last (spares s)) + h) n b hr ht) s"
  by (rule usb_modify [OF assms(1)])
    (use assms(2) in \<open>auto simp: view_defs heaps_butlast [OF assms(2), symmetric] ac_simps dest: in_set_butlastD\<close>)

lemma wp_give_spare:
  assumes "usb_ok (heap_of x + h) n b hr ht s" and "is_heap x"
  shows "wp (modify (\<lambda>s. s\<lparr>spares := spares s @ [x]\<rparr>)) (\<lambda>_. usb_ok h n b hr ht) s"
  by (rule usb_modify [OF assms(1)]) (use assms(2) in \<open>auto simp: view_defs ac_simps\<close>)

lemma wp_ingest_one:
  assumes "usb_ok h n b hr ht s" and "e \<in> set (ub_out s)"
  shows "wp (ingest_one e) (\<lambda>_. usb_ok h n b hr ht) s"
proof -
  have hp: "is_heap (ue_buf e)" using out_is_heap [OF assms(1)] assms(2) by simp
  have dn: "wp (rfnm_usb_buffer_done_out e) (\<lambda>_. usb_ok h n b hr ht) t"
    if "usb_ok h n b hr ht t" "ub_out t = ub_out s" for t
    using wp_done_out [OF that(1)] assms(2) that(2) by simp
  show ?thesis
    unfolding ingest_one_def Let_def
  proof (intro wp_steps wp_ifI, goal_cases)
    case 1
    show ?case
      using su_wp [OF su_flags(3) assms(1)]
      by (intro wp_mono [OF dn]) (simp_all add: wp_modify wp_ret)
  next
    case 2
    have l: "is_heap (last (spares s))"
      using assms(1) 2(2) by (simp add: usb_ok_def mem_ok_def out_heap_def)
    have a: "usb_ok (heap_of (last (spares s)) + (heap_of (ue_buf e) + h)) n b hr ht
        (s\<lparr>spares := butlast (spares s), ub_out := remove1 e (ub_out s)\<rparr>)"
      using wp_take_spare [OF assms(1) 2(2)] wp_from_ub_out [of "heap_of (last (spares s)) + h" n b hr ht
          "s\<lparr>spares := butlast (spares s)\<rparr>" e] assms(2)
      by (simp add: wp_modify ac_simps)
    show ?case
    proof (rule wp_mono [OF wp_arm_out [of _ "heap_of (ue_buf e) + h" n b hr ht]], simp add: a, simp add: l, intro wp_steps,
        rule wp_mono [OF wp_queue_tries], assumption, intro wp_steps, goal_cases)
      case (1 r t u v)
      have "wp (if u = 0 then modify (\<lambda>s. s\<lparr>usb_tx_err := usb_tx_err s + 1\<rparr>) else ret ())
          (\<lambda>_. usb_ok (heap_of (ue_buf e) + h) n b hr ht) v"
        using 1(2) by (intro su_wp su.rel_rules su_flags)
      then show ?case
        by (rule wp_mono) (rule wp_then [OF wp_give_spare [OF _ hp]], assumption,
          rule wp_then [OF su_wp [OF su_ops(12)]], assumption, simp add: wp_ret)
    qed
  next
    case 3
    have c: "usb_ok h n b hr ht (s\<lparr>slow_requeue := slow_requeue s + 1\<rparr>)"
      using su_wp [OF su_flags(4) assms(1)] by (simp add: wp_modify)
    have q: "wp (rfnm_queue_local_buffer_tx buf k x) (\<lambda>_ t. usb_ok h n b hr ht t \<and> ub_out t = ub_out s)
        (s\<lparr>slow_requeue := slow_requeue s + 1\<rparr>)" for buf k x
      using wp_conj [OF wp_usb_queue [OF c] sm.rel_wp [OF sm_ops(1)]]
      by (rule wp_mono) (auto dest!: same_more_usb simp: usb_view_def)
    show ?case
    proof (rule wp_mono [OF q], elim conjE, intro wp_ifI wp_steps, goal_cases)
      case (1 r t)
      show ?case by (rule wp_mono [OF wp_nap [OF 1(1)]]) (simp add: wp_ret)
    next
      case (2 r t)
      show ?case
        by (rule wp_mono [OF dn [OF 2(1,2)]], intro wp_steps,
            rule wp_mono [OF su_wp [OF su_ops(12)]], assumption, simp add: wp_ret)
    qed
  qed
qed

lemma wp_ingest: "usb_ok h n b hr ht s \<Longrightarrow> wp (ingest k) (\<lambda>_. usb_ok h n b hr ht) s"
proof (induction k arbitrary: s)
  case (Suc k)
  show ?case
  proof (cases "ub_out s")
    case (Cons e r)
    have "wp (ingest_one e) (\<lambda>_. usb_ok h n b hr ht) s"
      by (rule wp_ingest_one [OF Suc.prems]) (simp add: Cons)
    then show ?thesis
      by (simp add: wp_eqs Cons) (erule wp_mono, auto simp: wp_ret intro: Suc.IH)
  qed (simp add: wp_eqs Suc.prems)
qed (simp add: wp_ret)


section \<open>Flush mode, refill, reset\<close>

text \<open>The flush mode loses elements from the account: \<open>m\<close> of them.\<close>

lemma wp_flush_in:
  "usb_ok (bufs es + h) n b hr ht s \<Longrightarrow> wp (flush_in es) (\<lambda>_. usb_ok h n b hr ht) s"
proof (induction es arbitrary: s)
  case (Cons e es)
  have ok: "usb_ok (heap_of (ue_buf e) + (bufs es + h)) n b hr ht s"
    using Cons.prems by (simp add: ac_simps)
  show ?case
    unfolding flush_in.simps
  proof (rule wp_then [OF su_wp [OF su_ops(2) ok]],
      rule wp_then [where P = "\<lambda>_. usb_ok (bufs es + h) n b hr ht"], goal_cases)
    case (1 r t)
    have "wp (modify (\<lambda>s. s\<lparr>udc_in := udc_in s @ [e\<lparr>ue_len := 0\<rparr>]\<rparr>)) (\<lambda>_. usb_ok (bufs es + h) n b hr ht) t"
      by (rule usb_modify [OF 1]) (simp_all add: view_defs ac_simps)
    then show ?case using usb_drop [OF 1] by (simp add: wp_ret)
  qed (rule Cons.IH)
qed (simp add: wp_ret)

lemma wp_flush_out:
  "usb_ok (bufs es + h) n b hr ht s \<Longrightarrow> \<forall>e \<in> set es. is_heap (ue_buf e) \<Longrightarrow>
     wp (flush_out es) (\<lambda>_. usb_ok h n b hr ht) s"
proof (induction es arbitrary: s)
  case (Cons e es)
  have "usb_ok (heap_of (ue_buf (e\<lparr>ue_len := 0\<rparr>)) + (bufs es + h)) n b hr ht s"
    using Cons.prems(1) by (simp add: ac_simps)
  from wp_arm_out [OF this] Cons.prems(2) show ?case
    by simp (erule wp_then, rule Cons.IH, simp_all)
qed (simp add: wp_ret)

lemma flush_in_staged: "wp (flush_in es) (\<lambda>_ t. ub_in_usb t = ub_in_usb s) s"
proof (induction es arbitrary: s)
  case (Cons e es)
  have "wp usb_ep_queue (\<lambda>_ t. ub_in_usb t = ub_in_usb s) s"
    by (simp add: usb_ep_queue_def wp_eqs)
  then show ?case
    unfolding flush_in.simps
  proof (rule wp_then, goal_cases)
    case (1 r t)
    show ?case
      by (rule wp_then [where P = "\<lambda>_ u. ub_in_usb u = ub_in_usb s"]) (use 1 Cons.IH in \<open>auto simp: wp_eqs elim: subst\<close>)
  qed
qed (simp add: wp_ret)

definition pooled :: "'a usb_world_scheme \<Rightarrow> nat" where
  "pooled s = length (ub_in s) + length (ub_in_usb s)"

lemma wp_flush_mode:
  assumes "usb_ok h n b hr ht s"
  shows "wp flush_mode (\<lambda>_. usb_ok h n (b - of_nat (pooled s)) hr ht) s"
  unfolding flush_mode_def
proof (intro wp_steps, goal_cases)
  case 1
  let ?b1 = "b - of_nat (length (ub_in s))"
  let ?b2 = "b - of_nat (pooled s)"
  have "usb_ok (bufs (ub_in s) + h) n ?b1 hr ht (s\<lparr>ub_in := []\<rparr>)"
    using usb_modify [OF assms, of "\<lambda>s. s\<lparr>ub_in := []\<rparr>" "bufs (ub_in s) + h" n ?b1]
    by (simp add: view_defs wp_modify ac_simps algebra_simps)
  then have f: "wp (flush_in (ub_in s)) (\<lambda>_ t. usb_ok h n ?b1 hr ht t \<and> ub_in_usb t = ub_in_usb s) (s\<lparr>ub_in := []\<rparr>)"
    using flush_in_staged [of "ub_in s" "s\<lparr>ub_in := []\<rparr>"] by (intro wp_conj wp_flush_in) simp_all
  show ?case
  proof (rule wp_mono [OF f], elim conjE, intro wp_steps, goal_cases)
    case (1 r t)
    have "usb_ok (bufs (ub_in_usb t) + h) n ?b2 hr ht (t\<lparr>ub_in_usb := []\<rparr>)"
      using usb_modify [OF 1(1), of "\<lambda>s. s\<lparr>ub_in_usb := []\<rparr>" "bufs (ub_in_usb t) + h" n ?b2] 1(2)
      by (simp add: view_defs wp_modify ac_simps pooled_def algebra_simps)
    note fi = wp_flush_in [OF this]
    show ?case
    proof (rule wp_mono [OF fi], intro wp_steps, goal_cases)
      case (1 r u)
      have hu: "\<forall>e \<in> set (ub_out u). is_heap (ue_buf e)" using out_is_heap [OF 1] by blast
      have "usb_ok (bufs (ub_out u) + h) n ?b2 hr ht (u\<lparr>ub_out := []\<rparr>)"
        using usb_modify [OF 1, of "\<lambda>s. s\<lparr>ub_out := []\<rparr>" "bufs (ub_out u) + h" n ?b2]
        by (simp add: view_defs wp_modify ac_simps)
      note fo = wp_flush_out [OF this hu]
      show ?case
      proof (rule wp_mono [OF fo], intro wp_steps, goal_cases)
        case (1 r v)
        have hv: "\<forall>e \<in> set (ub_out_usb v). is_heap (ue_buf e)" using out_is_heap [OF 1] by blast
        have "wp (modify (\<lambda>s. s\<lparr>ub_out_usb := []\<rparr>)) (\<lambda>_. usb_ok (bufs (ub_out_usb v) + h) n ?b2 hr ht) v"
          by (rule usb_modify [OF 1]) (auto simp: view_defs ac_simps)
        then have "usb_ok (bufs (ub_out_usb v) + h) n ?b2 hr ht (v\<lparr>ub_out_usb := []\<rparr>)"
          by (simp add: wp_modify)
        from wp_flush_out [OF this hv] show ?case
          by (rule wp_mono) (rule su_wp [OF su_flags(8)])
      qed
    qed
  qed
qed

lemma wp_mint:
  assumes "usb_ok h n b hr ht s"
  shows "wp (mint i) (\<lambda>r. usb_ok h n (if r then b + 1 else b) hr ht) s"
proof -
  have al: "wp try_alloc (\<lambda>_. usb_ok h n b hr ht) t" if "usb_ok h n b hr ht t" for h t
    unfolding try_alloc_def
    by (rule su_wp [OF _ that], intro su.rel_rules su.modify_rel) (simp add: same_usb_def usb_view_def same_pool_def)
  have fresh: "usb_ok ({#next_id t#} + h) n b hr ht (t\<lparr>next_id := next_id t + 1\<rparr>)" if "usb_ok h n b hr ht t" for t
  proof -
    have "i < next_id t" if "i \<in># all_bufs t + h" for i
      using that \<open>usb_ok h n b hr ht t\<close> by (simp add: usb_ok_def mem_ok_def)
    then have "count (all_bufs t + h) (next_id t) = 0"
      by (meson count_inI less_irrefl)
    with that show ?thesis
      by (auto simp: usb_ok_def mem_ok_def view_defs same_pool_ok [of t "t\<lparr>next_id := Suc (next_id t)\<rparr>"] less_Suc_eq)
  qed
  show ?thesis
    unfolding mint_def Let_def
  proof (rule wp_then [OF al [OF assms]], intro wp_ifI, goal_cases)
    case (2 r t)
    show ?case
    proof (rule wp_then [OF al [OF 2(1)]], intro wp_ifI wp_steps, goal_cases)
      case (2 r u)
      show ?case
      proof (rule wp_mono [OF al [OF fresh [OF 2(1)]]], intro wp_ifI wp_steps, goal_cases)
        case (1 q v)
        then show ?case
          unfolding rfnm_usb_req_free_def by (intro wp_mono [OF wp_kfree [of _ h n b hr ht]]) (simp_all add: wp_ret)
      next
        case (2 q v)
        show ?case
          using usb_modify [OF 2(1), of "\<lambda>s. s\<lparr>ub_in := ub_in s @ [x]\<rparr>" h n "b + 1" for x]
          by (simp add: wp_modify wp_ret view_defs)
      qed
    qed (simp add: wp_ret)
  qed (simp add: wp_ret)
qed


lemma wp_mint_loop:
  "usb_ok h n (b + of_nat i) hr ht s \<Longrightarrow> wp (mint_loop i k) (\<lambda>m. usb_ok h n (b + of_nat m) hr ht) s"
proof (induction k arbitrary: i s)
  case (Suc k)
  show ?case
    unfolding mint_loop.simps
  proof (rule wp_then [OF wp_mint [OF Suc.prems]], intro wp_ifI, goal_cases)
    case (1 r t)
    then show ?case by (intro Suc.IH) (simp add: algebra_simps)
  qed (simp add: wp_ret)
qed (simp add: wp_ret)

lemma wp_topup:
  assumes "usb_ok h n b hr ht s"
  shows "wp rfnm_usb_in_pool_topup (\<lambda>_. usb_ok h n b hr ht) s"
  unfolding rfnm_usb_in_pool_topup_def set_rx18_def
proof (intro wp_steps wp_ifI, goal_cases)
  case 2
  have "wp (mint_loop 0 k) (\<lambda>m. usb_ok h n (b + of_nat m) hr ht) s" for k
    using wp_mint_loop [of h n b 0 hr ht s] assms by simp
  note ml = this
  show ?case
  proof (rule wp_mono [OF ml], goal_cases)
    case (1 m t)
    show ?case
      by (rule usb_modify [OF 1]) (simp_all add: view_defs algebra_simps)
  qed
qed (rule assms)

lemma wp_drain: "usb_ok h n b hr ht s \<Longrightarrow> wp (drain_inflight k) (\<lambda>_. usb_ok h n b hr ht) s"
proof (induction k arbitrary: s)
  case (Suc k)
  show ?case
  proof (cases "inflight s")
    case (Cons e r)
    let ?t = "s\<lparr>dequeued := dequeued s @ [ue_id e]\<rparr>"
    have ok: "usb_ok h n b hr ht ?t"
      using su_wp [OF su_ops(3) Suc.prems, of e] by (simp add: usb_ep_dequeue_def wp_modify)
    have "wp (rfnm_submit_usb_req_in (ue_ep e) True (- ECONNRESET) True True e) (\<lambda>_. usb_ok h n b hr ht) ?t"
      by (rule wp_submit_in [OF ok]) (simp_all add: Cons)
    then show ?thesis
      by (simp add: wp_eqs Cons usb_ep_dequeue_def) (use Suc.IH ok in \<open>auto elim: wp_mono\<close>)
  qed (simp add: wp_eqs Suc.prems)
qed (simp add: wp_ret)

lemma su_resets: "state_io_rel same_usb reset_chains" "state_io_rel same_usb arm_grace"
  unfolding reset_chains_def arm_grace_def
  by (intro su.rel_rules su_ops su.modify_rel; simp add: same_usb_def usb_view_def same_pool_def)+

lemma wp_usb_set_local:
  assumes "usb_ok h n b hr ht s"
  shows "wp (set_local reset_cb) (\<lambda>_. usb_ok h n b hr ht) s"
proof -
  have "0 < rx_slots s"
    using assms by (auto simp: usb_ok_def pool_ok_def rx_ok_def lane_ok_def word_gt_0)
  then have "pool_ok hr ht (s\<lparr>rx_local := reset_cb (rx_local s)\<rparr>)"
    using assms
    by (auto simp: usb_ok_def pool_ok_def rx_ok_def tx_ok_def rx_all_def tx_all_def lane_ok_def reset_cb_def)
  with assms show ?thesis
    by (simp add: set_local_def wp_modify usb_ok_def mem_ok_def view_defs)
qed

lemma wp_reset_stream:
  assumes "usb_ok h n b hr ht s"
  shows "wp rfnm_reset_stream_io_state (\<lambda>_. usb_ok h n b hr ht) s"
  unfolding rfnm_reset_stream_io_state_def
proof (rule wp_then [OF wp_drain [OF assms]], rule wp_then [where P = "\<lambda>_. usb_ok h n b hr ht"], goal_cases)
  case (1 r t)
  show ?case by (rule usb_modify [OF 1]) (simp_all add: view_defs ac_simps)
next
  case (2 r t q u)
  have mv: "wp (modify (\<lambda>s. s\<lparr>ub_out_usb := ub_out_usb s @ ub_out s, ub_out := []\<rparr>)) (\<lambda>_. usb_ok h n b hr ht) v"
    if "usb_ok h n b hr ht v" for v
    by (rule usb_modify [OF that]) (auto simp: view_defs ac_simps)
  show ?case
    by (rule wp_then [OF su_wp [OF su_ops(7) 2(2)]], rule wp_then [OF wp_usb_set_local], assumption,
        rule wp_then [OF su_wp [OF su_resets(1)]], assumption, rule wp_then [OF mv], assumption,
        rule wp_then [OF wp_usb_flush_pend], assumption, rule wp_then [OF wp_usb_flush_user], assumption,
        rule wp_then [OF su_wp [OF su_resets(2)]], assumption, rule su_wp [OF su_ops(10)])
qed

lemma done_out_ub_out:
  "wp (rfnm_usb_buffer_done_out e) (\<lambda>_ t. ub_out t = remove1 e (ub_out s)) s"
  unfolding rfnm_usb_buffer_done_out_def arm_out_def usb_ep_queue_def by (simp add: wp_eqs)

lemma wp_requeue_all: "usb_ok h n b hr ht s \<Longrightarrow> es = ub_out s \<Longrightarrow> wp (requeue_all es) (\<lambda>_. usb_ok h n b hr ht) s"
proof (induction es arbitrary: s)
  case (Cons e es)
  have "e \<in> set (ub_out s)" using Cons.prems(2) by (metis list.set_intros(1))
  note d = wp_conj [OF wp_done_out [OF Cons.prems(1) this] done_out_ub_out]
  show ?case
    unfolding requeue_all.simps
  proof (rule wp_then [OF d], elim conjE, rule Cons.IH, assumption, goal_cases)
    case (1 r t)
    then show ?case by (simp add: Cons.prems(2) [symmetric])
  qed
qed (simp add: wp_ret)

lemma wp_tx_flush_staging:
  assumes "usb_ok h n b hr ht s"
  shows "wp (tx_flush_staging scrub) (\<lambda>_. usb_ok h n b hr ht) s"
proof -
  have fin: "wp (do {
      (if scrub then tx_scrub_ring else ret ());
      modify (\<lambda>s. s\<lparr>pace_ok := False, pace_armed := False, pace_zero_streak := 0, tx_stale_since := 0,
        pos_expect_valid := False\<rparr>);
      modify (\<lambda>s. s\<lparr>tx_last_consume := jiffies s - msecs s 1000\<rparr>);
      ret k }) (\<lambda>_. usb_ok h n b hr ht) t" if "usb_ok h n b hr ht t" for t and k :: nat
    by (rule su_wp [OF _ that], intro su.rel_rules su_ops su.modify_rel)
      (simp_all add: same_usb_def usb_view_def same_pool_def)
  show ?thesis
    unfolding tx_flush_staging_def
    by (rule wp_then [OF wp_usb_flush_pend [OF assms]], intro wp_steps, rule wp_mono [OF wp_requeue_all], assumption,
        rule refl, rule fin)
qed

lemma wp_dev_release:
  assumes "usb_ok h n b hr ht s"
  shows "wp rfnm_dev_release (\<lambda>_. usb_ok h n b hr ht) s"
  unfolding rfnm_dev_release_def
  by (rule wp_then [OF wp_usb_release [OF assms]], intro wp_ifI wp_steps)
    (auto simp: wp_ret intro: wp_mono [OF wp_tx_flush_staging])

text \<open>Ending the radio session does not touch the transports.\<close>

lemma su_session: "state_io_rel more_same m \<Longrightarrow> state_io_rel same_usb m"
proof -
  have "same_usb s t" if "more_same s t" for s t :: "'a usb_world_scheme"
    using that by (cases s; cases t) (simp add: more_same_def same_usb_def usb_view_def same_pool_def)
  then show "state_io_rel more_same m \<Longrightarrow> state_io_rel same_usb m"
    unfolding state_io_rel_def by blast
qed

lemma wp_reset_sm:
  assumes "usb_ok h n b hr ht s"
  shows "wp rfnm_reset_sm (\<lambda>_. usb_ok h n b hr ht) s"
proof -
  have pre: "state_io_rel same_usb (do {
      q \<leftarrow> gets lalib_cb;
      (if q then rfnm_la9310_quiesce else ret ());
      d \<leftarrow> gets dgb_cb;
      (if d then modify (\<lambda>s. s\<lparr>dgb_resets := dgb_resets s + 1\<rparr>) else ret ()) })"
    by (intro su.rel_rules su_session [OF mr_verbs(4)] su.modify_rel)
      (simp add: same_usb_def usb_view_def same_pool_def)
  have "wp (State_Monad.bind (do {
      q \<leftarrow> gets lalib_cb;
      (if q then rfnm_la9310_quiesce else ret ());
      d \<leftarrow> gets dgb_cb;
      (if d then modify (\<lambda>s. s\<lparr>dgb_resets := dgb_resets s + 1\<rparr>) else ret ()) })
      (\<lambda>_. rfnm_reset_stream_io_state)) (\<lambda>_. usb_ok h n b hr ht) s"
    by (rule wp_then [OF su_wp [OF pre assms]]) (rule wp_reset_stream)
  then show ?thesis
    by (simp add: rfnm_reset_sm_def wp_bind)
qed

text \<open>\<open>l\<close>: how many elements a restart loses when it asks for a flush.\<close>

lemma wp_restart:
  assumes "usb_ok h n b hr ht s"
  shows "wp (restart_sm_body hard works)
    (\<lambda>_. usb_ok h n (b - of_nat (if \<not> hard \<and> works then pooled s else 0)) hr ht) s"
proof -
  let ?b = "b - of_nat (if \<not> hard \<and> works then pooled s else 0) :: u32"
  have first: "wp (if hard then ret () else do {
        modify (\<lambda>s. s\<lparr>flushmode := True\<rparr>);
        if works then flush_mode else modify (\<lambda>s. s\<lparr>flushmode := False\<rparr>)
      }) (\<lambda>_. usb_ok h n ?b hr ht) s"
  proof (intro wp_ifI wp_steps, goal_cases)
    case 2
    have f: "usb_ok h n b hr ht (s\<lparr>flushmode := True\<rparr>)"
      using su_wp [OF su_flags(8) assms] by (simp add: wp_modify)
    show ?case
      by (rule wp_mono [OF wp_flush_mode [OF f]]) (use 2 in \<open>simp add: pooled_def\<close>)
  next
    case 3
    then show ?case
      using assms by (subst same_usb_ok [of s]) (simp_all add: same_usb_def usb_view_def same_pool_def)
  qed (use assms in simp_all)
  show ?thesis
    unfolding restart_sm_body_def
  proof (intro wp_ifI, goal_cases)
    case 1
    then show ?case using assms by (simp add: wp_ret)
  next
    case 2
    show ?case
      by (rule wp_then [OF first], rule wp_then [OF wp_tx_flush_staging], assumption,
          rule wp_then [OF wp_topup], assumption, rule wp_then [OF wp_reset_sm], assumption, simp add: wp_ret)
  qed
qed

section \<open>A pass of the worker\<close>

definition same_flush :: "'a usb_world_scheme \<Rightarrow> 'a usb_world_scheme \<Rightarrow> bool" where
  "same_flush s t \<longleftrightarrow> flushmode t = flushmode s"

interpretation sf: run_rel same_flush
  by unfold_locales (simp_all add: same_flush_def)

lemma sf_pool:
  assumes "state_io_rel same_more m"
  shows "state_io_rel same_flush m"
proof -
  have "same_flush s t" if "same_more s t" for s t :: "'a usb_world_scheme"
    using that by (cases s; cases t) (simp add: same_more_def same_flush_def)
  with assms show ?thesis unfolding state_io_rel_def by blast
qed

lemma sf_returns: "state_io_rel same_flush (returns n)"
  by (induction n) (auto intro: sf.rel_rules sf_pool sm_ops)

lemma sf_nap: "state_io_rel same_flush nap"
  unfolding nap_def by (intro sf.rel_rules sf_returns sf.modify_rel) (simp add: same_flush_def)

lemma sf_tries: "state_io_rel same_flush (queue_tries buf len born n)"
  by (induction n) (auto intro!: sf.rel_rules sf_nap sf_pool [OF sm_ops(1)])

lemma sf_ingest: "state_io_rel same_flush (ingest n)"
proof (induction n)
  case (Suc n)
  have "state_io_rel same_flush (ingest_one e)" for e
    unfolding ingest_one_def rfnm_usb_buffer_done_out_def arm_out_def usb_ep_queue_def count_ingested_def Let_def
    by (intro sf.rel_rules sf_tries sf_nap sf_pool [OF sm_ops(1)] sf.modify_rel) (simp_all add: same_flush_def)
  with Suc show ?case by (auto intro!: sf.rel_rules list_rel)
qed (simp add: sf.ret_rel)

lemma wp_spares_init:
  assumes "usb_ok {#} n b hr ht s"
  shows "wp spares_init (\<lambda>_ t. usb_ok {#} n b hr ht t \<and> flushmode t = flushmode s) s"
proof (cases "spares_ready s")
  case False
  let ?new = "map (\<lambda>i. Heap (next_id s + i)) [0..<spares_max s]"
  let ?t = "s\<lparr>spares := ?new, next_id := next_id s + spares_max s, spares_ready := True\<rparr>"
  have new: "heaps ?new = mset [next_id s..<next_id s + spares_max s]"
  proof (induction "spares_max s")
    case 0
    then show ?case by simp
  next
    case (Suc m)
    have "heaps (map (\<lambda>i. Heap (k + i)) [0..<n]) = mset [k..<k + n]" for k n
      by (induction n) simp_all
    then show ?case .
  qed
  have old: "all_bufs ?t + heaps (spares s) = all_bufs s + heaps ?new"
    by (simp add: all_bufs_def ac_simps)
  have "count (all_bufs ?t) i \<le> 1 \<and> (i \<in># all_bufs ?t \<longrightarrow> i < next_id ?t)" for i
  proof (cases "next_id s \<le> i")
    case True
    then have "i \<notin># all_bufs s"
      using assms by (auto simp: usb_ok_def mem_ok_def)
    then have z: "count (all_bufs s) i = 0" by (simp add: not_in_iff)
    have "count (heaps ?new) i = (if i < next_id s + spares_max s then 1 else 0)"
      using True by (simp add: new count_mset_set')
    then have le: "count (all_bufs ?t) i \<le> (if i < next_id s + spares_max s then 1 else 0)"
      using arg_cong [OF old, of "\<lambda>m. count m i"] z by (simp del: if_split)
    show ?thesis
    proof (cases "i < next_id s + spares_max s")
      case False
      with le have z: "count (all_bufs ?t) i = 0" by simp
      show ?thesis unfolding count_greater_zero_iff [symmetric] z by simp
    qed (use le in simp)
  next
    case False
    have "count (heaps ?new) i = 0" using False by (simp add: new count_mset_0_iff del: mset_upt)
    then have "count (all_bufs ?t) i \<le> count (all_bufs s) i"
      using arg_cong [OF old, of "\<lambda>m. count m i"] by simp
    moreover have "count (all_bufs s) i \<le> 1" using assms by (simp add: usb_ok_def mem_ok_def)
    ultimately show ?thesis using False by simp
  qed
  moreover have "out_heap ?t" using assms by (auto simp: usb_ok_def mem_ok_def out_heap_def)
  ultimately have "mem_ok {#} ?t" by (simp add: mem_ok_def)
  then show ?thesis
    using False assms
    by (simp add: spares_init_def wp_eqs usb_ok_def acct_def population_def same_pool_ok [of s ?t] same_pool_def)
qed (simp add: spares_init_def wp_eqs assms)

lemma wp_handler:
  assumes "usb_ok {#} n b hr ht s"
  shows "wp rfnm_handler_usb (\<lambda>_ t. if flushmode s then \<exists>b'. usb_ok {#} n b' hr ht t else usb_ok {#} n b hr ht t) s"
proof -
  have rest: "wp (do {
      stop \<leftarrow> gets wq_stop_usb;
      if stop then do { modify (\<lambda>s. s\<lparr>wq_stop_usb := False\<rparr>); ret False }
      else do { m \<leftarrow> gets (\<lambda>s. length (ub_out_usb s)); ship_loop m; ret True } }) (\<lambda>_. usb_ok {#} n c hr ht) t"
    if "usb_ok {#} n c hr ht t" for c t
  proof (intro wp_steps wp_ifI, goal_cases)
    case 1
    show ?case using su_wp [OF su_flags(9) that, of False] by (simp add: wp_modify)
  next
    case 2
    show ?case by (rule wp_mono [OF wp_ship_loop [OF that]]) (simp add: wp_ret)
  qed
  have ing: "wp (ingest k) (\<lambda>_ t. usb_ok {#} n b hr ht t \<and> flushmode t = flushmode s) t"
    if "usb_ok {#} n b hr ht t" "flushmode t = flushmode s" for k t
    using wp_conj [OF wp_ingest [OF that(1)] sf.rel_wp [OF sf_ingest [of k], of t]]
    by (rule wp_mono) (use that(2) in \<open>simp add: same_flush_def\<close>)
  show ?thesis
    unfolding rfnm_handler_usb_def
  proof (rule wp_then [OF wp_spares_init [OF assms]], elim conjE, rule wp_bind [THEN iffD2], rule wp_gets [THEN iffD2],
      rule wp_then [OF ing], assumption, assumption, elim conjE, rule wp_bind [THEN iffD2], rule wp_gets [THEN iffD2], goal_cases)
    case (1 r t q u)
    show ?case
    proof (cases "flushmode s")
      case True
      show ?thesis
        by (rule wp_then [where P = "\<lambda>_. usb_ok {#} n (b - of_nat (pooled u)) hr ht"],
            use True 1 wp_flush_mode [of "{#}" n b hr ht u] in simp, rule wp_mono [OF rest], assumption)
          (use True in auto)
    next
      case False
      with 1 have "\<not> flushmode u" by simp
      with False rest [OF 1(3)] show ?thesis by (simp add: wp_ret wp_bind)
    qed
  qed
qed


section \<open>The system\<close>

text \<open>
  The driver with the controller and the clients. \<open>fl\<close> marks the steps in which the requests are
  flushed. At an enumeration the function driver allocates requests of its own and queues them
  (\<open>new_in\<close>, \<open>new_out\<close>); a packet that arrives fills the buffer of a request that the controller holds.
\<close>

type_synonym 'a usb_sys = "'a usb_world_scheme \<times> pool_ele multiset \<times> pool_ele multiset \<times> int multiset"

definition fresh_req :: "nat \<Rightarrow> nat \<Rightarrow> usb_ele" where
  "fresh_req k ep = \<lparr>ue_id = k, ue_ep = ep, ue_buf = Heap k, ue_len = 4096, ue_actual = 0, ue_born = 0,
     seam_cc = 0, seam_pt = 0\<rparr>"

inductive usb_step :: "bool \<Rightarrow> 'a usb_sys \<Rightarrow> 'a usb_sys \<Rightarrow> bool" where
  pool: "pool_step c d \<Longrightarrow> pool_world.more (fst d) = pool_world.more (fst c) \<Longrightarrow> usb_step False c d"
| complete_in: "e \<in> set (inflight s) \<Longrightarrow>
    usb_step False (s, hr, ht, fd) (after (rfnm_submit_usb_req_in ep ss status True mem e) s, hr, ht, fd)"
| complete_new: "e \<in> set (udc_in s) \<Longrightarrow>
    usb_step False (s, hr, ht, fd) (after (rfnm_submit_usb_req_in ep ss status False mem e) s, hr, ht, fd)"
| complete_out: "e \<in> set (udc_out s) \<Longrightarrow>
    usb_step False (s, hr, ht, fd) (after (rfnm_submit_usb_req_out ss status e) s, hr, ht, fd)"
| ship: "usb_step False (s, hr, ht, fd) (after (usb_ship lane pos) s, hr, ht, fd)"
| deadline: "usb_step False (s, hr, ht, fd) (after rfnm_rx_flush_partial_usb s, hr, ht, fd)"
| worker: "usb_step (flushmode s) (s, hr, ht, fd) (after rfnm_handler_usb s, hr, ht, fd)"
| release: "usb_step False (s, hr, ht, fd) (after rfnm_dev_release s, hr, ht, fd)"
| tx_flush: "usb_step False (s, hr, ht, fd) (after (tx_flush_staging scrub) s, hr, ht, fd)"
| reset: "usb_step False (s, hr, ht, fd) (after rfnm_reset_stream_io_state s, hr, ht, fd)"
| restart: "usb_step (\<not> hard \<and> works) (s, hr, ht, fd) (after (restart_sm_body hard works) s, hr, ht, fd)"
| new_in: "usb_step False (s, hr, ht, fd)
    (s\<lparr>udc_in := udc_in s @ [fresh_req (next_id s) ep], next_id := next_id s + 1\<rparr>, hr, ht, fd)"
| new_out: "usb_step False (s, hr, ht, fd)
    (s\<lparr>udc_out := udc_out s @ [fresh_req (next_id s) ep], next_id := next_id s + 1\<rparr>, hr, ht, fd)"
| receive: "i < length (udc_out s) \<Longrightarrow> usb_step False (s, hr, ht, fd)
    (s\<lparr>udc_out := (udc_out s)[i := (udc_out s ! i)\<lparr>ue_actual := n\<rparr>], ubuf := (ubuf s)(ue_buf (udc_out s ! i) := bytes)\<rparr>,
     hr, ht, fd)"
| outside: "same_usb s t \<Longrightarrow> usb_step False (s, hr, ht, fd) (t, hr, ht, fd)"

definition usb_inv :: "u32 \<Rightarrow> 'a usb_sys \<Rightarrow> bool" where
  "usb_inv b c = (case c of (s, hr, ht, fd) \<Rightarrow> usb_ok {#} 0 b hr ht s)"

lemma fresh_in:
  assumes "usb_ok {#} n b hr ht s"
  shows "usb_ok {#} n b hr ht (s\<lparr>udc_in := udc_in s @ [fresh_req (next_id s) ep], next_id := next_id s + 1\<rparr>)"
    and "usb_ok {#} n b hr ht (s\<lparr>udc_out := udc_out s @ [fresh_req (next_id s) ep], next_id := next_id s + 1\<rparr>)"
proof -
  have pk: "pool_ok hr ht (s\<lparr>udc_in := x, next_id := y\<rparr>) = pool_ok hr ht s"
    "pool_ok hr ht (s\<lparr>udc_out := x, next_id := y\<rparr>) = pool_ok hr ht s" for x y
    by (rule same_pool_ok, simp add: same_pool_def)+
  have "next_id s \<notin># all_bufs s" using assms by (auto simp: usb_ok_def mem_ok_def)
  then have "count (all_bufs s) (next_id s) = 0" by (simp add: not_in_iff)
  with assms show "usb_ok {#} n b hr ht (s\<lparr>udc_in := udc_in s @ [fresh_req (next_id s) ep], next_id := next_id s + 1\<rparr>)"
    and "usb_ok {#} n b hr ht (s\<lparr>udc_out := udc_out s @ [fresh_req (next_id s) ep], next_id := next_id s + 1\<rparr>)"
    by (auto simp: usb_ok_def mem_ok_def acct_def population_def all_bufs_def out_heap_def fresh_req_def less_Suc_eq pk)
qed

lemma received:
  assumes "usb_ok {#} n b hr ht s" and "i < length (udc_out s)"
  shows "usb_ok {#} n b hr ht (s\<lparr>udc_out := (udc_out s)[i := (udc_out s ! i)\<lparr>ue_actual := k\<rparr>], ubuf := f\<rparr>)"
proof -
  have b: "map ue_buf ((udc_out s)[i := (udc_out s ! i)\<lparr>ue_actual := k\<rparr>]) = map ue_buf (udc_out s)"
    using assms(2) by (simp add: map_update list_update_same_conv)
  have pk: "pool_ok hr ht (s\<lparr>udc_out := x, ubuf := y\<rparr>) = pool_ok hr ht s" for x y
    by (rule same_pool_ok) (simp add: same_pool_def)
  have old: "is_heap (ue_buf e)" if "e \<in> set (udc_out s)" for e
    using out_is_heap [OF assms(1)] that by simp
  have "is_heap (ue_buf e)" if "e \<in> set ((udc_out s)[i := (udc_out s ! i)\<lparr>ue_actual := k\<rparr>])" for e
    using set_update_subset_insert [THEN subsetD, OF that] old [OF nth_mem [OF assms(2)]] old by auto
  with assms(1) show ?thesis
    by (simp add: usb_ok_def mem_ok_def acct_def population_def all_bufs_def b out_heap_def pk ball_Un)
qed

lemma usb_step_inv: "usb_step fl c d \<Longrightarrow> usb_inv b c \<Longrightarrow> \<exists>b'. usb_inv b' d \<and> (\<not> fl \<longrightarrow> b' = b)"
proof (induction rule: usb_step.induct)
  case (pool c d)
  obtain s hr ht fd t hr' ht' fd' where cd: "c = (s, hr, ht, fd)" "d = (t, hr', ht', fd')"
    by (cases c; cases d)
  have "same_more s t" using pool(2) by (simp add: cd same_more_def)
  from same_more_usb [OF this] step_pool [OF pool(1)] pool(3) show ?case
    by (auto simp: cd usb_inv_def usb_ok_def usb_view_def mem_ok_def all_bufs_def out_heap_def acct_def population_def)
next
  case (worker s hr ht fd)
  then show ?case
    using wp_handler [of 0 b hr ht s] by (cases "flushmode s") (auto simp: usb_inv_def wp_snd)
next
  case (restart hard works s hr ht fd)
  then show ?case
    using wp_restart [of "{#}" 0 b hr ht s hard works] by (auto simp: usb_inv_def wp_snd)
next
  case (new_in s hr ht fd ep)
  then show ?case using fresh_in(1) [of 0 b hr ht s ep] by (auto simp: usb_inv_def)
next
  case (new_out s hr ht fd ep)
  then show ?case using fresh_in(2) [of 0 b hr ht s ep] by (auto simp: usb_inv_def)
next
  case (receive i s hr ht fd n bytes)
  then show ?case
    by (auto simp: usb_inv_def intro!: exI [of _ b] received)
next
  case (outside s t hr ht fd)
  then show ?case using same_usb_ok [of s t] by (auto simp: usb_inv_def)
qed (auto simp: usb_inv_def intro!: exI [of _ b] after_ok [OF wp_submit_in] after_ok [OF wp_submit_out]
    after_ok [OF wp_usb_ship] after_ok [OF wp_flush_partial] after_ok [OF wp_dev_release]
    after_ok [OF wp_tx_flush_staging] after_ok [OF wp_reset_stream])

lemma usb_steps_inv:
  "(\<lambda>c d. \<exists>fl. usb_step fl c d)\<^sup>*\<^sup>* c d \<Longrightarrow> usb_inv b c \<Longrightarrow> \<exists>b'. usb_inv b' d"
proof (induction rule: rtranclp_induct)
  case (step d e)
  then show ?case by (meson usb_step_inv)
qed auto

lemma usb_steps_noflush: "(usb_step False)\<^sup>*\<^sup>* c d \<Longrightarrow> usb_inv b c \<Longrightarrow> usb_inv b d"
proof (induction rule: rtranclp_induct)
  case (step d e)
  then show ?case using usb_step_inv by blast
qed auto


section \<open>Properties\<close>

text \<open>The state of the transport when the module has been loaded, and the requests in use.\<close>

definition usb_fresh :: "'a usb_world_scheme \<Rightarrow> bool" where
  "usb_fresh s \<longleftrightarrow> ub_in s = [] \<and> ub_in_usb s = [] \<and> inflight s = [] \<and> udc_in s = [] \<and> ub_out s = [] \<and>
     ub_out_usb s = [] \<and> udc_out s = [] \<and> spares s = [] \<and> kfreed s = [] \<and> inflight_cnt s = 0 \<and>
     req_created (rx18 s) = 0 \<and> req_destroyed (rx18 s) = 0 \<and> 0 < rx_slots s"

definition in_use :: "'a usb_world_scheme \<Rightarrow> usb_ele set" where
  "in_use s = set (ub_in s) \<union> set (ub_in_usb s) \<union> set (inflight s) \<union> set (udc_in s) \<union>
     set (ub_out s) \<union> set (ub_out_usb s) \<union> set (udc_out s)"

lemma fresh_inv:
  assumes "usb_fresh s"
  shows "usb_inv 0 (after pool_setup s, {#}, {#}, fd)"
proof -
  have "pool_ok {#} {#} (after pool_setup s)"
    using after_ok [OF setup_ok, of s] assms by (simp add: usb_fresh_def)
  with assms show ?thesis
    by (simp add: usb_inv_def usb_ok_def mem_ok_def all_bufs_def out_heap_def acct_def population_def usb_fresh_def
        pool_setup_def)
qed

lemma heaps_mem: "Heap k \<in> set bs \<Longrightarrow> k \<in># heaps bs"
  by (induction bs) auto

lemma bufs_mem: "e \<in> set es \<Longrightarrow> ue_buf e = Heap k \<Longrightarrow> k \<in># bufs es"
  by (rule heaps_mem) (metis image_eqI image_set)

lemma heaps_distinct: "\<forall>i. count (heaps bs) i \<le> 1 \<Longrightarrow> \<forall>b \<in> set bs. is_heap b \<Longrightarrow> distinct bs"
proof (induction bs)
  case (Cons b bs)
  obtain k where k: "b = Heap k" using Cons.prems(2) by (cases b) auto
  have "count (heaps bs) i \<le> 1" for i
    using spec [OF Cons.prems(1), of i] by simp
  moreover have "Heap k \<notin> set bs"
  proof
    assume "Heap k \<in> set bs"
    then have "0 < count (heaps bs) k" by (simp add: heaps_mem)
    with spec [OF Cons.prems(1), of k] show False by (simp only: k heaps_simps heap_of_simps) simp
  qed
  ultimately show ?case using Cons k by simp
qed simp

lemma mem_ok_safe:
  assumes "mem_ok {#} s"
  shows "distinct (kfreed s)" and "\<forall>b \<in> set (kfreed s). \<not> in_rx_carveout b" and "set (kfreed s) \<inter> ue_buf ` in_use s = {}"
proof -
  have c: "count (all_bufs s) i \<le> 1" for i using assms by (simp add: mem_ok_def)
  have hp: "\<forall>b \<in> set (kfreed s). is_heap b" using assms by (simp add: mem_ok_def out_heap_def)
  have "count (heaps (kfreed s)) i \<le> 1" for i
    using c [of i] by (simp add: all_bufs_def)
  with hp show "distinct (kfreed s)" by (intro heaps_distinct) auto
  show "\<forall>b \<in> set (kfreed s). \<not> in_rx_carveout b"
  proof
    fix b assume "b \<in> set (kfreed s)"
    with hp show "\<not> in_rx_carveout b" by (cases b) auto
  qed
  show "set (kfreed s) \<inter> ue_buf ` in_use s = {}"
  proof (rule ccontr)
    assume "set (kfreed s) \<inter> ue_buf ` in_use s \<noteq> {}"
    then obtain e where e: "e \<in> in_use s" "ue_buf e \<in> set (kfreed s)" by blast
    then obtain k where k: "ue_buf e = Heap k" using hp by (cases "ue_buf e") auto
    have a: "0 < count (heaps (kfreed s)) k"
      using e(2) by (simp add: k heaps_mem)
    have "k \<in># bufs (ub_in s) + bufs (ub_in_usb s) + bufs (inflight s) + bufs (udc_in s) +
        bufs (ub_out s) + bufs (ub_out_usb s) + bufs (udc_out s)"
      using e(1) bufs_mem [OF _ k] unfolding in_use_def by auto
    then have "0 < count (bufs (ub_in s) + bufs (ub_in_usb s) + bufs (inflight s) + bufs (udc_in s) +
        bufs (ub_out s) + bufs (ub_out_usb s) + bufs (udc_out s)) k"
      by (simp only: count_greater_zero_iff)
    with a c [of k] show False
      by (simp only: all_bufs_def count_union)
  qed
qed



text \<open>
  Only a successful completion is a sign of life. The time of the last read and the grace of a new
  session change in exactly the completions with status 0 on an enabled endpoint, which stamp the time
  and end the grace; the returns of cancelled, overrun or torn-down requests leave both alone.
\<close>

theorem completion_stamps_life:
  "wp (rfnm_submit_usb_req_in ep ss status tracked mem e) (\<lambda>_ t.
     let read = ss \<and> status = 0 \<and> (tracked \<or> mem) in
     last_submit t = (if read then nonzero_jiffies s else last_submit s) \<and>
     head_grace_until t = (if read then 0 else head_grace_until s)) s"
  unfolding rfnm_submit_usb_req_in_def settle_in_def note_completion_def destroy_in_def rfnm_usb_req_free_def
    kfree_buf_def learn_ep_def ep_count_def set_rx18_def seam_done_check_def Let_def
  by (cases "ue_buf e"; cases tracked; cases mem)
    (simp_all add: wp_eqs nonzero_jiffies_def usb_errno_defs)

text \<open>
  The stager's gate looks at the queued requests only: what is staged already does not close it.
\<close>

fun ships :: "nat \<Rightarrow> u32 \<Rightarrow> nat \<Rightarrow> ('a usb_world_scheme, unit) state" where
  "ships lane pos 0 = ret ()"
| "ships lane pos (Suc k) = do { usb_ship lane pos; ships lane pos k }"

lemma ship_stages:
  assumes "\<not> stage_gated s" and "ub_in s = e # r"
  shows "wp (usb_ship lane pos) (\<lambda>_ t. \<not> stage_gated t \<and> ub_in t = r \<and> length (ub_in_usb t) = Suc (length (ub_in_usb s))) s"
  using assms
  unfolding usb_ship_def rfnm_usb_rx_stage_gated_def pop_ub_in_def usb_fill_req_def rfnm_usb_req_point_at_ring_def
    kfree_buf_def rfnm_rx_seam_ship_check_def stage_def usb_clear_size_def usb_advance_def set_usb_def set_rx18_def Let_def
  by (simp add: wp_eqs stage_gated_def usb_alive_def head_grace_def)

text \<open>
  The depth limit for a stale consumer is not a bound. With no consumer alive and no grace, but
  fewer than four requests queued, the producer stages as many packets as it has requests for
  before the worker runs.
\<close>

theorem stale_cap_not_a_bound:
  assumes "\<not> stage_gated s" and "k \<le> length (ub_in s)"
  shows "wp (ships lane pos k) (\<lambda>_ t. length (ub_in_usb t) = length (ub_in_usb s) + k) s"
  using assms
proof (induction k arbitrary: s)
  case (Suc k)
  obtain e r where u: "ub_in s = e # r" using Suc.prems(2) by (cases "ub_in s") auto
  show ?case
    unfolding ships.simps
  proof (rule wp_then [OF ship_stages [OF Suc.prems(1) u]], goal_cases)
    case (1 q t)
    then show ?case
      using Suc.IH [of t] Suc.prems(2) u by simp
  qed
qed (simp add: wp_ret)


text \<open>The retry gives up after 50 tries when the consumer returns nothing.\<close>

lemma queue_full: "out_free s = [] \<Longrightarrow> run_state (rfnm_queue_local_buffer_tx buf len born) s = (- ENOSPC, s)"
  by (simp add: rfnm_queue_local_buffer_tx_def pop_out_free_def)

lemma tries_full:
  "out_free s = [] \<Longrightarrow> \<forall>i. consumer_rate s i = 0 \<Longrightarrow>
     wp (queue_tries buf len born k) (\<lambda>r t. r = 0 \<and> t = s\<lparr>sleeps := sleeps t\<rparr>) s"
proof (induction k arbitrary: s)
  case (Suc k)
  show ?case
  proof (cases k)
    case (Suc m)
    have "out_free (s\<lparr>sleeps := Suc (sleeps s)\<rparr>) = []" "\<forall>i. consumer_rate (s\<lparr>sleeps := Suc (sleeps s)\<rparr>) i = 0"
      using Suc.prems by simp_all
    from Suc.IH [OF this] show ?thesis
      using Suc.prems Suc
      by (simp add: wp_def queue_full nap_def errno_defs del: queue_tries.simps split: prod.splits)
        (simp add: queue_full nap_def errno_defs)
  qed (use Suc.prems in \<open>simp add: wp_def queue_full errno_defs\<close>)
qed (simp add: wp_ret)


lemma fifty_tries:
  "queue_tries buf len born 50 = do {
     r \<leftarrow> rfnm_queue_local_buffer_tx buf len born;
     if r = 0 then ret 50 else do { nap; queue_tries buf len born 49 }
   }"
proof -
  have "(50 :: nat) = Suc 49" by simp
  then show ?thesis by (simp only: queue_tries.simps) simp
qed


text \<open>
  A packet that is dropped after all retries is counted as received all the same: with the pool
  full for the whole time, the error counter and the counters of packets taken in both rise by one,
  and nothing has been queued.
\<close>

theorem dropped_packet_counted_as_ok:
  assumes "tx_frame_ok s e" and "spares s \<noteq> []" and "out_free s = []" and "\<forall>i. consumer_rate s i = 0"
  shows "wp (ingest_one e) (\<lambda>r t. r \<and> out_pend t = out_pend s \<and> usb_tx_err t = usb_tx_err s + 1 \<and>
    usb_tx_ok t = usb_tx_ok s + 1 \<and> tx_ingested t = tx_ingested s + 1) s"
proof -
  have "wp (queue_tries buf len born 50) (\<lambda>r u. r = 0 \<and> u = t\<lparr>sleeps := sleeps u\<rparr>) t"
    if "out_free t = out_free s" "consumer_rate t = consumer_rate s" for t :: "'a usb_world_scheme" and buf len born
    using tries_full [of t buf len born 50] that assms(3,4) by simp
  note tr = this
  show ?thesis
    using assms(1,2)
    by (simp add: ingest_one_def Let_def wp_eqs arm_out_def usb_ep_queue_def)
      (intro conjI impI; rule wp_mono [OF tr]; (simp; fail)?; auto simp: wp_eqs count_ingested_def elim!: ssubst)
qed


section \<open>Witnesses\<close>

definition blank_packet :: rx_packet where
  "blank_packet = \<lparr>pk_magic = 0, pk_fmt = 0, pk_phytimer = 0, pk_cc = 0, pk_adc = 0, pk_flags = 0, pk_elems = 0, pk_buf = []\<rparr>"

definition blank_cb :: local_cb where
  "blank_cb = \<lparr>cb_head = 0, cb_buf = (\<lambda>i. 0), cb_size = (\<lambda>i. 0), cb_fmt = (\<lambda>i. 0), cb_cc = (\<lambda>i. 0)\<rparr>"

text \<open>The transport after loading, on the bare pool of two slots.\<close>

definition bare_usb :: usb_world where
  "bare_usb = pool_world.extend bare_pool
     (usb_world.fields
      [] [] [] [] [] [] [] 0 False 0 0 [] 0 0 0 0 0 0 0 (\<lambda>_. 0) 0 0 [] []
       \<lparr>st_ok = 0, st_dead = 0, st_overflow = 0, st_default = 0, st_remoteio = 0\<rparr>
       \<lparr>req_created = 0, req_destroyed = 0, pool_topup = 0, queue_fail = 0, rate_sweeps = 0, udc_pokes = 0,
         full_ok = 0, full_gated = 0, full_pool_empty = 0, partial_ok = 0, partial_gated = 0, partial_pool_empty = 0\<rparr>
       (\<lambda>n. of_nat n) 80 (\<lambda>_. blank_packet) blank_cb (\<lambda>_. 0) 500 20480 0 0 0
       (\<lambda>_. 0) (\<lambda>_. False) (\<lambda>_. 0) (\<lambda>_. 0) 0 0 0 0 0 (\<lambda>_. []) []
       (\<lambda>b. 0x758f4d4a) (\<lambda>b. of_nat (length b)) 4 8 3 0 0 0 0 0 False 2 False
       (\<lambda>_. True) 0 (\<lambda>_. 0) 0 (\<lambda>_. False) 0 (\<lambda>_. 0) (\<lambda>_. False) 0 0 0
       0 0 False False False 0 False False 0 0 False 0 False False 0 False)"

lemmas bare_usb_defs = bare_usb_def usb_world.defs bare_pool_def pool_world.defs sample_session_defs

lemma bare_usb_fresh: "usb_fresh bare_usb"
  by (simp add: usb_fresh_def bare_usb_defs)

text \<open>An enumeration, the completion of the new request, and a packet that is shipped.\<close>

definition enumerated :: usb_world where
  "enumerated = (after pool_setup bare_usb)\<lparr>udc_in := [fresh_req 0 5], next_id := 1\<rparr>"

definition enrolled :: usb_world where
  "enrolled = after (rfnm_submit_usb_req_in 5 True (- EREMOTEIO) False True (fresh_req 0 5)) enumerated"

lemma enrolled_steps:
  "(usb_step False)\<^sup>*\<^sup>* (after pool_setup bare_usb, {#}, {#}, {#}) (after (usb_ship 1 64) enrolled, {#}, {#}, {#})"
proof -
  have a: "usb_step False (after pool_setup bare_usb, {#}, {#}, {#}) (enumerated, {#}, {#}, {#})"
    using usb_step.new_in [of "after pool_setup bare_usb" "{#}" "{#}" "{#}" 5]
    by (simp add: enumerated_def pool_setup_def bare_usb_defs)
  have b: "usb_step False (enumerated, {#}, {#}, {#}) (enrolled, {#}, {#}, {#})"
    unfolding enrolled_def by (rule usb_step.complete_new) (simp add: enumerated_def)
  have c: "usb_step False (enrolled, {#}, {#}, {#}) (after (usb_ship 1 64) enrolled, {#}, {#}, {#})"
    by (rule usb_step.ship)
  from a b c show ?thesis by (meson rtranclp.rtrancl_into_rtrancl rtranclp.rtrancl_refl)
qed

lemma enrolled_pool: "ub_in enrolled = [fresh_req 0 5]" "\<not> stage_gated enrolled" "ub_in_usb enrolled = []"
  by (simp_all add: enrolled_def enumerated_def rfnm_submit_usb_req_in_def settle_in_def note_completion_def
      learn_ep_def ep_count_def set_rx18_def usb_errno_defs errno_defs pool_setup_def bare_usb_defs fresh_req_def
      stage_gated_def usb_alive_def head_grace_def RFNM_USB_INFLIGHT_CAP_def RFNM_USB_INFLIGHT_STALE_CAP_def)



lemma stale_cap_not_a_bound_witness: "length (ub_in_usb (after (ships 2 64 1) enrolled)) = 1"
  using stale_cap_not_a_bound [of enrolled 1 2 64] enrolled_pool by (simp add: wp_snd)

text \<open>A received packet of one slot, and its request.\<close>

definition received_req :: usb_ele where
  "received_req = (fresh_req 7 3)\<lparr>ue_actual := 12\<rparr>"

definition received_world :: usb_world where
  "received_world = (after pool_setup bare_usb)\<lparr>ub_out := [received_req], spares := [Heap 8],
     ubuf := (\<lambda>_. [9])\<rparr>"


lemma dropped_packet_counted_as_ok_witness:
  "\<exists>t. run_state (ingest_one received_req) (received_world\<lparr>out_free := []\<rparr>) = (True, t) \<and> usb_tx_ok t = 1"
proof -
  have "tx_frame_ok (received_world\<lparr>out_free := []\<rparr>) received_req" "spares (received_world\<lparr>out_free := []\<rparr>) \<noteq> []"
    "out_free (received_world\<lparr>out_free := []\<rparr>) = []" "\<forall>i. consumer_rate (received_world\<lparr>out_free := []\<rparr>) i = 0"
    by (simp_all add: received_world_def received_req_def fresh_req_def tx_frame_ok_def pool_setup_def bare_usb_defs)
  from dropped_packet_counted_as_ok [OF this] show ?thesis
    by (cases "run_state (ingest_one received_req) (received_world\<lparr>out_free := []\<rparr>)")
      (simp add: wp_def received_world_def pool_setup_def bare_usb_defs)
qed

end
