(* ===== verification/Spec2Isabelle.thy ===== *)
theory Spec2Isabelle
  imports Reprobe Phy_Time Usb_Steps
begin

text \<open>
  Verification of the host driver of the LA9310 (src/kernel_driver).

  \<^bold>\<open>The program.\<close> Two kernel modules drive an NXP LA9310 baseband processor over PCI Express. The module
  under \<open>la9310shiva/\<close> brings the endpoint up: it maps the BARs, cuts the shared memory into
  regions, boots the RTOS of the M4 core, loads images into the VSPA signal processor,
  demultiplexes the one message interrupt, and can take the whole link down and up again while
  the machine runs (the hard reprobe). The modules under \<open>la9310rfnm/\<close> are the radio: they
  plan clocks and rates, send configuration words through a mailbox to the M4, queue timed
  transmit windows, move samples and serve clients. What joins the two is the register
  window behind the link. While the link is down an access to it hangs the machine, so
  every access is made through a fence (\<open>rfnm_la9310_mmio_fenced\<close>).

  \<^bold>\<open>Theories\<close>, in the order of the imports:

  \<^item> \<open>Prelude\<close>: words, error numbers, list and bit lemmas, the weakest precondition \<open>wp\<close> of a
    stateful function with its rules (collections \<open>wp_eqs\<close>, \<open>wp_intros\<close>, \<open>wp_steps\<close>), and the locale
    \<open>run_rel\<close>: a reflexive and transitive relation that a function keeps between its first and
    last state is kept by composition, branches and loops. Every frame argument is an interpretation of it.
  \<^item> \<open>Mmio\<close>: the register window, the fence and the polled wait (la9310_pci.h,
    la9310_vspa.h). \<open>bus\<close> is the log of all accesses that went over the link.
  \<^item> \<open>Firmware\<close>: checksum and identity of an image (la9310_vspa_registry.c).
  \<^item> \<open>Vspa_Core\<close>: transfer engine, zeroise pass, section loader and boot handshake of the VSPA
    (la9310_main_vspa.c).
  \<^item> \<open>Vspa_Registry\<close>: registered images, their selection and boot (la9310_vspa_registry.c). The
    locale \<open>keyed_scan\<close> is the contract of both selection scans: a left-to-right scan with a
    comparison that follows a key finds the first minimum.
  \<^item> \<open>Base\<close>, \<open>Boot\<close>, \<open>Irq_Mux\<close>, \<open>Ipc\<close>, \<open>Vspa_Probe\<close>, \<open>Wdog\<close>: the parts of an endpoint
    (la9310_base.c, la9310_boot.c, la9310_irq_mux.c, la9310_ipc.c, la9310_main_vspa.c,
    la9310_wdog.c).
  \<^item> \<open>Base_Probe\<close>: their composition, the bring-up of an endpoint with its unwinding, the
    sub-driver table and the removal (la9310_base.c, la9310_subdrv.c).
  \<^item> \<open>Pci\<close>, \<open>Reprobe\<close>: the PCI driver around it and the hard reprobe (la9310_pci.c).
  \<^item> \<open>Stream_Plan\<close>: rates to clocks, the configuration word (rfnm_lalib.c, \<open>rfnm_la9310_plan\<close>).
  \<^item> \<open>Windows\<close>: the command ring of the M4 and the queue of transmit windows (rfnm_lalib.c).
  \<^item> \<open>Session\<close>: mailbox, configuration word, pattern, anchor intent, quiesce, and whether a
    session is alive (rfnm_lalib.c, la9310_rfnm.c).
  \<^item> \<open>Apply\<close>: applying a configuration, with the hard reset and the swap of the image that it may
    need (rfnm_lalib.c, la9310_rfnm.c). Planner, registry and session meet here.
  \<^item> \<open>Phy_Time\<close>: the 64-bit clock and the generations of time (la9310_rfnm.c).

  \<^bold>\<open>How the code is modelled.\<close> A C function is a function of the state monad of the library with
  the C name; its result is the C result, errors are negative integers. The state is a record per
  component that extends the record of the component it calls, so that a function of a lower
  component runs unchanged in the state of a higher one. Integers have their C width.
  A loop over data is a structural recursion; a loop that waits for the hardware takes the
  number of looks that fit into its time-out from the state (\<open>poll_reads\<close>, \<open>swcmd_polls\<close>,
  \<open>publish_polls\<close>), and the theorems hold for every such number; the scan for an endpoint has
  the 50 tries of the source. The sender of a window is bounded by the length of the queue it
  empties, which is what the loop of the source consumes.

  \<^bold>\<open>What is outside.\<close> What the kernel, the endpoint or another driver answers is a component of the
  state or an argument indexed by the number of the call: register values (\<open>dev_read\<close>), whether
  the fence is up at the n-th look (\<open>fence_at\<close>), results of mapping, requests and allocations,
  the frequency of the clock chip. Constants of headers that are not in the repository (layouts shared
  with the firmware, command numbers) are fields of \<open>platform\<close> or of the state. Nothing
  is assumed about them unless a theorem says so in a hypothesis. Locks are not modelled: an
  operation that runs under a lock is one step. Log messages are left out.

  \<^bold>\<open>What is shown.\<close>
  \<^item> Safety of the link: no access while the root complex is down, on any path of the hard
    reprobe; a boot or probe behind the fence fails and touches nothing.
  \<^item> Resources: each probe holds everything or, after any failure, nothing, and removal undoes
    probe; the exceptions are stated as they are.
  \<^item> Images: what is registered is what was verified; the smallest sufficient image is selected;
    a boot leaves either the old image or the new one counted as running, or none.
  \<^item> Streaming: a plan is within the window and gives the rates asked for, the configuration
    word carries it, and an apply that reports success has put exactly that word and clock into
    force, with at most one reset on the way.
  \<^item> Time: the 64-bit clock is the true tick as long as the sampler is on time; what it does
    when it is late; a restart ends the sessions of the old generation.
  \<^item> Windows: the queue behind the transmit windows is a bounded queue, agrees with the commands
    of the gate and never loses a wake-up.

  \<^bold>\<open>Not modelled.\<close> The files of sysfs and debugfs (text in and out), module options, the workers
  that move samples and their buffers, the front ends and daughterboards (register tables of
  other vendors' chips), the USB and network transports (calls into those stacks), and the
  image calibration (floating-point style estimation).
\<close>

end
